(* ===== verification/Nexus_Prelude.thy ===== *)
theory Nexus_Prelude
  imports
    Main
    "HOL-Library.AList"
    "HOL-Library.Char_ord"
    "HOL-Library.List_Lexorder"
    "HOL-Library.Sublist"
begin

text \<open>
  What the components share: the exceptions of the Python code, sequencing of calls that may
  raise, Python dictionaries as association lists (insertion order kept, one entry per key),
  sets kept as lists without duplicates in some iteration order, the string operations the
  code calls, and the generic lemmas and fact collections the component theories use.
\<close>

section \<open>Exceptions and sequencing\<close>

text \<open>
  Every exception class the modelled code raises or lets through. A call that raises is
  \<open>Inl e\<close>, a call that returns is \<open>Inr x\<close>.
\<close>

datatype py_exn =
    ValueError
  | TypeError
  | KeyError
  | RuntimeError
  | IntegrityError
  | PersistenceIntegrityError
  | YamlComplexityError
  | YamlSyntaxError

named_theorems bindE_simps "rewriting of sequenced calls that may raise"

definition bindE :: "'e + 'a \<Rightarrow> ('a \<Rightarrow> 'e + 'b) \<Rightarrow> 'e + 'b" where
  "bindE m f = (case m of Inl e \<Rightarrow> Inl e | Inr x \<Rightarrow> f x)"

lemma bindE_Inl [simp, bindE_simps]: "bindE (Inl e) f = Inl e"
  by (simp add: bindE_def)

lemma bindE_Inr [simp, bindE_simps]: "bindE (Inr x) f = f x"
  by (simp add: bindE_def)

lemma bindE_assoc: "bindE (bindE m f) g = bindE m (\<lambda>x. bindE (f x) g)"
  by (cases m) simp_all

lemma bindE_Inr_right [simp]: "bindE m Inr = m"
  by (cases m) simp_all

lemma bindE_eq_Inr: "bindE m f = Inr y \<longleftrightarrow> (\<exists>x. m = Inr x \<and> f x = Inr y)"
  by (cases m) auto

lemma bindE_eq_Inl: "bindE m f = Inl e \<longleftrightarrow> m = Inl e \<or> (\<exists>x. m = Inr x \<and> f x = Inl e)"
  by (cases m) auto

lemma bindE_InrE:
  assumes "bindE m f = Inr y"
  obtains x where "m = Inr x" and "f x = Inr y"
  using assms by (auto simp: bindE_eq_Inr)

lemma bindE_cong [fundef_cong]:
  "m = m' \<Longrightarrow> (\<And>x. m' = Inr x \<Longrightarrow> f x = f' x) \<Longrightarrow> bindE m f = bindE m' f'"
  by (cases m') auto

text \<open>A loop over a list whose body may raise: the first exception ends it.\<close>

fun mapE :: "('a \<Rightarrow> 'e + 'b) \<Rightarrow> 'a list \<Rightarrow> 'e + 'b list" where
  "mapE f [] = Inr []"
| "mapE f (x # xs) = bindE (f x) (\<lambda>y. bindE (mapE f xs) (\<lambda>ys. Inr (y # ys)))"

lemma mapE_cong [fundef_cong]:
  "xs = ys \<Longrightarrow> (\<And>x. x \<in> set ys \<Longrightarrow> f x = g x) \<Longrightarrow> mapE f xs = mapE g ys"
proof (induction ys arbitrary: xs)
  case (Cons y ys)
  then show ?case by (auto intro!: bindE_cong)
qed simp

lemma mapE_Inr_iff: "mapE f xs = Inr ys \<longleftrightarrow> list_all2 (\<lambda>x y. f x = Inr y) xs ys"
  by (induction xs arbitrary: ys) (auto simp: bindE_eq_Inr list_all2_Cons1)

lemma mapE_pure: "(\<And>x. x \<in> set xs \<Longrightarrow> f x = Inr (g x)) \<Longrightarrow> mapE f xs = Inr (map g xs)"
  by (induction xs) auto

text \<open>A loop that threads a state and may raise.\<close>

fun foldE :: "('a \<Rightarrow> 's \<Rightarrow> 'e + 's) \<Rightarrow> 'a list \<Rightarrow> 's \<Rightarrow> 'e + 's" where
  "foldE f [] s = Inr s"
| "foldE f (x # xs) s = bindE (f x s) (foldE f xs)"

lemma foldE_Nil_fun [simp]: "foldE f [] = Inr"
  by (rule ext) simp

lemma foldE_cong:
  "(\<And>x s. x \<in> set xs \<Longrightarrow> f x s = g x s) \<Longrightarrow> foldE f xs s = foldE g xs s"
  by (induction xs arbitrary: s) (auto intro!: bindE_cong)

lemma foldE_append: "foldE f (xs @ ys) s = bindE (foldE f xs s) (foldE f ys)"
proof (induction xs arbitrary: s)
  case (Cons x xs)
  then show ?case by (cases "f x s") auto
qed simp

lemma foldE_append_fun: "foldE f (xs @ ys) = (\<lambda>s. bindE (foldE f xs s) (foldE f ys))"
  by (rule ext) (rule foldE_append)

lemma foldE_concat:
  "foldE (\<lambda>x. foldE f (g x)) xs s = foldE f (concat (map g xs)) s"
proof (induction xs arbitrary: s)
  case (Cons x xs)
  then show ?case by (cases "foldE f (g x) s") (auto simp: foldE_append)
qed simp

lemma foldE_map: "foldE f (map g xs) s = foldE (\<lambda>x. f (g x)) xs s"
  by (induction xs arbitrary: s) (auto intro: bindE_cong)

lemma foldE_invariant:
  assumes "\<And>x s s'. x \<in> set xs \<Longrightarrow> P s \<Longrightarrow> f x s = Inr s' \<Longrightarrow> P s'"
    and "foldE f xs s = Inr s'" and "P s"
  shows "P s'"
  using assms by (induction xs arbitrary: s) (auto elim!: bindE_InrE)

section \<open>Python dictionaries\<close>

text \<open>
  \<open>d[k] = v\<close> replaces the value of a present key in place and appends a new key, as
  \<^const>\<open>AList.update\<close> does. Lookup is \<^const>\<open>map_of\<close>; iteration follows the list.
\<close>

type_synonym ('k, 'v) dict = "('k \<times> 'v) list"

abbreviation dict_set :: "'k \<Rightarrow> 'v \<Rightarrow> ('k, 'v) dict \<Rightarrow> ('k, 'v) dict" where
  "dict_set \<equiv> AList.update"

abbreviation dict_keys :: "('k, 'v) dict \<Rightarrow> 'k list" where
  "dict_keys d \<equiv> map fst d"

abbreviation dict_ok :: "('k, 'v) dict \<Rightarrow> bool" where
  "dict_ok d \<equiv> distinct (map fst d)"

text \<open>\<open>d[k]\<close> raises \<open>KeyError\<close> on a missing key.\<close>

definition dict_index :: "('k, 'v) dict \<Rightarrow> 'k \<Rightarrow> py_exn + 'v" where
  "dict_index d k = (case map_of d k of None \<Rightarrow> Inl KeyError | Some v \<Rightarrow> Inr v)"

lemma dict_index_eq_Inr: "dict_index d k = Inr v \<longleftrightarrow> map_of d k = Some v"
  by (simp add: dict_index_def split: option.split)

text \<open>Updating the value of a present key: \<open>d[k] = f(d[k])\<close>, \<open>d[k].add(x)\<close>.\<close>

definition dict_upd :: "'k \<Rightarrow> ('v \<Rightarrow> 'v) \<Rightarrow> ('k, 'v) dict \<Rightarrow> py_exn + ('k, 'v) dict" where
  "dict_upd k f d = (case map_of d k of None \<Rightarrow> Inl KeyError | Some v \<Rightarrow> Inr (dict_set k (f v) d))"

lemma dict_upd_present: "map_of d k = Some v \<Longrightarrow> dict_upd k f d = Inr (dict_set k (f v) d)"
  by (simp add: dict_upd_def)

lemma map_of_dict_set [simp]: "map_of (dict_set k v d) = (map_of d)(k \<mapsto> v)"
  by (rule update_conv')

lemma set_keys_dict_set [simp]: "fst ` set (dict_set k v d) = insert k (fst ` set d)"
  by (simp add: dom_update)

lemma dict_ok_set [simp]: "dict_ok d \<Longrightarrow> dict_ok (dict_set k v d)"
  by (rule distinct_update)

lemma dict_set_new: "k \<notin> fst ` set d \<Longrightarrow> dict_set k v d = d @ [(k, v)]"
  by (induction d) auto

lemma dict_keys_set_present: "k \<in> fst ` set d \<Longrightarrow> dict_keys (dict_set k v d) = dict_keys d"
  by (simp add: update_keys)

text \<open>Building a dictionary by assigning the entries of a list whose keys are distinct.\<close>

lemma fold_dict_set_append:
  "dict_ok (acc @ xs) \<Longrightarrow> fold (\<lambda>(k, v). dict_set k v) xs acc = acc @ xs"
proof (induction xs arbitrary: acc)
  case (Cons p xs)
  obtain k v where p: "p = (k, v)" by (cases p)
  from Cons.prems p have "k \<notin> fst ` set acc" by auto
  then have "dict_set k v acc = acc @ [(k, v)]" by (rule dict_set_new)
  moreover have "fold (\<lambda>(k, v). dict_set k v) xs (acc @ [(k, v)]) = (acc @ [(k, v)]) @ xs"
    using Cons.prems p by (intro Cons.IH) auto
  ultimately show ?case by (simp add: p)
qed simp

section \<open>Sets kept as lists\<close>

text \<open>\<open>s.add(x)\<close> on a set kept as a list without duplicates.\<close>

definition py_add :: "'a \<Rightarrow> 'a list \<Rightarrow> 'a list" where
  "py_add x xs = (if x \<in> set xs then xs else xs @ [x])"

lemma set_py_add [simp]: "set (py_add x xs) = insert x (set xs)"
  by (auto simp: py_add_def)

lemma distinct_py_add [simp]: "distinct (py_add x xs) = distinct xs"
  by (auto simp: py_add_def)

text \<open>\<open>frozenset(it)\<close> and \<open>set(it)\<close>.\<close>

definition py_set :: "'a list \<Rightarrow> 'a list" where
  "py_set xs = fold py_add xs []"

lemma fold_py_add: "set (fold py_add xs acc) = set acc \<union> set xs"
  "distinct acc \<Longrightarrow> distinct (fold py_add xs acc)"
  by (induction xs arbitrary: acc) auto

lemma set_py_set [simp]: "set (py_set xs) = set xs"
  and distinct_py_set [simp]: "distinct (py_set xs)"
  by (simp_all add: py_set_def fold_py_add)

lemma fold_py_add_id: "distinct (acc @ xs) \<Longrightarrow> fold py_add xs acc = acc @ xs"
  by (induction xs arbitrary: acc) (auto simp: py_add_def)

lemma py_set_id: "distinct xs \<Longrightarrow> py_set xs = xs"
  by (simp add: py_set_def fold_py_add_id)

section \<open>Strings\<close>

text \<open>
  Strings are lists of characters; a character stands for one ASCII code point. \<open>str.upper\<close>,
  \<open>str.lower\<close> and \<open>str.strip\<close> are the ASCII ones: letters change case, the whitespace
  stripped is what Python calls whitespace in that range.
\<close>

definition char_upper :: "char \<Rightarrow> char" where
  "char_upper c = (let n = (of_char c :: nat) in if 97 \<le> n \<and> n \<le> 122 then char_of (n - 32) else c)"

definition char_lower :: "char \<Rightarrow> char" where
  "char_lower c = (let n = (of_char c :: nat) in if 65 \<le> n \<and> n \<le> 90 then char_of (n + 32) else c)"

definition py_upper :: "string \<Rightarrow> string" where
  "py_upper s = map char_upper s"

definition py_lower :: "string \<Rightarrow> string" where
  "py_lower s = map char_lower s"

definition py_space :: "char \<Rightarrow> bool" where
  "py_space c = (let n = (of_char c :: nat) in (9 \<le> n \<and> n \<le> 13) \<or> (28 \<le> n \<and> n \<le> 32))"

definition py_strip :: "string \<Rightarrow> string" where
  "py_strip s = rev (dropWhile py_space (rev (dropWhile py_space s)))"

text \<open>\<open>sub in s\<close>: some suffix of \<open>s\<close> starts with \<open>sub\<close>.\<close>

fun py_contains :: "string \<Rightarrow> string \<Rightarrow> bool" where
  "py_contains p [] = (p = [])"
| "py_contains p (c # s) = (prefix p (c # s) \<or> py_contains p s)"

lemma py_contains_iff: "py_contains p s \<longleftrightarrow> (\<exists>a b. s = a @ p @ b)"
proof (induction s)
  case (Cons c s)
  have "(\<exists>a b. c # s = a @ p @ b) \<longleftrightarrow> prefix p (c # s) \<or> (\<exists>a b. s = a @ p @ b)"
    by (auto simp: prefix_def Cons_eq_append_conv)
  with Cons show ?case by simp
qed simp

lemma py_contains_append1: "py_contains p s \<Longrightarrow> py_contains p (t @ s)"
  unfolding py_contains_iff by (metis append.assoc)

lemma py_contains_append2: "py_contains p s \<Longrightarrow> py_contains p (s @ t)"
  unfolding py_contains_iff by (metis append.assoc)

lemma py_contains_trans: "py_contains p q \<Longrightarrow> py_contains q s \<Longrightarrow> py_contains p s"
  unfolding py_contains_iff by (metis append.assoc)

text \<open>\<open>sep.join(parts)\<close>.\<close>

fun py_join :: "string \<Rightarrow> string list \<Rightarrow> string" where
  "py_join sep [] = []"
| "py_join sep [s] = s"
| "py_join sep (s # t # ts) = s @ sep @ py_join sep (t # ts)"

text \<open>The decimal text of a number, as an f-string renders it.\<close>

fun nat_str :: "nat \<Rightarrow> string" where
  "nat_str n = (if n < 10 then [char_of (48 + n)] else nat_str (n div 10) @ [char_of (48 + n mod 10)])"

declare nat_str.simps [simp del]

definition int_str :: "int \<Rightarrow> string" where
  "int_str i = (if i < 0 then ''-'' @ nat_str (nat (- i)) else nat_str (nat i))"

section \<open>Generic list lemmas\<close>

lemma find_filter_None: "find P xs = None \<longleftrightarrow> filter P xs = []"
  by (auto simp: find_None_iff filter_empty_conv)

lemma find_SomeD: "find P xs = Some x \<Longrightarrow> x \<in> set xs \<and> P x"
  by (auto simp: find_Some_iff)

lemma find_unique:
  assumes "x \<in> set xs" and "P x" and "\<And>y. y \<in> set xs \<Longrightarrow> P y \<Longrightarrow> y = x"
  shows "find P xs = Some x"
proof (cases "find P xs")
  case None
  with assms(1,2) show ?thesis by (auto simp: find_None_iff)
next
  case (Some y)
  then have "y \<in> set xs \<and> P y" by (rule find_SomeD)
  with assms(3) Some show ?thesis by simp
qed

lemma distinct_map_eqD: "distinct (map f xs) \<Longrightarrow> x \<in> set xs \<Longrightarrow> y \<in> set xs \<Longrightarrow> f x = f y \<Longrightarrow> x = y"
  by (auto simp: distinct_map dest: inj_onD)

lemma find_key:
  "distinct (map f xs) \<Longrightarrow> x \<in> set xs \<Longrightarrow> find (\<lambda>y. f y = f x) xs = Some x"
  by (rule find_unique) (simp_all add: distinct_map_eqD)

lemma list_all2_rightD: "list_all2 R xs ys \<Longrightarrow> y \<in> set ys \<Longrightarrow> \<exists>x \<in> set xs. R x y"
  by (induction xs ys rule: list_all2_induct) auto

lemma list_all2_leftD: "list_all2 R xs ys \<Longrightarrow> x \<in> set xs \<Longrightarrow> \<exists>y \<in> set ys. R x y"
  by (induction xs ys rule: list_all2_induct) auto

lemma map_of_eq_find: "map_of d k = map_option snd (find (\<lambda>p. fst p = k) d)"
  by (induction d) auto

lemma map_of_mapE_values:
  assumes "list_all2 (\<lambda>x y. fst y = fst x \<and> R (snd x) (snd y)) xs ys"
  shows "rel_option R (map_of xs k) (map_of ys k)"
  using assms by (induction xs ys rule: list_all2_induct) (auto split: prod.splits)

end
