(* ===== verification/Json_Compat.thy ===== *)
theory Json_Compat
  imports Nexus_Prelude Complex_Main
begin

text \<open>
  The JSON domain values of \<open>src/nexusflow/domain/json_compat.py\<close>: the Python values that
  reach \<open>freeze_json\<close> and \<open>thaw_json\<close>, the two functions, and the facts the rest of the
  development uses: frozen values are deeply immutable JSON, freezing is idempotent, and
  thawing then freezing gives the frozen value back.
\<close>

section \<open>Values\<close>

text \<open>
  A Python value, as far as the two functions tell values apart. A finite float is its exact
  rational value. Dictionaries are lists of entries whose keys may be any value; \<open>PyOther\<close>
  stands for every other type (bytes, datetimes, sets, ...) by its name.
\<close>

datatype pyfloat = FFinite rat | FInfinity bool | FNan

datatype pyval =
    PyNone
  | PyBool bool
  | PyInt int
  | PyFloat pyfloat
  | PyStr string
  | PyList "pyval list"
  | PyTuple "pyval list"
  | PyDict "(pyval \<times> pyval) list"
  | PyProxy "(pyval \<times> pyval) list"
  | PyOther string

fun is_str :: "pyval \<Rightarrow> bool" where
  "is_str (PyStr _) = True"
| "is_str _ = False"

fun is_finite :: "pyfloat \<Rightarrow> bool" where
  "is_finite (FFinite _) = True"
| "is_finite _ = False"

section \<open>Freezing and thawing\<close>

fun freeze_json :: "pyval \<Rightarrow> py_exn + pyval" where
  "freeze_json PyNone = Inr PyNone"
| "freeze_json (PyBool b) = Inr (PyBool b)"
| "freeze_json (PyInt i) = Inr (PyInt i)"
| "freeze_json (PyFloat f) = (if \<not> is_finite f then Inl ValueError else Inr (PyFloat f))"
| "freeze_json (PyStr s) = Inr (PyStr s)"
| "freeze_json (PyList xs) = bindE (mapE freeze_json xs) (\<lambda>ys. Inr (PyTuple ys))"
| "freeze_json (PyTuple xs) = bindE (mapE freeze_json xs) (\<lambda>ys. Inr (PyTuple ys))"
| "freeze_json (PyDict kvs) =
     bindE (mapE (\<lambda>(k, v). if \<not> is_str k then Inl TypeError
                           else bindE (freeze_json v) (\<lambda>w. Inr (k, w))) kvs)
       (\<lambda>es. Inr (PyProxy (fold (\<lambda>(k, w). dict_set k w) es [])))"
| "freeze_json (PyProxy kvs) =
     bindE (mapE (\<lambda>(k, v). if \<not> is_str k then Inl TypeError
                           else bindE (freeze_json v) (\<lambda>w. Inr (k, w))) kvs)
       (\<lambda>es. Inr (PyProxy (fold (\<lambda>(k, w). dict_set k w) es [])))"
| "freeze_json (PyOther _) = Inl TypeError"

fun thaw_json :: "pyval \<Rightarrow> py_exn + pyval" where
  "thaw_json PyNone = Inr PyNone"
| "thaw_json (PyInt i) = Inr (PyInt i)"
| "thaw_json (PyStr s) = Inr (PyStr s)"
| "thaw_json (PyBool b) = Inr (PyBool b)"
| "thaw_json (PyFloat f) = (if \<not> is_finite f then Inl ValueError else Inr (PyFloat f))"
| "thaw_json (PyTuple xs) = bindE (mapE thaw_json xs) (\<lambda>ys. Inr (PyList ys))"
| "thaw_json (PyList xs) = bindE (mapE thaw_json xs) (\<lambda>ys. Inr (PyList ys))"
| "thaw_json (PyProxy kvs) =
     bindE (mapE (\<lambda>(k, v). if \<not> is_str k then Inl TypeError
                           else bindE (thaw_json v) (\<lambda>w. Inr (k, w))) kvs)
       (\<lambda>es. Inr (PyDict (fold (\<lambda>(k, w). dict_set k w) es [])))"
| "thaw_json (PyDict kvs) =
     bindE (mapE (\<lambda>(k, v). if \<not> is_str k then Inl TypeError
                           else bindE (thaw_json v) (\<lambda>w. Inr (k, w))) kvs)
       (\<lambda>es. Inr (PyDict (fold (\<lambda>(k, w). dict_set k w) es [])))"
| "thaw_json (PyOther _) = Inl TypeError"

section \<open>Frozen and native values\<close>

text \<open>
  A frozen value: tuples and mapping proxies only, string keys, no key twice, finite floats.
  A native value is its mutable counterpart: lists and dicts.
\<close>

fun frozen :: "pyval \<Rightarrow> bool" where
  "frozen (PyFloat f) = is_finite f"
| "frozen (PyTuple xs) = (\<forall>x \<in> set xs. frozen x)"
| "frozen (PyProxy kvs) = (dict_ok kvs \<and> (\<forall>(k, v) \<in> set kvs. is_str k \<and> frozen v))"
| "frozen (PyList _) = False"
| "frozen (PyDict _) = False"
| "frozen (PyOther _) = False"
| "frozen _ = True"

fun native :: "pyval \<Rightarrow> bool" where
  "native (PyFloat f) = is_finite f"
| "native (PyList xs) = (\<forall>x \<in> set xs. native x)"
| "native (PyDict kvs) = (dict_ok kvs \<and> (\<forall>(k, v) \<in> set kvs. is_str k \<and> native v))"
| "native (PyTuple _) = False"
| "native (PyProxy _) = False"
| "native (PyOther _) = False"
| "native _ = True"

text \<open>The mutable counterpart of a frozen value, as a function.\<close>

fun unfreeze :: "pyval \<Rightarrow> pyval" where
  "unfreeze (PyTuple xs) = PyList (map unfreeze xs)"
| "unfreeze (PyProxy kvs) = PyDict (map (\<lambda>(k, v). (k, unfreeze v)) kvs)"
| "unfreeze v = v"

section \<open>Entries\<close>

lemma mapE_entries_Inr:
  "mapE (\<lambda>(k, v). if \<not> is_str k then Inl TypeError else bindE (f v) (\<lambda>w. Inr (k, w))) kvs = Inr es
    \<longleftrightarrow> list_all2 (\<lambda>(k, v) (k', w). k' = k \<and> is_str k \<and> f v = Inr w) kvs es"
proof -
  have "\<And>p q. (case p of (k, v) \<Rightarrow> if \<not> is_str k then Inl TypeError else bindE (f v) (\<lambda>w. Inr (k, w)))
          = Inr q \<longleftrightarrow> (case p of (k, v) \<Rightarrow> \<lambda>(k', w). k' = k \<and> is_str k \<and> f v = Inr w) q"
    by (auto simp: bindE_eq_Inr split: prod.splits)
  then show ?thesis by (simp add: mapE_Inr_iff)
qed

lemma fold_entries_ok: "dict_ok (fold (\<lambda>(k, w). dict_set k w) es [])"
proof -
  have "dict_ok acc \<Longrightarrow> dict_ok (fold (\<lambda>(k, w). dict_set k w) es acc)" for acc
    by (induction es arbitrary: acc) auto
  then show ?thesis by simp
qed

lemma set_dict_set_sub: "set (dict_set k w d) \<subseteq> insert (k, w) (set d)"
  by (induction d) auto

lemma fold_entries_sub: "set (fold (\<lambda>(k, w). dict_set k w) es []) \<subseteq> set es"
proof -
  have "set (fold (\<lambda>(k, w). dict_set k w) es acc) \<subseteq> set acc \<union> set es" for acc
  proof (induction es arbitrary: acc)
    case (Cons e es)
    obtain k w where e: "e = (k, w)" by (cases e)
    have "set (fold (\<lambda>(k, w). dict_set k w) (e # es) acc) \<subseteq> set (dict_set k w acc) \<union> set es"
      using Cons.IH [of "dict_set k w acc"] by (simp add: e)
    also have "\<dots> \<subseteq> set acc \<union> set (e # es)"
      using set_dict_set_sub [of k w acc] by (auto simp: e)
    finally show ?case .
  qed simp
  from this [of "[]"] show ?thesis by simp
qed

lemma entries_keys:
  "list_all2 (\<lambda>(k, v) (k', w). k' = k \<and> Q k v w) kvs es \<Longrightarrow> map fst es = map fst kvs"
  by (induction kvs es rule: list_all2_induct) (auto split: prod.splits)

lemma fold_entries_id: "dict_ok es \<Longrightarrow> fold (\<lambda>(k, w). dict_set k w) es [] = es"
  using fold_dict_set_append [of "[]" es] by simp

section \<open>Freezing\<close>

lemma freeze_entries_frozen:
  assumes ih: "\<And>k v w. (k, v) \<in> set kvs \<Longrightarrow> is_str k \<Longrightarrow> freeze_json v = Inr w \<Longrightarrow> frozen w"
    and es: "list_all2 (\<lambda>(k, v) (k', w). k' = k \<and> is_str k \<and> freeze_json v = Inr w) kvs es"
  shows "frozen (PyProxy (fold (\<lambda>(k, w). dict_set k w) es []))"
proof -
  have "is_str k \<and> frozen w" if "(k, w) \<in> set es" for k w
    using list_all2_rightD [OF es that] ih by auto
  with fold_entries_sub [of es] have
    "\<forall>(k, w) \<in> set (fold (\<lambda>(k, w). dict_set k w) es []). is_str k \<and> frozen w" by blast
  with fold_entries_ok [of es] show ?thesis by simp
qed

lemma list_all2_frozen:
  assumes "\<And>x w. x \<in> set xs \<Longrightarrow> freeze_json x = Inr w \<Longrightarrow> frozen w"
    and "list_all2 (\<lambda>x y. freeze_json x = Inr y) xs ys"
  shows "\<forall>y \<in> set ys. frozen y"
  using assms(1) list_all2_rightD [OF assms(2)] by blast

lemma freeze_items_frozen:
  assumes "\<And>x w. x \<in> set xs \<Longrightarrow> freeze_json x = Inr w \<Longrightarrow> frozen w"
    and "bindE (mapE freeze_json xs) (\<lambda>ys. Inr (PyTuple ys)) = Inr w"
  shows "frozen w"
proof -
  from assms(2) obtain ys where w: "w = PyTuple ys"
    and ys: "list_all2 (\<lambda>x y. freeze_json x = Inr y) xs ys"
    by (auto simp: bindE_eq_Inr mapE_Inr_iff)
  from list_all2_frozen [OF assms(1) ys] w show ?thesis by simp
qed

lemma freeze_dict_frozen:
  assumes ih: "\<And>p k v w. p \<in> set kvs \<Longrightarrow> (k, v) = p \<Longrightarrow> \<not> \<not> is_str k \<Longrightarrow> freeze_json v = Inr w
      \<Longrightarrow> frozen w"
    and eq: "bindE (mapE (\<lambda>(k, v). if \<not> is_str k then Inl TypeError
                           else bindE (freeze_json v) (\<lambda>w. Inr (k, w))) kvs)
       (\<lambda>es. Inr (PyProxy (fold (\<lambda>(k, w). dict_set k w) es []))) = Inr w"
  shows "frozen w"
proof -
  from eq obtain es where w: "w = PyProxy (fold (\<lambda>(k, w). dict_set k w) es [])"
    and es: "list_all2 (\<lambda>(k, v) (k', w). k' = k \<and> is_str k \<and> freeze_json v = Inr w) kvs es"
    by (auto simp: bindE_eq_Inr mapE_entries_Inr)
  show ?thesis unfolding w
    by (rule freeze_entries_frozen [OF _ es]) (use ih in blast)
qed

lemma freeze_json_frozen: "freeze_json v = Inr w \<Longrightarrow> frozen w"
proof (induction v arbitrary: w rule: freeze_json.induct)
  case (6 xs)
  show ?case by (rule freeze_items_frozen [OF "6.IH" "6.prems" [unfolded freeze_json.simps]])
next
  case (7 xs)
  show ?case by (rule freeze_items_frozen [OF "7.IH" "7.prems" [unfolded freeze_json.simps]])
next
  case (8 kvs)
  show ?case by (rule freeze_dict_frozen [OF "8.IH" "8.prems" [unfolded freeze_json.simps]])
next
  case (9 kvs)
  show ?case by (rule freeze_dict_frozen [OF "9.IH" "9.prems" [unfolded freeze_json.simps]])
qed (auto split: if_splits)

text \<open>On a frozen value, freezing changes nothing and thawing gives the native counterpart.\<close>

lemma freeze_frozen_id: "frozen w \<Longrightarrow> freeze_json w = Inr w"
proof (induction w rule: frozen.induct)
  case (2 xs)
  then have "mapE freeze_json xs = Inr (map id xs)" by (intro mapE_pure) auto
  then show ?case by simp
next
  case (3 kvs)
  let ?f = "\<lambda>(k, v). if \<not> is_str k then Inl TypeError else bindE (freeze_json v) (\<lambda>w. Inr (k, w))"
  have "mapE ?f kvs = Inr (map id kvs)"
    using 3 by (intro mapE_pure) (auto split: prod.splits)
  with "3.prems" show ?case by (simp add: fold_entries_id)
qed auto

lemma unfreeze_keys: "map fst (map (\<lambda>(k, v). (k, unfreeze v)) kvs) = map fst kvs"
  by (simp add: comp_def split_def)

lemma thaw_frozen: "frozen w \<Longrightarrow> thaw_json w = Inr (unfreeze w)"
proof (induction w rule: frozen.induct)
  case (2 xs)
  then have "mapE thaw_json xs = Inr (map unfreeze xs)" by (intro mapE_pure) auto
  then show ?case by simp
next
  case (3 kvs)
  let ?f = "\<lambda>(k, v). if \<not> is_str k then Inl TypeError else bindE (thaw_json v) (\<lambda>w. Inr (k, w))"
  let ?g = "\<lambda>(k, v). (k, unfreeze v)"
  have "mapE ?f kvs = Inr (map ?g kvs)"
    using 3 by (intro mapE_pure) (auto split: prod.splits)
  moreover have "dict_ok (map ?g kvs)"
    using "3.prems" unfolding unfreeze_keys by simp
  ultimately show ?case by (simp add: fold_entries_id)
qed auto

lemma native_unfreeze: "frozen w \<Longrightarrow> native (unfreeze w)"
proof (induction w rule: frozen.induct)
  case (3 kvs)
  then have "dict_ok (map (\<lambda>(k, v). (k, unfreeze v)) kvs)" unfolding unfreeze_keys by simp
  with 3 show ?case by auto
qed auto

lemma freeze_unfreeze: "frozen w \<Longrightarrow> freeze_json (unfreeze w) = Inr w"
proof (induction w rule: frozen.induct)
  case (2 xs)
  then have "mapE freeze_json (map unfreeze xs) = Inr xs"
    by (auto simp: mapE_Inr_iff list_all2_conv_all_nth)
  then show ?case by simp
next
  case (3 kvs)
  let ?f = "\<lambda>(k, v). if \<not> is_str k then Inl TypeError else bindE (freeze_json v) (\<lambda>w. Inr (k, w))"
  let ?g = "\<lambda>(k, v). (k, unfreeze v)"
  have "mapE ?f (map ?g kvs) = Inr kvs"
    using 3 by (fastforce simp: mapE_entries_Inr list_all2_conv_all_nth dest: nth_mem split: prod.splits)
  with "3.prems" show ?case by (simp add: fold_entries_id)
qed auto

section \<open>Python equality\<close>

text \<open>
  \<open>==\<close> on native values: booleans, integers and floats compare by their numeric value
  (\<open>True == 1 == 1.0\<close>), strings and lists by content, dictionaries by their entries in any
  order. Keys are strings, so key lookup is equality.
\<close>

fun py_number :: "pyval \<Rightarrow> rat option" where
  "py_number (PyBool b) = Some (if b then 1 else 0)"
| "py_number (PyInt i) = Some (of_int i)"
| "py_number (PyFloat (FFinite q)) = Some q"
| "py_number _ = None"

fun py_eq :: "pyval \<Rightarrow> pyval \<Rightarrow> bool"
  and py_eq_list :: "pyval list \<Rightarrow> pyval list \<Rightarrow> bool"
  and py_eq_entries :: "(pyval \<times> pyval) list \<Rightarrow> (pyval \<times> pyval) list \<Rightarrow> bool" where
  "py_eq (PyList xs) w = (case w of PyList ys \<Rightarrow> py_eq_list xs ys | _ \<Rightarrow> False)"
| "py_eq (PyDict xs) w =
     (case w of PyDict ys \<Rightarrow> length xs = length ys \<and> py_eq_entries xs ys | _ \<Rightarrow> False)"
| "py_eq v w =
     (case py_number v of Some q \<Rightarrow> py_number w = Some q | None \<Rightarrow> v = w)"
| "py_eq_list [] ys = (ys = [])"
| "py_eq_list (x # xs) ys = (case ys of [] \<Rightarrow> False | y # ys' \<Rightarrow> py_eq x y \<and> py_eq_list xs ys')"
| "py_eq_entries [] ys = True"
| "py_eq_entries ((k, v) # xs) ys =
     (case map_of ys k of None \<Rightarrow> False | Some w \<Rightarrow> py_eq v w \<and> py_eq_entries xs ys)"

lemma py_eq_list_refl: "(\<And>x. x \<in> set xs \<Longrightarrow> py_eq x x) \<Longrightarrow> py_eq_list xs xs"
  by (induction xs) auto

lemma py_eq_entries_refl:
  assumes "dict_ok kvs" and "\<And>k v. (k, v) \<in> set kvs \<Longrightarrow> py_eq v v"
  shows "set es \<subseteq> set kvs \<Longrightarrow> py_eq_entries es kvs"
  using assms by (induction es) (auto split: prod.splits)

lemma py_eq_refl: "native v \<Longrightarrow> py_eq v v"
proof (induction v rule: native.induct)
  case (1 f)
  then show ?case by (cases f) auto
next
  case (2 xs)
  then show ?case by (auto intro: py_eq_list_refl)
next
  case (3 kvs)
  then have "py_eq_entries kvs kvs" by (intro py_eq_entries_refl) auto
  then show ?case by simp
qed auto

end
