(* ===== verification/Yaml_Parser.thy ===== *)
theory Yaml_Parser
  imports Json_Compat
begin

text \<open>
  The hardened YAML front end, \<open>src/nexusflow/definition/parser.py\<close>. The composed node tree
  is ruamel's: a scalar, a mapping of key and value nodes or a sequence, each with its anchor
  and whether it is an alias. \<open>parser.compose\<close> and \<open>parser.load\<close> are the library's, so
  they are arguments of \<open>parse_yaml_to_ast\<close>: \<open>None\<close> is an exception, \<open>Some None\<close>
  an empty document.
\<close>

record node_marks =
  nm_anchor :: "string option"
  nm_is_alias :: bool

datatype yaml_node =
    ScalarNode node_marks string
  | MappingNode node_marks "(yaml_node \<times> yaml_node) list"
  | SequenceNode node_marks "yaml_node list"

fun node_marks_of :: "yaml_node \<Rightarrow> node_marks" where
  "node_marks_of (ScalarNode m s) = m"
| "node_marks_of (MappingNode m kvs) = m"
| "node_marks_of (SequenceNode m xs) = m"

record complexity_policy =
  cp_max_depth :: int
  cp_max_nodes :: int
  cp_allow_aliases :: bool

text \<open>The checks made on entering a node, with the running count.\<close>

definition enter_node :: "complexity_policy \<Rightarrow> yaml_node \<Rightarrow> int \<Rightarrow> int \<Rightarrow> py_exn + int" where
  "enter_node p node depth count =
     (let count' = count + 1 in
      if count' > cp_max_nodes p then Inl YamlComplexityError
      else if depth > cp_max_depth p then Inl YamlComplexityError
      else if \<not> cp_allow_aliases p \<and> nm_anchor (node_marks_of node) \<noteq> None
      then Inl YamlComplexityError
      else if \<not> cp_allow_aliases p \<and> nm_is_alias (node_marks_of node)
      then Inl YamlComplexityError
      else Inr count')"

function (sequential) traverse :: "complexity_policy \<Rightarrow> yaml_node \<Rightarrow> int \<Rightarrow> int \<Rightarrow> py_exn + int"
  and traverse_pairs ::
    "complexity_policy \<Rightarrow> (yaml_node \<times> yaml_node) list \<Rightarrow> int \<Rightarrow> int \<Rightarrow> py_exn + int"
  and traverse_items :: "complexity_policy \<Rightarrow> yaml_node list \<Rightarrow> int \<Rightarrow> int \<Rightarrow> py_exn + int" where
  "traverse p (ScalarNode m s) depth count = enter_node p (ScalarNode m s) depth count"
| "traverse p (MappingNode m kvs) depth count =
     bindE (enter_node p (MappingNode m kvs) depth count)
       (\<lambda>count'. traverse_pairs p kvs (depth + 1) count')"
| "traverse p (SequenceNode m xs) depth count =
     bindE (enter_node p (SequenceNode m xs) depth count)
       (\<lambda>count'. traverse_items p xs (depth + 1) count')"
| "traverse_pairs p [] depth count = Inr count"
| "traverse_pairs p ((k, v) # kvs) depth count =
     bindE (traverse p k depth count) (\<lambda>count'.
     bindE (traverse p v depth count') (\<lambda>count''. traverse_pairs p kvs depth count''))"
| "traverse_items p [] depth count = Inr count"
| "traverse_items p (x # xs) depth count =
     bindE (traverse p x depth count) (\<lambda>count'. traverse_items p xs depth count')"
  by pat_completeness auto
termination
  by (relation "measure (\<lambda>x. case x of Inl (p, n, d, c) \<Rightarrow> size n
         | Inr (Inl (p, kvs, d, c)) \<Rightarrow> size_list (size_prod size size) kvs
         | Inr (Inr (p, xs, d, c)) \<Rightarrow> size_list size xs)") auto

definition enforce_yaml_ast_complexity :: "complexity_policy \<Rightarrow> yaml_node \<Rightarrow> py_exn + unit" where
  "enforce_yaml_ast_complexity p node = bindE (traverse p node 1 0) (\<lambda>_. Inr ())"

text \<open>The length of the UTF-8 encoding; characters are the code points up to 255.\<close>

definition utf8_length :: "string \<Rightarrow> int" where
  "utf8_length s = (\<Sum>c\<leftarrow>s. if (of_char c :: nat) < 128 then 1 else 2)"

definition parse_yaml_to_ast ::
  "(string \<Rightarrow> yaml_node option option) \<Rightarrow> (string \<Rightarrow> pyval option) \<Rightarrow> string
    \<Rightarrow> int \<Rightarrow> int \<Rightarrow> int \<Rightarrow> py_exn + pyval" where
  "parse_yaml_to_ast compose load yaml_text max_bytes max_depth max_nodes =
     (if utf8_length yaml_text > max_bytes then Inl YamlComplexityError
      else case compose yaml_text of
        None \<Rightarrow> Inl YamlSyntaxError
      | Some None \<Rightarrow> Inl YamlSyntaxError
      | Some (Some node) \<Rightarrow>
          (case node of
             MappingNode m kvs \<Rightarrow>
               bindE (enforce_yaml_ast_complexity
                        \<lparr>cp_max_depth = max_depth, cp_max_nodes = max_nodes, cp_allow_aliases = False\<rparr>
                        node) (\<lambda>_.
               case load yaml_text of
                 None \<Rightarrow> Inl YamlSyntaxError
               | Some data \<Rightarrow>
                   (case data of PyDict es \<Rightarrow> Inr data | _ \<Rightarrow> Inl YamlSyntaxError))
           | _ \<Rightarrow> Inl YamlSyntaxError))"

section \<open>What the traversal decides\<close>

text \<open>Size, height and markings of a tree, defined without the running count.\<close>

fun yaml_size :: "yaml_node \<Rightarrow> int" where
  "yaml_size (ScalarNode m s) = 1"
| "yaml_size (MappingNode m kvs) = 1 + (\<Sum>(k, v)\<leftarrow>kvs. yaml_size k + yaml_size v)"
| "yaml_size (SequenceNode m xs) = 1 + (\<Sum>x\<leftarrow>xs. yaml_size x)"

text \<open>Every node of the tree, at most \<open>n\<close> levels deep.\<close>

fun yaml_within :: "int \<Rightarrow> yaml_node \<Rightarrow> bool" where
  "yaml_within n (ScalarNode m s) \<longleftrightarrow> 1 \<le> n"
| "yaml_within n (MappingNode m kvs) \<longleftrightarrow>
     1 \<le> n \<and> (\<forall>(k, v) \<in> set kvs. yaml_within (n - 1) k \<and> yaml_within (n - 1) v)"
| "yaml_within n (SequenceNode m xs) \<longleftrightarrow> 1 \<le> n \<and> (\<forall>x \<in> set xs. yaml_within (n - 1) x)"

definition unmarked :: "node_marks \<Rightarrow> bool" where
  "unmarked m \<longleftrightarrow> nm_anchor m = None \<and> \<not> nm_is_alias m"

fun yaml_plain :: "yaml_node \<Rightarrow> bool" where
  "yaml_plain (ScalarNode m s) \<longleftrightarrow> unmarked m"
| "yaml_plain (MappingNode m kvs) \<longleftrightarrow>
     unmarked m \<and> (\<forall>(k, v) \<in> set kvs. yaml_plain k \<and> yaml_plain v)"
| "yaml_plain (SequenceNode m xs) \<longleftrightarrow> unmarked m \<and> (\<forall>x \<in> set xs. yaml_plain x)"

lemma enter_node_eq:
  "enter_node p node depth count =
     (if count + 1 \<le> cp_max_nodes p \<and> depth \<le> cp_max_depth p \<and>
         (cp_allow_aliases p \<or> unmarked (node_marks_of node))
      then Inr (count + 1) else Inl YamlComplexityError)"
  by (auto simp: enter_node_def unmarked_def)

lemma yaml_size_pos: "1 \<le> yaml_size n"
proof (induction n)
  case (MappingNode m kvs)
  have "0 \<le> (\<Sum>(k, v)\<leftarrow>kvs. yaml_size k + yaml_size v)"
    using MappingNode by (intro sum_list_nonneg) (fastforce simp: snds.simps fsts.simps)
  then show ?case by simp
next
  case (SequenceNode m xs)
  have "0 \<le> (\<Sum>x\<leftarrow>xs. yaml_size x)" using SequenceNode by (intro sum_list_nonneg) fastforce
  then show ?case by simp
qed simp

lemma yaml_size_nonneg: "0 \<le> yaml_size n"
  using yaml_size_pos [of n] by simp

lemma pairs_size_nonneg: "0 \<le> (\<Sum>(k, v)\<leftarrow>kvs. yaml_size k + yaml_size v)"
  by (intro sum_list_nonneg) (auto simp: yaml_size_nonneg)

lemma items_size_nonneg: "0 \<le> (\<Sum>x\<leftarrow>xs. yaml_size x)"
  by (intro sum_list_nonneg) (auto simp: yaml_size_nonneg)

text \<open>The traversal passes exactly the trees within the limits, and counts their nodes.\<close>

lemma traverse_eq:
  "traverse p n depth count =
     (if yaml_within (cp_max_depth p - depth + 1) n \<and> count + yaml_size n \<le> cp_max_nodes p \<and>
         (cp_allow_aliases p \<or> yaml_plain n)
      then Inr (count + yaml_size n) else Inl YamlComplexityError)"
  and traverse_pairs_eq:
  "count \<le> cp_max_nodes p \<Longrightarrow> traverse_pairs p kvs depth count =
     (if (\<forall>(k, v) \<in> set kvs. yaml_within (cp_max_depth p - depth + 1) k \<and>
             yaml_within (cp_max_depth p - depth + 1) v \<and>
             (cp_allow_aliases p \<or> yaml_plain k \<and> yaml_plain v)) \<and>
         count + (\<Sum>(k, v)\<leftarrow>kvs. yaml_size k + yaml_size v) \<le> cp_max_nodes p
      then Inr (count + (\<Sum>(k, v)\<leftarrow>kvs. yaml_size k + yaml_size v)) else Inl YamlComplexityError)"
  and traverse_items_eq:
  "count \<le> cp_max_nodes p \<Longrightarrow> traverse_items p xs depth count =
     (if (\<forall>x \<in> set xs. yaml_within (cp_max_depth p - depth + 1) x \<and>
             (cp_allow_aliases p \<or> yaml_plain x)) \<and>
         count + (\<Sum>x\<leftarrow>xs. yaml_size x) \<le> cp_max_nodes p
      then Inr (count + (\<Sum>x\<leftarrow>xs. yaml_size x)) else Inl YamlComplexityError)"
proof (induction p n depth count and p kvs depth count and p xs depth count
    rule: traverse_traverse_pairs_traverse_items.induct)
  case (2 p m kvs depth count)
  have *: "cp_max_depth p - (depth + 1) + 1 = cp_max_depth p - depth + 1 - 1" by simp
  show ?case
  proof (cases "enter_node p (MappingNode m kvs) depth count")
    case (Inl e)
    then show ?thesis using pairs_size_nonneg [of kvs] by (auto simp: enter_node_eq split: if_splits)
  next
    case (Inr t)
    then have t: "t = count + 1" "count + 1 \<le> cp_max_nodes p" "depth \<le> cp_max_depth p"
      "cp_allow_aliases p \<or> unmarked m" by (auto simp: enter_node_eq split: if_splits)
    from "2.IH" [OF Inr] t show ?thesis
      by (simp add: Inr *) (auto simp: algebra_simps)
  qed
next
  case (3 p m xs depth count)
  have *: "cp_max_depth p - (depth + 1) + 1 = cp_max_depth p - depth + 1 - 1" by simp
  show ?case
  proof (cases "enter_node p (SequenceNode m xs) depth count")
    case (Inl e)
    then show ?thesis using items_size_nonneg [of xs] by (auto simp: enter_node_eq split: if_splits)
  next
    case (Inr t)
    then have t: "t = count + 1" "count + 1 \<le> cp_max_nodes p" "depth \<le> cp_max_depth p"
      "cp_allow_aliases p \<or> unmarked m" by (auto simp: enter_node_eq split: if_splits)
    from "3.IH" [OF Inr] t show ?thesis
      by (simp add: Inr *) (auto simp: algebra_simps)
  qed
next
  case (5 p k v kvs depth count)
  show ?case
  proof (cases "traverse p k depth count")
    case (Inl e)
    with "5.IH"(1) show ?thesis using pairs_size_nonneg [of kvs] yaml_size_nonneg [of v]
      by (auto split: if_splits)
  next
    case k: (Inr t)
    show ?thesis
    proof (cases "traverse p v depth t")
      case (Inl e)
      with "5.IH"(1) "5.IH"(2) [OF k] k show ?thesis using pairs_size_nonneg [of kvs]
        by (auto split: if_splits)
    next
      case v: (Inr t')
      from "5.IH"(1) "5.IH"(2) [OF k] k v
      have t: "t' = count + yaml_size k + yaml_size v" "t' \<le> cp_max_nodes p"
        "yaml_within (cp_max_depth p - depth + 1) k" "yaml_within (cp_max_depth p - depth + 1) v"
        "cp_allow_aliases p \<or> yaml_plain k \<and> yaml_plain v" by (auto split: if_splits)
      from "5.IH"(3) [OF k v t(2)] t k v show ?thesis by (simp add: add.assoc)
    qed
  qed
next
  case (7 p x xs depth count)
  show ?case
  proof (cases "traverse p x depth count")
    case (Inl e)
    with "7.IH"(1) show ?thesis using items_size_nonneg [of xs] by (auto split: if_splits)
  next
    case x: (Inr t)
    from "7.IH"(1) x have t: "t = count + yaml_size x" "t \<le> cp_max_nodes p"
        "yaml_within (cp_max_depth p - depth + 1) x" "cp_allow_aliases p \<or> yaml_plain x"
      by (auto split: if_splits)
    from "7.IH"(2) [OF x t(2)] t x show ?thesis by (auto simp: add.assoc)
  qed
qed (auto simp: enter_node_eq)

lemma enforce_complexity_eq:
  "enforce_yaml_ast_complexity p n =
     (if yaml_within (cp_max_depth p) n \<and> yaml_size n \<le> cp_max_nodes p \<and>
         (cp_allow_aliases p \<or> yaml_plain n)
      then Inr () else Inl YamlComplexityError)"
  by (simp add: enforce_yaml_ast_complexity_def traverse_eq)

lemma parse_yaml_Inr_iff:
  "parse_yaml_to_ast compose load s max_bytes max_depth max_nodes = Inr data \<longleftrightarrow>
     utf8_length s \<le> max_bytes \<and>
     (\<exists>m kvs. compose s = Some (Some (MappingNode m kvs)) \<and>
        yaml_within max_depth (MappingNode m kvs) \<and> yaml_size (MappingNode m kvs) \<le> max_nodes \<and>
        yaml_plain (MappingNode m kvs)) \<and>
     load s = Some data \<and> (\<exists>es. data = PyDict es)"
  by (auto simp: parse_yaml_to_ast_def enforce_complexity_eq
      simp del: yaml_within.simps yaml_size.simps yaml_plain.simps
      split: option.splits yaml_node.splits pyval.splits if_splits)

end
