(* ===== verification/Identifiers.thy ===== *)
theory Identifiers
  imports Nexus_Prelude
begin

text \<open>
  The identifiers of \<open>src/nexusflow/domain/identifiers.py\<close>. The UUID newtypes (definitions,
  workflow executions, task executions, attempts, worker sessions, history entries) carry no
  behaviour beyond equality, so they are numbers; \<open>uuid4()\<close> is an argument of the operations
  that draw one. The string identifiers are datatypes whose constructor functions make the
  checks of \<open>__post_init__\<close>.
\<close>

type_synonym uuid = nat
type_synonym definition_id = uuid
type_synonym workflow_execution_id = uuid
type_synonym task_execution_id = uuid
type_synonym attempt_id = uuid
type_synonym worker_session_id = uuid
type_synonym history_entry_id = uuid

datatype task_definition_id = TaskDefinitionId (tdid_value: string)
datatype activity_type = ActivityType (act_name: string)
datatype idempotency_key = IdempotencyKey (idem_value: string)
datatype request_fingerprint = RequestFingerprint (fp_digest: string)

definition prohibited_control :: "char \<Rightarrow> bool" where
  "prohibited_control c = (c \<in> set [CHR 0x00, CHR 0x0D, CHR 0x0A, CHR 0x09])"

definition mk_TaskDefinitionId :: "string \<Rightarrow> py_exn + task_definition_id" where
  "mk_TaskDefinitionId value =
     (if value = [] \<or> length value > 256 then Inl ValueError
      else if list_ex prohibited_control value then Inl ValueError
      else Inr (TaskDefinitionId value))"

definition mk_ActivityType :: "string \<Rightarrow> py_exn + activity_type" where
  "mk_ActivityType name =
     (if name = [] \<or> length name > 256 then Inl ValueError
      else if list_ex prohibited_control name then Inl ValueError
      else Inr (ActivityType name))"

definition mk_IdempotencyKey :: "string \<Rightarrow> py_exn + idempotency_key" where
  "mk_IdempotencyKey value =
     (if value = [] \<or> length value > 256 then Inl ValueError else Inr (IdempotencyKey value))"

definition mk_RequestFingerprint :: "string \<Rightarrow> py_exn + request_fingerprint" where
  "mk_RequestFingerprint digest =
     (if length digest \<noteq> 64 then Inl ValueError else Inr (RequestFingerprint digest))"

text \<open>The identifiers the constructor functions let through.\<close>

definition name_ok :: "string \<Rightarrow> bool" where
  "name_ok s \<longleftrightarrow> s \<noteq> [] \<and> length s \<le> 256 \<and> \<not> list_ex prohibited_control s"

abbreviation tdid_ok :: "task_definition_id \<Rightarrow> bool" where
  "tdid_ok t \<equiv> name_ok (tdid_value t)"

abbreviation act_ok :: "activity_type \<Rightarrow> bool" where
  "act_ok a \<equiv> name_ok (act_name a)"

lemma mk_TaskDefinitionId_eq_Inr:
  "mk_TaskDefinitionId s = Inr t \<longleftrightarrow> t = TaskDefinitionId s \<and> name_ok s"
  by (auto simp: mk_TaskDefinitionId_def name_ok_def)

lemma mk_ActivityType_eq_Inr: "mk_ActivityType s = Inr a \<longleftrightarrow> a = ActivityType s \<and> name_ok s"
  by (auto simp: mk_ActivityType_def name_ok_def)

lemma mk_TaskDefinitionId_ok [simp]: "tdid_ok t \<Longrightarrow> mk_TaskDefinitionId (tdid_value t) = Inr t"
  by (cases t) (simp add: mk_TaskDefinitionId_eq_Inr)

lemma mk_ActivityType_ok [simp]: "act_ok a \<Longrightarrow> mk_ActivityType (act_name a) = Inr a"
  by (cases a) (simp add: mk_ActivityType_eq_Inr)

text \<open>Task identifiers are sorted by their value (\<open>key=lambda t: t.value\<close>).\<close>

instantiation task_definition_id :: linorder
begin

definition less_eq_task_definition_id :: "task_definition_id \<Rightarrow> task_definition_id \<Rightarrow> bool" where
  "less_eq_task_definition_id a b \<longleftrightarrow> tdid_value a \<le> tdid_value b"

definition less_task_definition_id :: "task_definition_id \<Rightarrow> task_definition_id \<Rightarrow> bool" where
  "less_task_definition_id a b \<longleftrightarrow> tdid_value a < tdid_value b"

instance
  by standard
    (auto simp: less_eq_task_definition_id_def less_task_definition_id_def
       intro: task_definition_id.expand)

end

lemma map_tdid_value_insort:
  "map tdid_value (insort t ts) = insort (tdid_value t) (map tdid_value ts)"
  by (induction ts) (auto simp: less_eq_task_definition_id_def)

lemma map_tdid_value_sort: "map tdid_value (sort ts) = sort (map tdid_value ts)"
  by (induction ts) (simp_all add: map_tdid_value_insort)

end
