(* ===== verification/Workflow_Spec.thy ===== *)
theory Workflow_Spec
  imports Identifiers Json_Compat
begin

text \<open>
  The specification structures of \<open>src/nexusflow/domain/spec.py\<close>: input and output bindings,
  task definitions, the candidate and the validated specification. Mappings are dictionaries,
  frozen sets are lists without duplicates in some iteration order.
\<close>

datatype input_binding =
    LiteralBinding pyval
  | WorkflowInputBinding
  | TaskOutputBinding task_definition_id

datatype workflow_task_output_binding =
  WorkflowTaskOutputBinding (source_task_id: task_definition_id)

datatype workflow_output_binding =
    OutTask workflow_task_output_binding
  | WorkflowInputPassthroughBinding
  | WorkflowLiteralOutputBinding pyval

record task_definition =
  td_id :: task_definition_id
  td_activity_type :: activity_type
  td_dependencies :: "task_definition_id list"
  td_input_bindings :: "(string, input_binding) dict"
  td_max_attempts :: int

text \<open>The constructor with the check of \<open>__post_init__\<close>.\<close>

definition mk_TaskDefinition ::
  "task_definition_id \<Rightarrow> activity_type \<Rightarrow> task_definition_id list
    \<Rightarrow> (string, input_binding) dict \<Rightarrow> int \<Rightarrow> py_exn + task_definition" where
  "mk_TaskDefinition i act deps ins n =
     (if n < 1 then Inl ValueError
      else Inr \<lparr>td_id = i, td_activity_type = act, td_dependencies = deps,
                td_input_bindings = ins, td_max_attempts = n\<rparr>)"

record candidate_workflow_spec =
  cs_workflow_name :: string
  cs_tasks :: "task_definition list"
  cs_raw_dependencies :: "(task_definition_id, string list) dict"
  cs_output_bindings :: "(string, workflow_task_output_binding) dict"

record validated_workflow_spec =
  vs_workflow_name :: string
  vs_tasks :: "(task_definition_id, task_definition) dict"
  vs_output_bindings :: "(string, workflow_task_output_binding) dict"

lemma mk_TaskDefinition_eq_Inr:
  "mk_TaskDefinition i act deps ins n = Inr td \<longleftrightarrow>
     1 \<le> n \<and> td = \<lparr>td_id = i, td_activity_type = act, td_dependencies = deps,
                td_input_bindings = ins, td_max_attempts = n\<rparr>"
  by (auto simp: mk_TaskDefinition_def)

end
