(* ===== verification/Normalizer.thy ===== *)
theory Normalizer
  imports Workflow_Spec
begin

text \<open>
  The boundary DTOs of \<open>src/nexusflow/definition/dto.py\<close> and their normalisation into a
  candidate specification, \<open>definition/normalizer.py\<close>. The DTOs are what pydantic has
  validated; the structural validation itself is the library's.
\<close>

datatype input_binding_dto =
    LiteralBindingDTO pyval
  | WorkflowInputBindingDTO
  | TaskOutputBindingDTO string

datatype workflow_task_output_binding_dto = WorkflowTaskOutputBindingDTO (wto_task: string)

record task_definition_dto =
  tdto_activity_type :: string
  tdto_dependencies :: "string list"
  tdto_input_bindings :: "(string, input_binding_dto) dict"
  tdto_max_attempts :: int

record workflow_definition_dto =
  wdto_workflow_name :: string
  wdto_tasks :: "(string, task_definition_dto) dict"
  wdto_output_bindings :: "(string, workflow_task_output_binding_dto) dict"

fun normalize_binding :: "input_binding_dto \<Rightarrow> py_exn + input_binding" where
  "normalize_binding (LiteralBindingDTO v) = bindE (freeze_json v) (\<lambda>w. Inr (LiteralBinding w))"
| "normalize_binding WorkflowInputBindingDTO = Inr WorkflowInputBinding"
| "normalize_binding (TaskOutputBindingDTO t) =
     bindE (mk_TaskDefinitionId t) (\<lambda>i. Inr (TaskOutputBinding i))"

text \<open>One round of the loop over the tasks: its raw dependencies and its definition.\<close>

definition normalize_task ::
  "string \<times> task_definition_dto \<Rightarrow> py_exn + (string list \<times> task_definition)" where
  "normalize_task entry =
     (case entry of (task_name, dto) \<Rightarrow>
      bindE (mk_TaskDefinitionId task_name) (\<lambda>task_id.
      bindE (mapE (\<lambda>(b_name, b). bindE (normalize_binding b) (\<lambda>b'. Inr (b_name, b')))
               (tdto_input_bindings dto)) (\<lambda>input_bindings.
      bindE (mk_ActivityType (tdto_activity_type dto)) (\<lambda>act.
      bindE (mapE mk_TaskDefinitionId (tdto_dependencies dto)) (\<lambda>deps.
      bindE (mk_TaskDefinition task_id act (py_set deps) input_bindings (tdto_max_attempts dto))
        (\<lambda>td. Inr (tdto_dependencies dto, td)))))))"

definition normalize_workflow_dto :: "workflow_definition_dto \<Rightarrow> py_exn + candidate_workflow_spec" where
  "normalize_workflow_dto dto =
     bindE (mapE normalize_task (wdto_tasks dto)) (\<lambda>entries.
     bindE (mapE (\<lambda>(out_name, out_dto).
              bindE (mk_TaskDefinitionId (wto_task out_dto)) (\<lambda>i.
              Inr (out_name, WorkflowTaskOutputBinding i))) (wdto_output_bindings dto))
       (\<lambda>output_bindings.
     Inr \<lparr>cs_workflow_name = wdto_workflow_name dto,
          cs_tasks = map snd entries,
          cs_raw_dependencies = map (\<lambda>(raw, td). (td_id td, raw)) entries,
          cs_output_bindings = output_bindings\<rparr>))"

section \<open>What a candidate satisfies\<close>

text \<open>
  A candidate has one definition per task name, admissible identifiers everywhere, frozen
  literals, and its dependency sets are those of the raw declarations.
\<close>

definition binding_wf :: "input_binding \<Rightarrow> bool" where
  "binding_wf b = (case b of LiteralBinding v \<Rightarrow> frozen v | WorkflowInputBinding \<Rightarrow> True
                   | TaskOutputBinding u \<Rightarrow> tdid_ok u)"

definition taskdef_wf :: "task_definition \<Rightarrow> bool" where
  "taskdef_wf td \<longleftrightarrow> tdid_ok (td_id td) \<and> act_ok (td_activity_type td) \<and>
     distinct (td_dependencies td) \<and> (\<forall>d \<in> set (td_dependencies td). tdid_ok d) \<and>
     dict_ok (td_input_bindings td) \<and> (\<forall>(n, b) \<in> set (td_input_bindings td). binding_wf b) \<and>
     1 \<le> td_max_attempts td"

definition candidate_wf :: "candidate_workflow_spec \<Rightarrow> bool" where
  "candidate_wf c \<longleftrightarrow>
     distinct (map td_id (cs_tasks c)) \<and> (\<forall>td \<in> set (cs_tasks c). taskdef_wf td) \<and>
     (\<forall>td \<in> set (cs_tasks c). \<exists>raw. map_of (cs_raw_dependencies c) (td_id td) = Some raw \<and>
        (\<forall>s \<in> set raw. name_ok s) \<and> set (td_dependencies td) = TaskDefinitionId ` set raw) \<and>
     dict_ok (cs_output_bindings c) \<and>
     (\<forall>(n, b) \<in> set (cs_output_bindings c). tdid_ok (source_task_id b))"

definition dto_wf :: "workflow_definition_dto \<Rightarrow> bool" where
  "dto_wf dto \<longleftrightarrow> dict_ok (wdto_tasks dto) \<and> dict_ok (wdto_output_bindings dto) \<and>
     (\<forall>(n, t) \<in> set (wdto_tasks dto). dict_ok (tdto_input_bindings t))"

lemma normalize_binding_wf: "normalize_binding b = Inr b' \<Longrightarrow> binding_wf b'"
  by (cases b) (auto simp: bindE_eq_Inr binding_wf_def freeze_json_frozen mk_TaskDefinitionId_eq_Inr)

lemma mapE_entries_keys:
  "mapE (\<lambda>(k, v). bindE (f v) (\<lambda>w. Inr (k, w))) kvs = Inr es \<Longrightarrow> map fst es = map fst kvs"
  by (induction kvs arbitrary: es) (auto simp: bindE_eq_Inr)

lemma mapE_entries_values:
  "mapE (\<lambda>(k, v). bindE (f v) (\<lambda>w. Inr (k, w))) kvs = Inr es \<Longrightarrow> (k, w) \<in> set es \<Longrightarrow>
     \<exists>v. (k, v) \<in> set kvs \<and> f v = Inr w"
proof (induction kvs arbitrary: es)
  case (Cons p kvs)
  obtain k' v' where p: "p = (k', v')" by (cases p)
  from Cons.prems(1) obtain w' es' where es: "f v' = Inr w'" "es = (k', w') # es'"
    "mapE (\<lambda>(k, v). bindE (f v) (\<lambda>w. Inr (k, w))) kvs = Inr es'" by (auto simp: p bindE_eq_Inr)
  show ?case
  proof (cases "(k, w) \<in> set es'")
    case True
    from Cons.IH [OF es(3) this] show ?thesis by (auto simp: p)
  next
    case False
    with Cons.prems(2) es show ?thesis by (auto simp: p)
  qed
qed simp

lemma mapE_tdids: "mapE mk_TaskDefinitionId ss = Inr ts \<longleftrightarrow> ts = map TaskDefinitionId ss \<and> (\<forall>s \<in> set ss. name_ok s)"
  by (induction ss arbitrary: ts) (auto simp: bindE_eq_Inr mk_TaskDefinitionId_eq_Inr)

lemma normalize_task_Inr:
  assumes "normalize_task (n, dto) = Inr (raw, td)" and "dict_ok (tdto_input_bindings dto)"
  shows "taskdef_wf td" and "td_id td = TaskDefinitionId n" and "raw = tdto_dependencies dto"
    and "\<forall>s \<in> set raw. name_ok s" and "set (td_dependencies td) = TaskDefinitionId ` set raw"
    and "td_max_attempts td = tdto_max_attempts dto"
proof -
  from assms(1) obtain bs deps where ok: "name_ok n" "name_ok (tdto_activity_type dto)"
    and bs: "mapE (\<lambda>(b_name, b). bindE (normalize_binding b) (\<lambda>b'. Inr (b_name, b')))
               (tdto_input_bindings dto) = Inr bs"
    and deps: "mapE mk_TaskDefinitionId (tdto_dependencies dto) = Inr deps"
    and td: "mk_TaskDefinition (TaskDefinitionId n) (ActivityType (tdto_activity_type dto))
               (py_set deps) bs (tdto_max_attempts dto) = Inr td"
    and raw: "raw = tdto_dependencies dto"
    by (auto simp: normalize_task_def bindE_eq_Inr mk_TaskDefinitionId_eq_Inr mk_ActivityType_eq_Inr)
  have "binding_wf b" if "(k, b) \<in> set bs" for k b
    using mapE_entries_values [OF bs that] normalize_binding_wf by blast
  moreover have "dict_ok bs" using mapE_entries_keys [OF bs] assms(2) by simp
  ultimately show "taskdef_wf td" "td_id td = TaskDefinitionId n" "raw = tdto_dependencies dto"
    "\<forall>s \<in> set raw. name_ok s" "set (td_dependencies td) = TaskDefinitionId ` set raw"
    "td_max_attempts td = tdto_max_attempts dto"
    using td deps ok raw by (auto simp: mk_TaskDefinition_eq_Inr taskdef_wf_def mapE_tdids)
qed

lemma normalize_candidate_wf:
  assumes "normalize_workflow_dto dto = Inr c" and "dto_wf dto"
  shows "candidate_wf c" and "map td_id (cs_tasks c) = map (\<lambda>(n, t). TaskDefinitionId n) (wdto_tasks dto)"
proof -
  from assms(1) obtain entries outs where
    entries: "mapE normalize_task (wdto_tasks dto) = Inr entries"
    and outs: "mapE (\<lambda>(out_name, out_dto). bindE (bindE (mk_TaskDefinitionId (wto_task out_dto))
          (\<lambda>i. Inr (WorkflowTaskOutputBinding i))) (\<lambda>w. Inr (out_name, w))) (wdto_output_bindings dto) = Inr outs"
    and c: "c = \<lparr>cs_workflow_name = wdto_workflow_name dto, cs_tasks = map snd entries,
              cs_raw_dependencies = map (\<lambda>(raw, td). (td_id td, raw)) entries, cs_output_bindings = outs\<rparr>"
  proof -
    have eq: "(\<lambda>(out_name, out_dto). bindE (bindE (mk_TaskDefinitionId (wto_task out_dto))
          (\<lambda>i. Inr (WorkflowTaskOutputBinding i))) (\<lambda>w. Inr (out_name, w))) =
        (\<lambda>(out_name, out_dto). bindE (mk_TaskDefinitionId (wto_task out_dto))
          (\<lambda>i. Inr (out_name, WorkflowTaskOutputBinding i)))"
      by (auto simp: fun_eq_iff mk_TaskDefinitionId_def)
    from assms(1) show ?thesis
      unfolding normalize_workflow_dto_def by (auto elim!: bindE_InrE intro: that simp: eq)
  qed
  have l2: "list_all2 (\<lambda>e r. normalize_task e = Inr r) (wdto_tasks dto) entries"
    using entries by (simp add: mapE_Inr_iff)
  have oki: "dict_ok (tdto_input_bindings t)" if "(n, t) \<in> set (wdto_tasks dto)" for n t
    using that assms(2) by (auto simp: dto_wf_def)
  have each: "taskdef_wf td \<and> (\<forall>s \<in> set raw. name_ok s) \<and> set (td_dependencies td) = TaskDefinitionId ` set raw"
    if mem: "(raw, td) \<in> set entries" for raw td
  proof -
    from list_all2_rightD [OF l2 mem] obtain n t where
      "(n, t) \<in> set (wdto_tasks dto)" "normalize_task (n, t) = Inr (raw, td)" by auto
    from normalize_task_Inr [OF this(2) oki [OF this(1)]] show ?thesis by blast
  qed
  have ids: "map (\<lambda>e. td_id (snd e)) entries = map (\<lambda>(n, t). TaskDefinitionId n) (wdto_tasks dto)"
    using l2 oki
  proof (induction rule: list_all2_induct)
    case (Cons x xs y ys)
    then show ?case
      using normalize_task_Inr(2) [of "fst x" "snd x" "fst y" "snd y"] by (cases x) auto
  qed simp
  then show "map td_id (cs_tasks c) = map (\<lambda>(n, t). TaskDefinitionId n) (wdto_tasks dto)"
    by (simp add: c comp_def)
  have dist: "distinct (map (\<lambda>e. td_id (snd e)) entries)"
  proof -
    have "map (\<lambda>(n, t). TaskDefinitionId n) (wdto_tasks dto) = map TaskDefinitionId (map fst (wdto_tasks dto))"
      by (simp add: split_def)
    then have "distinct (map (\<lambda>(n, t). TaskDefinitionId n) (wdto_tasks dto))"
      using assms(2) by (simp only: distinct_map dto_wf_def) (simp add: inj_on_def)
    then show ?thesis by (simp only: ids)
  qed
  have raw: "map_of (map (\<lambda>(raw, td). (td_id td, raw)) entries) (td_id td) = Some raw"
    if "(raw, td) \<in> set entries" for raw td
  proof (rule map_of_is_SomeI)
    show "distinct (map fst (map (\<lambda>(raw, td). (td_id td, raw)) entries))"
      using dist by (simp add: comp_def split_def)
    show "(td_id td, raw) \<in> set (map (\<lambda>(raw, td). (td_id td, raw)) entries)"
      using that by force
  qed
  have outs_ok: "dict_ok outs" using mapE_entries_keys [OF outs] assms(2) by (simp add: dto_wf_def)
  have outs_wf: "tdid_ok (source_task_id b)" if "(n, b) \<in> set outs" for n b
    using mapE_entries_values [OF outs that] by (auto simp: bindE_eq_Inr mk_TaskDefinitionId_eq_Inr)
  have "\<exists>raw. map_of (cs_raw_dependencies c) (td_id td) = Some raw \<and> (\<forall>s \<in> set raw. name_ok s) \<and>
      set (td_dependencies td) = TaskDefinitionId ` set raw" if "td \<in> set (cs_tasks c)" for td
  proof -
    from that obtain r where r: "(r, td) \<in> set entries" by (auto simp: c)
    show ?thesis by (rule exI [of _ r]) (use raw [OF r] each [OF r] in \<open>simp add: c\<close>)
  qed
  moreover have "taskdef_wf td" if "td \<in> set (cs_tasks c)" for td
    using that each by (auto simp: c)
  ultimately show "candidate_wf c"
    using dist outs_ok outs_wf by (auto simp: candidate_wf_def c comp_def)
qed

end
