(* ===== verification/Canonical_Graph.thy ===== *)
theory Canonical_Graph
  imports Workflow_Spec
begin

text \<open>
  The canonical graph of \<open>src/nexusflow/domain/graph.py\<close>: the bidirectional adjacency built
  from the task definitions, Kahn's reduction that detects cycles, and the deterministic
  topological order. The reduction is proved once, in a locale over the interface it needs
  (nodes, dependencies, dependents), and used for both functions through interpretations.
\<close>

section \<open>The graph\<close>

record canonical_graph =
  g_nodes :: "task_definition_id list"
  g_dependencies :: "(task_definition_id, task_definition_id list) dict"
  g_dependents :: "(task_definition_id, task_definition_id list) dict"

definition get_upstream_dependencies ::
  "canonical_graph \<Rightarrow> task_definition_id \<Rightarrow> task_definition_id list" where
  "get_upstream_dependencies g t = (case map_of (g_dependencies g) t of None \<Rightarrow> [] | Some ds \<Rightarrow> ds)"

definition get_downstream_dependents ::
  "canonical_graph \<Rightarrow> task_definition_id \<Rightarrow> task_definition_id list" where
  "get_downstream_dependents g t = (case map_of (g_dependents g) t of None \<Rightarrow> [] | Some ds \<Rightarrow> ds)"

definition is_root :: "canonical_graph \<Rightarrow> task_definition_id \<Rightarrow> bool" where
  "is_root g t = (length (get_upstream_dependencies g t) = 0)"

definition is_leaf :: "canonical_graph \<Rightarrow> task_definition_id \<Rightarrow> bool" where
  "is_leaf g t = (length (get_downstream_dependents g t) = 0)"

section \<open>Kahn's reduction\<close>

text \<open>The inner loop: every dependent loses one, and joins the queue when it reaches zero.\<close>

fun relax :: "'a list \<Rightarrow> ('a, int) dict \<Rightarrow> 'a list \<Rightarrow> py_exn + ('a, int) dict \<times> 'a list" where
  "relax [] deg q = Inr (deg, q)"
| "relax (d # ds) deg q =
     (case map_of deg d of
        None \<Rightarrow> Inl KeyError
      | Some n \<Rightarrow> relax ds (dict_set d (n - 1) deg) (if n - 1 = 0 then q @ [d] else q))"

text \<open>
  The outer loop stops because a node joins the queue only by leaving the nodes of positive
  degree, so the queue and those nodes together shrink with every node taken.
\<close>

definition positives :: "('a, int) dict \<Rightarrow> nat" where
  "positives deg = length (filter (\<lambda>p. 0 < snd p) deg)"

lemma positives_dict_set:
  "map_of deg k = Some n \<Longrightarrow>
     positives (dict_set k v deg) + (if 0 < n then 1 else 0) = positives deg + (if 0 < v then 1 else 0)"
  by (induction deg) (auto simp: positives_def split: if_splits)

lemma relax_measure:
  "relax ds deg q = Inr (deg', q') \<Longrightarrow> length q' + positives deg' \<le> length q + positives deg"
proof (induction ds arbitrary: deg q)
  case (Cons d ds)
  then obtain n where n: "map_of deg d = Some n"
    by (auto split: option.splits)
  with Cons.prems have
    "relax ds (dict_set d (n - 1) deg) (if n - 1 = 0 then q @ [d] else q) = Inr (deg', q')" by simp
  from Cons.IH [OF this] positives_dict_set [OF n, of "n - 1"] show ?case
    by (auto split: if_splits)
qed simp

function kahn_loop ::
  "('a \<Rightarrow> 'a list option) \<Rightarrow> ('a, int) dict \<Rightarrow> 'a list \<Rightarrow> 'a list \<Rightarrow> py_exn + ('a, int) dict \<times> 'a list" where
  "kahn_loop succ deg [] visited = Inr (deg, visited)"
| "kahn_loop succ deg (current # q) visited =
     (case succ current of
        None \<Rightarrow> Inl KeyError
      | Some ds \<Rightarrow>
          (case relax ds deg q of
             Inl e \<Rightarrow> Inl e
           | Inr (deg', q') \<Rightarrow> kahn_loop succ deg' q' (visited @ [current])))"
  by pat_completeness auto
termination
  by (relation "measure (\<lambda>(succ, deg, q, visited). length q + positives deg)")
    (auto dest!: relax_measure)

section \<open>Building the graph\<close>

definition add_edge ::
  "task_definition_id list \<Rightarrow> task_definition_id \<times> task_definition_id
    \<Rightarrow> (task_definition_id, task_definition_id list) dict
       \<times> (task_definition_id, task_definition_id list) dict \<times> (task_definition_id, int) dict
    \<Rightarrow> py_exn + (task_definition_id, task_definition_id list) dict
       \<times> (task_definition_id, task_definition_id list) dict \<times> (task_definition_id, int) dict" where
  "add_edge nodes e s =
     (case (e, s) of ((task_id, dep_id), (dependencies, dependents, in_degree)) \<Rightarrow>
        if dep_id \<notin> set nodes then Inl ValueError
        else bindE (dict_upd task_id (py_add dep_id) dependencies) (\<lambda>dependencies'.
             bindE (dict_upd dep_id (py_add task_id) dependents) (\<lambda>dependents'.
             bindE (dict_upd task_id (\<lambda>n. n + 1) in_degree) (\<lambda>in_degree'.
             Inr (dependencies', dependents', in_degree')))))"

definition build_adjacency ::
  "(task_definition_id, task_definition) dict
    \<Rightarrow> py_exn + (task_definition_id, task_definition_id list) dict
       \<times> (task_definition_id, task_definition_id list) dict \<times> (task_definition_id, int) dict" where
  "build_adjacency tasks =
     (let nodes = dict_keys tasks in
      foldE (\<lambda>(task_id, task). foldE (add_edge nodes)
                (map (\<lambda>dep_id. (task_id, dep_id)) (td_dependencies task))) tasks
        (map (\<lambda>t. (t, [])) nodes, map (\<lambda>t. (t, [])) nodes, map (\<lambda>t. (t, 0)) nodes))"

text \<open>
  \<open>build_canonical_graph_and_verify_acyclic\<close>. The list \<open>visited\<close> is the nodes the reduction
  took, so \<open>visited_count\<close> is its length.
\<close>

definition build_canonical_graph_and_verify_acyclic ::
  "(task_definition_id, task_definition) dict \<Rightarrow> py_exn + canonical_graph \<times> string list" where
  "build_canonical_graph_and_verify_acyclic tasks =
     (let nodes = dict_keys tasks in
      bindE (build_adjacency tasks) (\<lambda>(dependencies, dependents, in_degree).
      bindE (kahn_loop (map_of dependents) in_degree
               (filter (\<lambda>t. map_of in_degree t = Some 0) nodes) []) (\<lambda>(in_degree', visited).
      let graph = \<lparr>g_nodes = nodes, g_dependencies = dependencies, g_dependents = dependents\<rparr> in
      if length visited \<noteq> length nodes
      then Inr (graph,
        [''Graph contains a cycle involving tasks: '' @
         py_join '', '' (sort (map tdid_value
           (filter (\<lambda>t. case map_of in_degree' t of Some n \<Rightarrow> 0 < n | None \<Rightarrow> False) nodes)))])
      else Inr (graph, []))))"

definition compute_deterministic_topological_order ::
  "canonical_graph \<Rightarrow> py_exn + task_definition_id list" where
  "compute_deterministic_topological_order g =
     (let in_degree = map (\<lambda>t. (t, int (length (get_upstream_dependencies g t)))) (g_nodes g) in
      bindE (kahn_loop (\<lambda>c. Some (sort (get_downstream_dependents g c))) in_degree
               (sort (filter (\<lambda>t. map_of in_degree t = Some 0) (g_nodes g))) [])
        (\<lambda>(in_degree', order). Inr order))"

section \<open>The reduction, once\<close>

text \<open>
  Vocabulary: the dependency relation, an order in which every node follows its
  dependencies, and the invariant of the reduction. In-degrees count the dependencies not
  yet visited; what is visited or queued is exactly the nodes whose dependencies are all
  visited.
\<close>

definition dep_rel :: "'a list \<Rightarrow> ('a \<Rightarrow> 'a set) \<Rightarrow> ('a \<times> 'a) set" where
  "dep_rel nodes deps = {(d, n). n \<in> set nodes \<and> d \<in> deps n}"

definition topo_sorted :: "('a \<Rightarrow> 'a set) \<Rightarrow> 'a list \<Rightarrow> bool" where
  "topo_sorted deps vis \<longleftrightarrow> (\<forall>us c ws. vis = us @ c # ws \<longrightarrow> deps c \<subseteq> set us)"

definition deg_ok :: "'a list \<Rightarrow> ('a \<Rightarrow> 'a set) \<Rightarrow> 'a list \<Rightarrow> ('a, int) dict \<Rightarrow> bool" where
  "deg_ok nodes deps vis deg \<longleftrightarrow>
     (\<forall>n. map_of deg n = (if n \<in> set nodes then Some (int (card (deps n - set vis))) else None))"

definition kahn_inv ::
  "'a list \<Rightarrow> ('a \<Rightarrow> 'a set) \<Rightarrow> 'a list \<Rightarrow> 'a list \<Rightarrow> ('a, int) dict \<Rightarrow> bool" where
  "kahn_inv nodes deps vis q deg \<longleftrightarrow>
     distinct (vis @ q) \<and> set (vis @ q) = {n \<in> set nodes. deps n \<subseteq> set vis} \<and>
     topo_sorted deps vis \<and> deg_ok nodes deps vis deg"

lemma topo_sorted_Nil [simp]: "topo_sorted deps []"
  by (simp add: topo_sorted_def)

lemma topo_sorted_snoc [simp]:
  "topo_sorted deps (vis @ [c]) \<longleftrightarrow> topo_sorted deps vis \<and> deps c \<subseteq> set vis"
proof
  assume *: "topo_sorted deps (vis @ [c])"
  have "deps c \<subseteq> set vis" using * unfolding topo_sorted_def by blast
  moreover have "topo_sorted deps vis"
    unfolding topo_sorted_def
  proof (intro allI impI)
    fix us d ws assume "vis = us @ d # ws"
    then have "vis @ [c] = us @ d # (ws @ [c])" by simp
    with * show "deps d \<subseteq> set us" unfolding topo_sorted_def by blast
  qed
  ultimately show "topo_sorted deps vis \<and> deps c \<subseteq> set vis" by simp
next
  assume *: "topo_sorted deps vis \<and> deps c \<subseteq> set vis"
  show "topo_sorted deps (vis @ [c])"
    unfolding topo_sorted_def
  proof (intro allI impI)
    fix us d ws assume eq: "vis @ [c] = us @ d # ws"
    show "deps d \<subseteq> set us"
    proof (cases ws rule: rev_cases)
      case Nil
      with eq * show ?thesis by simp
    next
      case (snoc ws' x)
      with eq have "vis = us @ d # ws'" by simp
      with * show ?thesis unfolding topo_sorted_def by blast
    qed
  qed
qed

lemma relax_result:
  assumes "distinct ds" and "\<And>d. d \<in> set ds \<Longrightarrow> \<exists>n. map_of deg d = Some n"
  shows "\<exists>deg'. relax ds deg q = Inr (deg', q @ filter (\<lambda>d. map_of deg d = Some 1) ds) \<and>
           (\<forall>n. map_of deg' n = (if n \<in> set ds then map_option (\<lambda>v. v - 1) (map_of deg n) else map_of deg n))"
  using assms
proof (induction ds arbitrary: deg q)
  case (Cons d ds)
  from Cons.prems(2) obtain n where n: "map_of deg d = Some n" by force
  let ?deg = "dict_set d (n - 1) deg"
  let ?q = "if n - 1 = 0 then q @ [d] else q"
  have d: "d \<notin> set ds" "distinct ds" using Cons.prems(1) by auto
  have some: "\<exists>v. map_of ?deg e = Some v" if "e \<in> set ds" for e
    using that Cons.prems(2) by auto
  obtain deg' where
      run: "relax ds ?deg ?q = Inr (deg', ?q @ filter (\<lambda>e. map_of ?deg e = Some 1) ds)"
    and m: "\<And>e. map_of deg' e =
              (if e \<in> set ds then map_option (\<lambda>v. v - 1) (map_of ?deg e) else map_of ?deg e)"
    using Cons.IH [OF d(2) some, of ?q] by blast
  have flt: "filter (\<lambda>e. map_of ?deg e = Some 1) ds = filter (\<lambda>e. map_of deg e = Some 1) ds"
    using d by (intro filter_cong) auto
  have "relax (d # ds) deg q = Inr (deg', q @ filter (\<lambda>e. map_of deg e = Some 1) (d # ds))"
    using run [unfolded flt] n by auto
  moreover have "map_of deg' e =
      (if e \<in> set (d # ds) then map_option (\<lambda>v. v - 1) (map_of deg e) else map_of deg e)" for e
    using m [of e] d n by auto
  ultimately show ?case by blast
qed simp

text \<open>In such an order no chain of dependencies returns to a listed node.\<close>

lemma topo_rank:
  assumes "topo_sorted deps vis" and "distinct vis"
  obtains rank :: "'a \<Rightarrow> nat" where
    "\<And>d n. n \<in> set vis \<Longrightarrow> d \<in> deps n \<Longrightarrow> d \<in> set vis \<and> rank d < rank n"
proof
  define rank where "rank x = (LEAST i. vis ! i = x)" for x
  fix d n assume n: "n \<in> set vis" and d: "d \<in> deps n"
  from n obtain us ws where vis: "vis = us @ n # ws" by (meson split_list)
  with assms(1) d have du: "d \<in> set us" unfolding topo_sorted_def by blast
  then obtain i where i: "i < length us" "vis ! i = d"
    by (auto simp: vis in_set_conv_nth nth_append)
  then have "rank d \<le> i" unfolding rank_def by (simp add: Least_le)
  moreover have "length us \<le> rank n"
  proof -
    have "vis ! rank n = n" unfolding rank_def
      by (rule LeastI [where k = "length us"]) (simp add: vis)
    moreover have "vis ! j \<noteq> n" if "j < length us" for j
      using that assms(2) by (auto simp: vis nth_append in_set_conv_nth)
    ultimately show ?thesis by (meson not_le)
  qed
  ultimately show "d \<in> set vis \<and> rank d < rank n" using i du vis by auto
qed

lemma topo_no_loop:
  assumes "topo_sorted deps vis" and "distinct vis" and "(x, x) \<in> (dep_rel nodes deps)\<^sup>+"
  shows "x \<notin> set vis"
proof
  assume x: "x \<in> set vis"
  obtain rank :: "'a \<Rightarrow> nat" where
    rank: "\<And>d n. n \<in> set vis \<Longrightarrow> d \<in> deps n \<Longrightarrow> d \<in> set vis \<and> rank d < rank n"
    using topo_rank [OF assms(1,2)] by blast
  have "a \<in> set vis \<and> rank a < rank b" if "(a, b) \<in> (dep_rel nodes deps)\<^sup>+" "b \<in> set vis" for a b
    using that
  proof (induction rule: trancl_induct)
    case (step b b')
    with rank [of b' b] show ?case by (auto simp: dep_rel_def)
  qed (use rank in \<open>auto simp: dep_rel_def\<close>)
  from this [OF assms(3) x] show False by simp
qed

locale reduction_graph =
  fixes wf :: "'g \<Rightarrow> bool"
    and nds :: "'g \<Rightarrow> 'a list"
    and dps :: "'g \<Rightarrow> 'a \<Rightarrow> 'a set"
    and scs :: "'g \<Rightarrow> 'a \<Rightarrow> 'a list option"
  assumes nds_distinct: "wf g \<Longrightarrow> distinct (nds g)"
    and dps_closed: "wf g \<Longrightarrow> n \<in> set (nds g) \<Longrightarrow> dps g n \<subseteq> set (nds g)"
    and scs_some: "wf g \<Longrightarrow> c \<in> set (nds g) \<Longrightarrow>
        \<exists>ds. scs g c = Some ds \<and> distinct ds \<and> set ds = {n \<in> set (nds g). c \<in> dps g n}"
begin

lemma finite_dps: "wf g \<Longrightarrow> n \<in> set (nds g) \<Longrightarrow> finite (dps g n)"
  by (rule finite_subset [OF dps_closed]) auto

lemma card_visit:
  assumes "wf g" and "n \<in> set (nds g)" and "c \<notin> set vis"
  shows "int (card (dps g n - set (vis @ [c]))) =
           int (card (dps g n - set vis)) - (if c \<in> dps g n then 1 else 0)"
proof -
  have fin: "finite (dps g n - set vis)" using finite_dps assms by simp
  have eq: "dps g n - set (vis @ [c]) = (dps g n - set vis) - {c}" by auto
  show ?thesis
  proof (cases "c \<in> dps g n")
    case True
    with assms(3) have mem: "c \<in> dps g n - set vis" by simp
    show ?thesis unfolding eq using card.remove [OF fin mem] True by simp
  next
    case False
    then have "(dps g n - set vis) - {c} = dps g n - set vis" by auto
    with False show ?thesis by (simp add: eq)
  qed
qed

lemma kahn_inv_step:
  assumes wf: "wf g" and inv: "kahn_inv (nds g) (dps g) vis (c # q) deg"
  shows "\<exists>ds deg' q'. scs g c = Some ds \<and> relax ds deg q = Inr (deg', q') \<and>
           kahn_inv (nds g) (dps g) (vis @ [c]) q' deg'"
proof -
  from inv have dist: "distinct (vis @ c # q)"
    and all: "set (vis @ c # q) = {n \<in> set (nds g). dps g n \<subseteq> set vis}"
    and topo: "topo_sorted (dps g) vis" and deg: "deg_ok (nds g) (dps g) vis deg"
    by (auto simp: kahn_inv_def)
  have c: "c \<in> set (nds g)" "dps g c \<subseteq> set vis" "c \<notin> set vis" using all dist by auto
  obtain ds where ds: "scs g c = Some ds" "distinct ds"
    and set_ds: "set ds = {n \<in> set (nds g). c \<in> dps g n}"
    using scs_some [OF wf c(1)] by blast
  have map: "map_of deg n = (if n \<in> set (nds g) then Some (int (card (dps g n - set vis))) else None)"
    for n using deg by (simp add: deg_ok_def)
  have "\<exists>n. map_of deg d = Some n" if "d \<in> set ds" for d
    using that set_ds map by auto
  from relax_result [OF ds(2) this, where q = q] obtain deg' where
    run: "relax ds deg q = Inr (deg', q @ filter (\<lambda>d. map_of deg d = Some 1) ds)"
    and m: "\<And>n. map_of deg' n =
        (if n \<in> set ds then map_option (\<lambda>v. v - 1) (map_of deg n) else map_of deg n)"
    by blast
  let ?new = "filter (\<lambda>d. map_of deg d = Some 1) ds"
  have deg': "deg_ok (nds g) (dps g) (vis @ [c]) deg'"
    unfolding deg_ok_def using m map card_visit [OF wf _ c(3)] set_ds by auto
  have new_iff: "n \<in> set ?new \<longleftrightarrow> n \<in> set (nds g) \<and> c \<in> dps g n \<and> dps g n \<subseteq> set (vis @ [c])" for n
  proof -
    have "card (dps g n - set vis) = 1 \<longleftrightarrow> dps g n \<subseteq> set (vis @ [c])"
      if "n \<in> set (nds g)" "c \<in> dps g n"
    proof -
      have "finite (dps g n - set (vis @ [c]))" using finite_dps [OF wf that(1)] by simp
      then have "card (dps g n - set (vis @ [c])) = 0 \<longleftrightarrow> dps g n \<subseteq> set (vis @ [c])" by auto
      with card_visit [OF wf that(1) c(3)] that(2) show ?thesis by auto
    qed
    then show ?thesis using set_ds map by auto
  qed
  have disj: "set ?new \<inter> set (vis @ c # q) = {}"
  proof -
    have "\<not> dps g n \<subseteq> set vis" if "n \<in> set ?new" for n using that new_iff c(3) by blast
    then show ?thesis using all by auto
  qed
  have "set ((vis @ [c]) @ q @ ?new) = {n \<in> set (nds g). dps g n \<subseteq> set (vis @ [c])}"
  proof -
    have "set ((vis @ [c]) @ q @ ?new) = {n \<in> set (nds g). dps g n \<subseteq> set vis} \<union> set ?new"
      using all by auto
    also have "\<dots> = {n \<in> set (nds g). dps g n \<subseteq> set (vis @ [c])}"
      using new_iff by auto
    finally show ?thesis .
  qed
  moreover have "distinct ((vis @ [c]) @ q @ ?new)"
    using dist disj ds(2) by auto
  moreover have "topo_sorted (dps g) (vis @ [c])" using topo c by simp
  ultimately have "kahn_inv (nds g) (dps g) (vis @ [c]) (q @ ?new) deg'"
    using deg' by (simp add: kahn_inv_def)
  with ds(1) run show ?thesis by blast
qed

lemma kahn_loop_result:
  assumes "wf g" and "kahn_inv (nds g) (dps g) vis q deg"
  shows "\<exists>deg' vis'. kahn_loop (scs g) deg q vis = Inr (deg', vis') \<and>
           kahn_inv (nds g) (dps g) vis' [] deg'"
  using assms
proof (induction "scs g" deg q vis rule: kahn_loop.induct)
  case (2 deg current q visited)
  from kahn_inv_step [OF "2.prems"] obtain ds deg' q' where
    "scs g current = Some ds" "relax ds deg q = Inr (deg', q')"
    "kahn_inv (nds g) (dps g) (visited @ [current]) q' deg'" by blast
  with "2.hyps" "2.prems" show ?case by simp
qed auto

lemma kahn_final_nodes:
  assumes "wf g" and "kahn_inv (nds g) (dps g) vis [] deg"
  shows "set vis \<subseteq> set (nds g)"
    and "n \<in> set (nds g) \<Longrightarrow> map_of deg n = Some (int (card (dps g n - set vis)))"
    and "n \<in> set (nds g) \<Longrightarrow> n \<in> set vis \<longleftrightarrow> map_of deg n = Some 0"
  using assms finite_dps [OF assms(1)] by (auto simp: kahn_inv_def deg_ok_def)

lemma topo_acyclic:
  assumes "topo_sorted (dps g) vis" and "distinct vis" and "set vis = set (nds g)"
  shows "acyclic (dep_rel (nds g) (dps g))"
proof (rule acyclicI, intro allI notI)
  fix x assume loop: "(x, x) \<in> (dep_rel (nds g) (dps g))\<^sup>+"
  then have "x \<in> set vis" using assms(3) by (auto simp: dep_rel_def dest: tranclD2)
  with topo_no_loop [OF assms(1,2) loop] show False by simp
qed

lemma kahn_complete_iff_acyclic:
  assumes wf: "wf g" and inv: "kahn_inv (nds g) (dps g) vis [] deg"
  shows "length vis = length (nds g) \<longleftrightarrow> acyclic (dep_rel (nds g) (dps g))"
proof
  have dist: "distinct vis" using inv by (simp add: kahn_inv_def)
  have sub: "set vis \<subseteq> set (nds g)" by (rule kahn_final_nodes(1) [OF wf inv])
  {
    assume "length vis = length (nds g)"
    then have "card (set vis) = card (set (nds g))"
      using dist nds_distinct [OF wf] by (simp add: distinct_card)
    with sub have "set vis = set (nds g)" by (simp add: card_subset_eq)
    with inv dist show "acyclic (dep_rel (nds g) (dps g))"
      using topo_acyclic [of g vis] by (simp add: kahn_inv_def)
  next
    assume ac: "acyclic (dep_rel (nds g) (dps g))"
    have "dep_rel (nds g) (dps g) \<subseteq> set (nds g) \<times> set (nds g)"
      using dps_closed [OF wf] by (auto simp: dep_rel_def)
    then have "finite (dep_rel (nds g) (dps g))" by (rule finite_subset) simp
    then have wfr: "Wellfounded.wf (dep_rel (nds g) (dps g))"
      using ac by (rule finite_acyclic_wf)
    have "n \<in> set vis" if "n \<in> set (nds g)" for n
      using wfr that
    proof (induction n rule: wf_induct_rule)
      case (less n)
      have "dps g n \<subseteq> set vis"
        using less.IH less.prems dps_closed [OF wf less.prems] by (auto simp: dep_rel_def)
      with less.prems inv show ?case by (auto simp: kahn_inv_def)
    qed
    with sub have "set vis = set (nds g)" by auto
    then show "length vis = length (nds g)"
      using dist nds_distinct [OF wf] by (metis distinct_card)
  }
qed

text \<open>What is left out of the reduction is what depends, directly or not, on a cycle.\<close>

lemma kahn_blocked_iff:
  assumes wf: "wf g" and inv: "kahn_inv (nds g) (dps g) vis [] deg" and n: "n \<in> set (nds g)"
  shows "n \<notin> set vis \<longleftrightarrow>
    (\<exists>c. (c, c) \<in> (dep_rel (nds g) (dps g))\<^sup>+ \<and> (c, n) \<in> (dep_rel (nds g) (dps g))\<^sup>*)"
    (is "_ \<longleftrightarrow> (\<exists>c. (c, c) \<in> ?R\<^sup>+ \<and> (c, n) \<in> ?R\<^sup>*)")
proof
  let ?B = "set (nds g) - set vis"
  have pred: "\<exists>d \<in> ?B. (d, m) \<in> ?R" if "m \<in> ?B" for m
  proof -
    from that inv have "\<not> dps g m \<subseteq> set vis" by (auto simp: kahn_inv_def)
    then obtain d where "d \<in> dps g m" "d \<notin> set vis" by auto
    with that dps_closed [OF wf, of m] show ?thesis by (auto simp: dep_rel_def)
  qed
  have down: "d \<in> set vis" if "(d, m) \<in> ?R" "m \<in> set vis" for d m
    using that inv unfolding kahn_inv_def dep_rel_def topo_sorted_def
    by (auto dest!: split_list [of m])
  have down_star: "d \<in> set vis" if "(d, m) \<in> ?R\<^sup>*" "m \<in> set vis" for d m
    using that by (induction rule: converse_rtrancl_induct) (auto intro: down)
  {
    assume "n \<notin> set vis"
    let ?Q = "?R \<inter> ?B \<times> ?B"
    show "\<exists>c. (c, c) \<in> ?R\<^sup>+ \<and> (c, n) \<in> ?R\<^sup>*"
    proof (rule ccontr)
      assume no: "\<not> ?thesis"
      let ?A = "{m \<in> ?B. (m, n) \<in> ?R\<^sup>*}"
      let ?S = "?R \<inter> ?A \<times> ?A"
      have "acyclic ?S"
      proof (rule acyclicI, intro allI notI)
        fix m assume "(m, m) \<in> ?S\<^sup>+"
        then have "m \<in> ?A" by (auto dest: tranclD)
        moreover have "(m, m) \<in> ?R\<^sup>+" using \<open>(m, m) \<in> ?S\<^sup>+\<close> by (rule trancl_mono) auto
        ultimately show False using no by auto
      qed
      moreover have "finite ?S" by (rule finite_subset [of _ "?A \<times> ?A"]) auto
      ultimately have wfS: "Wellfounded.wf ?S" by (simp add: finite_acyclic_wf)
      have "n \<in> ?A" using n \<open>n \<notin> set vis\<close> by simp
      with wfS obtain m where m: "m \<in> ?A" "\<And>d. (d, m) \<in> ?S \<Longrightarrow> d \<notin> ?A"
        by (rule wfE_min) blast
      from pred [of m] m(1) obtain d where d: "d \<in> ?B" "(d, m) \<in> ?R" by auto
      then have "d \<in> ?A" using m(1) by (auto intro: converse_rtrancl_into_rtrancl)
      with d m show False by auto
    qed
  next
    assume "\<exists>c. (c, c) \<in> ?R\<^sup>+ \<and> (c, n) \<in> ?R\<^sup>*"
    then obtain c where c: "(c, c) \<in> ?R\<^sup>+" "(c, n) \<in> ?R\<^sup>*" by blast
    show "n \<notin> set vis"
    proof
      assume "n \<in> set vis"
      then have "c \<in> set vis" using c(2) down_star by blast
      with topo_no_loop [OF _ _ c(1)] inv show False by (simp add: kahn_inv_def)
    qed
  }
qed

end

section \<open>The adjacency of a task dictionary\<close>

text \<open>
  A task dictionary: one entry per task and no dependency twice (dependencies are a frozen
  set). It is closed when every dependency is a task, the stated precondition of the graph
  construction.
\<close>

definition tasks_ok :: "(task_definition_id, task_definition) dict \<Rightarrow> bool" where
  "tasks_ok tasks \<longleftrightarrow> dict_ok tasks \<and> (\<forall>(t, td) \<in> set tasks. distinct (td_dependencies td))"

definition tasks_closed :: "(task_definition_id, task_definition) dict \<Rightarrow> bool" where
  "tasks_closed tasks \<longleftrightarrow>
     tasks_ok tasks \<and> (\<forall>(t, td) \<in> set tasks. set (td_dependencies td) \<subseteq> set (dict_keys tasks))"

definition task_deps ::
  "(task_definition_id, task_definition) dict \<Rightarrow> task_definition_id \<Rightarrow> task_definition_id set" where
  "task_deps tasks n = (case map_of tasks n of None \<Rightarrow> {} | Some td \<Rightarrow> set (td_dependencies td))"

definition task_dependents ::
  "(task_definition_id, task_definition) dict \<Rightarrow> task_definition_id \<Rightarrow> task_definition_id list option" where
  "task_dependents tasks c =
     (if c \<in> set (dict_keys tasks)
      then Some (map fst (filter (\<lambda>(t, td). c \<in> set (td_dependencies td)) tasks)) else None)"

definition edges ::
  "(task_definition_id, task_definition) dict \<Rightarrow> (task_definition_id \<times> task_definition_id) list" where
  "edges tasks = concat (map (\<lambda>(t, td). map (\<lambda>d. (t, d)) (td_dependencies td)) tasks)"

lemma set_edges: "set (edges tasks) = {(t, d). \<exists>td. (t, td) \<in> set tasks \<and> d \<in> set (td_dependencies td)}"
  by (force simp: edges_def)

lemma build_adjacency_edges:
  "build_adjacency tasks =
     foldE (add_edge (dict_keys tasks)) (edges tasks)
       (map (\<lambda>t. (t, [])) (dict_keys tasks), map (\<lambda>t. (t, [])) (dict_keys tasks),
        map (\<lambda>t. (t, 0)) (dict_keys tasks))"
  unfolding build_adjacency_def edges_def Let_def
  by (simp add: foldE_concat [symmetric] split_def)

lemma foldE_add_edge:
  assumes "set es \<subseteq> set nodes \<times> set nodes"
    and "\<And>n. n \<in> set nodes \<Longrightarrow> map_of deps n = Some (f n) \<and> map_of dpts n = Some (g n) \<and> map_of deg n = Some (h n)"
    and "dict_keys deps = nodes" "dict_keys dpts = nodes" "dict_keys deg = nodes"
  shows "\<exists>deps' dpts' deg'. foldE (add_edge nodes) es (deps, dpts, deg) = Inr (deps', dpts', deg') \<and>
     dict_keys deps' = nodes \<and> dict_keys dpts' = nodes \<and> dict_keys deg' = nodes \<and>
     (\<forall>n \<in> set nodes.
        map_of deps' n = Some (fold py_add (map snd (filter (\<lambda>e. fst e = n) es)) (f n)) \<and>
        map_of dpts' n = Some (fold py_add (map fst (filter (\<lambda>e. snd e = n) es)) (g n)) \<and>
        map_of deg' n = Some (h n + int (length (filter (\<lambda>e. fst e = n) es))))"
  using assms
proof (induction es arbitrary: deps dpts deg f g h)
  case (Cons e es)
  obtain t d where e: "e = (t, d)" by (cases e)
  from Cons.prems(1) e have t: "t \<in> set nodes" "d \<in> set nodes" by auto
  let ?deps = "dict_set t (py_add d (f t)) deps"
  let ?dpts = "dict_set d (py_add t (g d)) dpts"
  let ?deg = "dict_set t (h t + 1) deg"
  have step: "add_edge nodes e (deps, dpts, deg) = Inr (?deps, ?dpts, ?deg)"
    using t Cons.prems(2) by (simp add: add_edge_def e dict_upd_present)
  have keys: "dict_keys ?deps = nodes" "dict_keys ?dpts = nodes" "dict_keys ?deg = nodes"
    using t Cons.prems(3-5) by (auto simp: update_keys)
  have vals: "map_of ?deps n = Some ((f(t := py_add d (f t))) n) \<and>
              map_of ?dpts n = Some ((g(d := py_add t (g d))) n) \<and>
              map_of ?deg n = Some ((h(t := h t + 1)) n)" if "n \<in> set nodes" for n
    using that Cons.prems(2) by auto
  have sub: "set es \<subseteq> set nodes \<times> set nodes" using Cons.prems(1) by simp
  from Cons.IH [OF sub vals keys] obtain deps' dpts' deg' where
    run: "foldE (add_edge nodes) es (?deps, ?dpts, ?deg) = Inr (deps', dpts', deg')"
    and k: "dict_keys deps' = nodes \<and> dict_keys dpts' = nodes \<and> dict_keys deg' = nodes"
    and m: "\<And>n. n \<in> set nodes \<Longrightarrow>
        map_of deps' n = Some (fold py_add (map snd (filter (\<lambda>e. fst e = n) es)) ((f(t := py_add d (f t))) n)) \<and>
        map_of dpts' n = Some (fold py_add (map fst (filter (\<lambda>e. snd e = n) es)) ((g(d := py_add t (g d))) n)) \<and>
        map_of deg' n = Some ((h(t := h t + 1)) n + int (length (filter (\<lambda>e. fst e = n) es)))"
    by blast
  have "foldE (add_edge nodes) (e # es) (deps, dpts, deg) = Inr (deps', dpts', deg')"
    using step run by simp
  moreover have "map_of deps' n = Some (fold py_add (map snd (filter (\<lambda>e. fst e = n) (e # es))) (f n)) \<and>
        map_of dpts' n = Some (fold py_add (map fst (filter (\<lambda>e. snd e = n) (e # es))) (g n)) \<and>
        map_of deg' n = Some (h n + int (length (filter (\<lambda>e. fst e = n) (e # es))))"
    if "n \<in> set nodes" for n
    using m [OF that] by (auto simp: e)
  ultimately show ?case using k by blast
qed auto

lemma filter_edges_fst:
  "tasks_ok tasks \<Longrightarrow> (n, td) \<in> set tasks \<Longrightarrow>
     map snd (filter (\<lambda>e. fst e = n) (edges tasks)) = td_dependencies td"
proof (induction tasks)
  case (Cons p tasks)
  obtain t td' where p: "p = (t, td')" by (cases p)
  have ok: "tasks_ok tasks" using Cons.prems(1) by (auto simp: tasks_ok_def)
  have hd: "map snd (filter (\<lambda>e. fst e = n) (map (\<lambda>d. (t, d)) ds)) = (if t = n then ds else [])" for ds
    by (induction ds) auto
  show ?case
  proof (cases "t = n")
    case True
    then have "td' = td" and "n \<notin> fst ` set tasks"
      using Cons.prems p by (auto simp: tasks_ok_def image_iff)
    moreover have "filter (\<lambda>e. fst e = n) (edges tasks) = []"
      using \<open>n \<notin> fst ` set tasks\<close> by (force simp: filter_empty_conv set_edges)
    ultimately show ?thesis using hd [of "td_dependencies td'"] True p by (simp add: edges_def)
  next
    case False
    with Cons.prems p have "(n, td) \<in> set tasks" by simp
    from Cons.IH [OF ok this] hd [of "td_dependencies td'"] False p show ?thesis
      by (simp add: edges_def)
  qed
qed simp

lemma filter_edges_snd:
  "tasks_ok tasks \<Longrightarrow>
     map fst (filter (\<lambda>e. snd e = c) (edges tasks)) =
       map fst (filter (\<lambda>(t, td). c \<in> set (td_dependencies td)) tasks)"
proof (induction tasks)
  case (Cons p tasks)
  obtain t td where p: "p = (t, td)" by (cases p)
  have ok: "tasks_ok tasks" and dist: "distinct (td_dependencies td)"
    using Cons.prems p by (auto simp: tasks_ok_def)
  have hd: "distinct ds \<Longrightarrow> map fst (filter (\<lambda>e. snd e = c) (map (\<lambda>d. (t, d)) ds)) =
      (if c \<in> set ds then [t] else [])" for ds
  proof (induction ds)
    case (Cons d ds)
    then have "c \<notin> set ds \<Longrightarrow> filter (\<lambda>e. snd e = c) (map (\<lambda>d. (t, d)) ds) = []"
      by (auto simp: filter_empty_conv)
    with Cons show ?case by auto
  qed simp
  from hd [OF dist] Cons.IH [OF ok] p show ?case by (simp add: edges_def)
qed (simp add: edges_def)

lemma distinct_dependents:
  "dict_ok tasks \<Longrightarrow> distinct (map fst (filter P tasks))"
  by (induction tasks) auto

lemma build_adjacency_result:
  assumes "tasks_closed tasks"
  shows "\<exists>deps dpts deg. build_adjacency tasks = Inr (deps, dpts, deg) \<and>
     (\<forall>n. map_of deps n = map_option td_dependencies (map_of tasks n)) \<and>
     map_of dpts = task_dependents tasks \<and>
     (\<forall>n. map_of deg n = map_option (\<lambda>td. int (length (td_dependencies td))) (map_of tasks n))"
proof -
  define N where "N = dict_keys tasks"
  have ok: "tasks_ok tasks" using assms by (simp add: tasks_closed_def)
  have sub: "set (edges tasks) \<subseteq> set N \<times> set N"
    using assms by (force simp: tasks_closed_def set_edges N_def)
  have const: "map_of (map (\<lambda>t. (t, v)) xs) n = (if n \<in> set xs then Some v else None)" for xs n and v :: 'x
    by (induction xs) auto
  have keys: "dict_keys (map (\<lambda>t. (t, v)) xs) = xs" for xs and v :: 'x
    by (simp add: comp_def)
  have init: "map_of (map (\<lambda>t. (t, [])) N) n = Some [] \<and> map_of (map (\<lambda>t. (t, [])) N) n = Some [] \<and>
      map_of (map (\<lambda>t. (t, 0)) N) n = Some 0" if "n \<in> set N" for n
    using that by (simp add: const)
  from foldE_add_edge [OF sub init keys keys keys, folded build_adjacency_edges [of tasks, folded N_def]]
  obtain deps dpts deg where
    run: "build_adjacency tasks = Inr (deps, dpts, deg)"
    and k: "dict_keys deps = N" "dict_keys dpts = N" "dict_keys deg = N"
    and m: "\<And>n. n \<in> set N \<Longrightarrow>
        map_of deps n = Some (fold py_add (map snd (filter (\<lambda>e. fst e = n) (edges tasks))) []) \<and>
        map_of dpts n = Some (fold py_add (map fst (filter (\<lambda>e. snd e = n) (edges tasks))) []) \<and>
        map_of deg n = Some (0 + int (length (filter (\<lambda>e. fst e = n) (edges tasks))))"
    by blast
  have none: "map_of d n = None" if "dict_keys d = N" "n \<notin> set N" for d :: "(task_definition_id, 'x) dict" and n
    using that by (force simp: map_of_eq_None_iff)
  have tnone: "map_of tasks n = None" if "n \<notin> set N" for n
    using that by (auto simp: N_def map_of_eq_None_iff)
  have entry: "\<exists>td. map_of tasks n = Some td \<and> (n, td) \<in> set tasks" if "n \<in> set N" for n
    using that by (cases "map_of tasks n") (auto simp: N_def map_of_eq_None_iff dest: map_of_SomeD)
  have deps: "map_of deps n = map_option td_dependencies (map_of tasks n)" for n
  proof (cases "n \<in> set N")
    case True
    from entry [OF True] obtain td where td: "map_of tasks n = Some td" "(n, td) \<in> set tasks" by blast
    with ok have "distinct (td_dependencies td)" by (auto simp: tasks_ok_def)
    with m [OF True] td filter_edges_fst [OF ok td(2)] show ?thesis
      by (simp add: fold_py_add_id)
  next
    case False
    with none [OF k(1)] tnone show ?thesis by simp
  qed
  have deg: "map_of deg n = map_option (\<lambda>td. int (length (td_dependencies td))) (map_of tasks n)" for n
  proof (cases "n \<in> set N")
    case True
    from entry [OF True] obtain td where td: "map_of tasks n = Some td" "(n, td) \<in> set tasks" by blast
    from filter_edges_fst [OF ok td(2)] have
      "length (filter (\<lambda>e. fst e = n) (edges tasks)) = length (td_dependencies td)"
      by (metis length_map)
    with m [OF True] td show ?thesis by simp
  next
    case False
    with none [OF k(3)] tnone show ?thesis by simp
  qed
  have dpts: "map_of dpts n = task_dependents tasks n" for n
  proof (cases "n \<in> set N")
    case True
    have "dict_ok tasks" using ok by (simp add: tasks_ok_def)
    with m [OF True] True show ?thesis
      by (simp add: N_def task_dependents_def filter_edges_snd [OF ok] fold_py_add_id distinct_dependents)
  next
    case False
    with none [OF k(2)] show ?thesis by (simp add: N_def task_dependents_def)
  qed
  from run deps deg dpts show ?thesis by blast
qed

section \<open>Cycle detection on task dictionaries\<close>

lemma task_deps_entry: "tasks_ok tasks \<Longrightarrow> (n, td) \<in> set tasks \<Longrightarrow> task_deps tasks n = set (td_dependencies td)"
  by (auto simp: task_deps_def tasks_ok_def)

lemma mem_dict_keys: "n \<in> set (dict_keys d) \<longleftrightarrow> (\<exists>v. (n, v) \<in> set d)"
  by force

interpretation task_graph: reduction_graph tasks_closed "\<lambda>d. dict_keys d" task_deps task_dependents
proof unfold_locales
  fix tasks assume "tasks_closed tasks"
  then show "distinct (dict_keys tasks)" by (simp add: tasks_closed_def tasks_ok_def)
next
  fix tasks n assume c: "tasks_closed tasks" and "n \<in> set (dict_keys tasks)"
  then obtain td where "(n, td) \<in> set tasks" by (auto simp: mem_dict_keys)
  with c show "task_deps tasks n \<subseteq> set (dict_keys tasks)"
    by (auto simp: tasks_closed_def task_deps_entry)
next
  fix tasks c assume tc: "tasks_closed tasks" and c: "c \<in> set (dict_keys tasks)"
  then have ok: "tasks_ok tasks" by (simp add: tasks_closed_def)
  let ?ds = "map fst (filter (\<lambda>(t, td). c \<in> set (td_dependencies td)) tasks)"
  have "set ?ds = {n \<in> set (dict_keys tasks). c \<in> task_deps tasks n}"
    using task_deps_entry [OF ok] by force
  moreover have "distinct ?ds" using ok by (simp add: tasks_ok_def distinct_dependents)
  ultimately show "\<exists>ds. task_dependents tasks c = Some ds \<and> distinct ds \<and>
      set ds = {n \<in> set (dict_keys tasks). c \<in> task_deps tasks n}"
    using c by (simp add: task_dependents_def)
qed

abbreviation task_rel ::
  "(task_definition_id, task_definition) dict \<Rightarrow> (task_definition_id \<times> task_definition_id) set" where
  "task_rel tasks \<equiv> dep_rel (dict_keys tasks) (task_deps tasks)"

text \<open>The tasks a cycle keeps from running: those on a cycle or downstream of one.\<close>

definition blocked_tasks ::
  "(task_definition_id, task_definition) dict \<Rightarrow> task_definition_id set" where
  "blocked_tasks tasks = {n \<in> set (dict_keys tasks).
     \<exists>c. (c, c) \<in> (task_rel tasks)\<^sup>+ \<and> (c, n) \<in> (task_rel tasks)\<^sup>*}"

lemma kahn_inv_init:
  assumes "\<And>n. map_of deg n = (if n \<in> set nodes then Some (int (card (deps n))) else None)"
    and "distinct nodes" and "\<And>n. n \<in> set nodes \<Longrightarrow> finite (deps n)"
    and "set q = {n \<in> set nodes. map_of deg n = Some 0}" and "distinct q"
  shows "kahn_inv nodes deps [] q deg"
  using assms by (auto simp: kahn_inv_def deg_ok_def)

definition graph_ok :: "canonical_graph \<Rightarrow> bool" where
  "graph_ok g \<longleftrightarrow> distinct (g_nodes g) \<and>
     (\<forall>(t, ds) \<in> set (g_dependencies g). distinct ds) \<and>
     (\<forall>(t, ds) \<in> set (g_dependents g). distinct ds) \<and>
     (\<forall>t \<in> set (g_nodes g). set (get_upstream_dependencies g t) \<subseteq> set (g_nodes g)) \<and>
     (\<forall>t \<in> set (g_nodes g). set (get_downstream_dependents g t) =
        {n \<in> set (g_nodes g). t \<in> set (get_upstream_dependencies g n)})"

lemma graph_ok_distinct:
  assumes "graph_ok g"
  shows "distinct (get_upstream_dependencies g t)" and "distinct (get_downstream_dependents g t)"
  using assms by (auto simp: graph_ok_def get_upstream_dependencies_def get_downstream_dependents_def
      split: option.split dest!: map_of_SomeD)

lemma build_adjacency_distinct:
  assumes "build_adjacency tasks = Inr (deps, dpts, deg)"
  shows "(\<forall>(t, ds) \<in> set deps. distinct ds) \<and> (\<forall>(t, ds) \<in> set dpts. distinct ds)"
proof -
  let ?P = "\<lambda>(deps, dpts, deg). (\<forall>(t, ds) \<in> set deps. distinct ds) \<and>
      (\<forall>(t, ds) \<in> set dpts. distinct ds)"
  have upd: "\<forall>(t, ds) \<in> set d'. distinct ds"
    if "dict_upd k (py_add x) d = Inr d'" "\<forall>(t, ds) \<in> set d. distinct ds"
    for k x d d' using that set_dict_set_sub [of k _ d]
    by (fastforce simp: dict_upd_def split: option.splits dest: map_of_SomeD)
  have "?P (deps, dpts, deg)"
  proof (rule foldE_invariant [where P = ?P and f = "add_edge (dict_keys tasks)"])
    show "foldE (add_edge (dict_keys tasks)) (edges tasks)
       (map (\<lambda>t. (t, [])) (dict_keys tasks), map (\<lambda>t. (t, [])) (dict_keys tasks),
        map (\<lambda>t. (t, 0)) (dict_keys tasks)) = Inr (deps, dpts, deg)"
      using assms by (simp add: build_adjacency_edges)
  next
    fix e s s' assume "?P s" and "add_edge (dict_keys tasks) e s = Inr s'"
    then show "?P s'"
      by (auto simp: add_edge_def bindE_eq_Inr split: prod.splits if_splits dest: upd)
  qed auto
  then show ?thesis by simp
qed

lemma build_graph_result:
  assumes tc: "tasks_closed tasks"
  shows "\<exists>g errs. build_canonical_graph_and_verify_acyclic tasks = Inr (g, errs) \<and> graph_ok g \<and>
     g_nodes g = dict_keys tasks \<and>
     (\<forall>n. set (get_upstream_dependencies g n) = task_deps tasks n) \<and>
     (if acyclic (task_rel tasks) then errs = []
      else errs = [''Graph contains a cycle involving tasks: '' @ py_join '', ''
             (sort (map tdid_value (filter (\<lambda>t. t \<in> blocked_tasks tasks) (dict_keys tasks))))])"
proof -
  let ?N = "dict_keys tasks"
  obtain deps dpts deg where adj: "build_adjacency tasks = Inr (deps, dpts, deg)"
    and deps: "\<And>n. map_of deps n = map_option td_dependencies (map_of tasks n)"
    and dpts: "map_of dpts = task_dependents tasks"
    and deg: "\<And>n. map_of deg n = map_option (\<lambda>td. int (length (td_dependencies td))) (map_of tasks n)"
    using build_adjacency_result [OF tc] by blast
  let ?g = "\<lparr>g_nodes = ?N, g_dependencies = deps, g_dependents = dpts\<rparr>"
  have ok: "tasks_ok tasks" using tc by (simp add: tasks_closed_def)
  have up: "set (get_upstream_dependencies ?g n) = task_deps tasks n" for n
    by (simp add: get_upstream_dependencies_def deps task_deps_def split: option.split)
  have down: "get_downstream_dependents ?g n = (case task_dependents tasks n of None \<Rightarrow> [] | Some ds \<Rightarrow> ds)" for n
    by (simp add: get_downstream_dependents_def dpts)
  have "set (get_downstream_dependents ?g c) = {n \<in> set ?N. c \<in> task_deps tasks n}" if "c \<in> set ?N" for c
    using task_graph.scs_some [OF tc that] down [of c] by fastforce
  then have gok: "graph_ok ?g"
    using build_adjacency_distinct [OF adj] task_graph.nds_distinct [OF tc]
      task_graph.dps_closed [OF tc]
    by (simp only: graph_ok_def up canonical_graph.simps simp_thms) blast
  have card: "map_of deg n = (if n \<in> set ?N then Some (int (card (task_deps tasks n))) else None)" for n
  proof (cases "map_of tasks n")
    case None
    then have "n \<notin> set ?N" by (auto simp: map_of_eq_None_iff)
    with None show ?thesis by (simp add: deg)
  next
    case (Some td)
    then have "(n, td) \<in> set tasks" by (rule map_of_SomeD)
    moreover then have "distinct (td_dependencies td)" using ok by (auto simp: tasks_ok_def)
    moreover from \<open>(n, td) \<in> set tasks\<close> have "n \<in> set ?N" unfolding mem_dict_keys by blast
    ultimately show ?thesis using Some
      by (simp only: deg task_deps_def distinct_card option.map option.case if_True)
  qed
  let ?q = "filter (\<lambda>t. map_of deg t = Some 0) ?N"
  have "kahn_inv ?N (task_deps tasks) [] ?q deg"
    by (rule kahn_inv_init [OF card task_graph.nds_distinct [OF tc] task_graph.finite_dps [OF tc]])
      (use task_graph.nds_distinct [OF tc] in auto)
  from task_graph.kahn_loop_result [OF tc this] obtain deg' vis where
    run: "kahn_loop (map_of dpts) deg ?q [] = Inr (deg', vis)"
    and inv: "kahn_inv ?N (task_deps tasks) vis [] deg'" unfolding dpts by blast
  have blocked: "(case map_of deg' t of Some n \<Rightarrow> 0 < n | None \<Rightarrow> False) \<longleftrightarrow> t \<in> blocked_tasks tasks"
    if "t \<in> set ?N" for t
  proof -
    have "t \<in> blocked_tasks tasks \<longleftrightarrow> t \<notin> set vis"
      using task_graph.kahn_blocked_iff [OF tc inv that] that by (simp add: blocked_tasks_def)
    then show ?thesis
      using task_graph.kahn_final_nodes(2,3) [OF tc inv that] by (cases "map_of deg' t") auto
  qed
  have flt: "filter (\<lambda>t. case map_of deg' t of Some n \<Rightarrow> 0 < n | None \<Rightarrow> False) ?N =
      filter (\<lambda>t. t \<in> blocked_tasks tasks) ?N"
    by (rule filter_cong) (simp_all only: blocked)
  have "build_canonical_graph_and_verify_acyclic tasks =
      (if length vis \<noteq> length ?N
       then Inr (?g, [''Graph contains a cycle involving tasks: '' @ py_join '', ''
             (sort (map tdid_value (filter (\<lambda>t. t \<in> blocked_tasks tasks) ?N)))])
       else Inr (?g, []))"
    unfolding build_canonical_graph_and_verify_acyclic_def Let_def adj bindE_Inr prod.case run flt
    by simp
  moreover note task_graph.kahn_complete_iff_acyclic [OF tc inv]
  moreover note gok up
  ultimately show ?thesis by (cases "acyclic (task_rel tasks)") auto
qed

text \<open>A dependency that is no task ends the construction with the code's \<open>ValueError\<close>.\<close>

lemma build_graph_unknown_dependency:
  assumes ok: "tasks_ok tasks" and nc: "\<not> tasks_closed tasks"
  shows "build_canonical_graph_and_verify_acyclic tasks = Inl ValueError"
proof -
  let ?N = "dict_keys tasks"
  let ?init = "(map (\<lambda>t. (t, [])) ?N, map (\<lambda>t. (t, [])) ?N, map (\<lambda>t. (t, 0)) ?N)"
  have out: "\<exists>e \<in> set (edges tasks). snd e \<notin> set ?N"
    using ok nc by (force simp: tasks_closed_def set_edges)
  have src: "\<forall>e \<in> set (edges tasks). fst e \<in> set ?N"
    by (force simp: set_edges)
  obtain good e bad where es: "edges tasks = good @ e # bad"
    and e: "snd e \<notin> set ?N" and good: "\<forall>x \<in> set good. snd x \<in> set ?N"
    using split_list_first_prop [OF out] by auto
  have const: "map_of (map (\<lambda>t. (t, v)) xs) n = (if n \<in> set xs then Some v else None)" for xs n and v :: 'x
    by (induction xs) auto
  have sub: "set good \<subseteq> set ?N \<times> set ?N"
    using good src unfolding es by (metis UnCI mem_Times_iff set_append subsetI)
  have keys: "dict_keys (map (\<lambda>t. (t, v)) xs) = xs" for xs and v :: 'x by (simp add: comp_def)
  have "\<exists>s. foldE (add_edge ?N) good ?init = Inr s"
  proof -
    have "map_of (map (\<lambda>t. (t, [])) ?N) n = Some [] \<and> map_of (map (\<lambda>t. (t, [])) ?N) n = Some [] \<and>
      map_of (map (\<lambda>t. (t, 0)) ?N) n = Some 0" if "n \<in> set ?N" for n
      using that by (simp only: const if_True)
    from foldE_add_edge [OF sub this keys keys keys] show ?thesis by blast
  qed
  then obtain s where "foldE (add_edge ?N) good ?init = Inr s" by blast
  then have "build_adjacency tasks = Inl ValueError"
    using e by (cases e; cases s) (simp add: build_adjacency_edges es foldE_append add_edge_def)
  then show ?thesis by (simp add: build_canonical_graph_and_verify_acyclic_def)
qed

section \<open>The deterministic order\<close>

interpretation canon: reduction_graph graph_ok g_nodes
  "\<lambda>g n. set (get_upstream_dependencies g n)" "\<lambda>g c. Some (sort (get_downstream_dependents g c))"
proof unfold_locales
  fix g c assume "graph_ok g" and "c \<in> set (g_nodes g)"
  then show "\<exists>ds. Some (sort (get_downstream_dependents g c)) = Some ds \<and> distinct ds \<and>
      set ds = {n \<in> set (g_nodes g). c \<in> set (get_upstream_dependencies g n)}"
    by (simp add: graph_ok_distinct) (simp add: graph_ok_def)
qed (auto simp: graph_ok_def)

lemma topological_order_result:
  assumes ok: "graph_ok g"
  shows "\<exists>order. compute_deterministic_topological_order g = Inr order \<and> distinct order \<and>
     set order \<subseteq> set (g_nodes g) \<and>
     topo_sorted (\<lambda>n. set (get_upstream_dependencies g n)) order \<and>
     (set order = set (g_nodes g) \<longleftrightarrow>
        acyclic (dep_rel (g_nodes g) (\<lambda>n. set (get_upstream_dependencies g n))))"
proof -
  let ?N = "g_nodes g" and ?D = "\<lambda>n. set (get_upstream_dependencies g n)"
  let ?deg = "map (\<lambda>t. (t, int (length (get_upstream_dependencies g t)))) ?N"
  let ?q = "sort (filter (\<lambda>t. map_of ?deg t = Some 0) ?N)"
  have m: "map_of (map (\<lambda>t. (t, f t)) xs) n = (if n \<in> set xs then Some (f n) else None)" for f :: "_ \<Rightarrow> int" and xs n
    by (induction xs) auto
  have deg: "map_of ?deg n = (if n \<in> set ?N then Some (int (card (?D n))) else None)" for n
    by (simp add: m distinct_card graph_ok_distinct [OF ok])
  have dist: "distinct ?N" using ok by (simp add: graph_ok_def)
  have "kahn_inv ?N ?D [] ?q ?deg"
    by (rule kahn_inv_init [OF deg dist]) (use dist in auto)
  from canon.kahn_loop_result [OF ok this] obtain deg' vis where
    run: "kahn_loop (\<lambda>c. Some (sort (get_downstream_dependents g c))) ?deg ?q [] = Inr (deg', vis)"
    and inv: "kahn_inv ?N ?D vis [] deg'" by blast
  have v: "distinct vis" "topo_sorted ?D vis" using inv by (auto simp: kahn_inv_def)
  have sub: "set vis \<subseteq> set ?N" by (rule canon.kahn_final_nodes(1) [OF ok inv])
  have "length vis = length ?N \<longleftrightarrow> set vis = set ?N"
    using v(1) dist sub by (metis card_subset_eq distinct_card finite_set)
  with canon.kahn_complete_iff_acyclic [OF ok inv] have
    "set vis = set ?N \<longleftrightarrow> acyclic (dep_rel ?N ?D)" by blast
  moreover have "compute_deterministic_topological_order g = Inr vis"
    using run by (simp add: compute_deterministic_topological_order_def Let_def)
  ultimately show ?thesis using v sub by blast
qed

text \<open>
  The order depends on the graph as sets only, not on any iteration order: the reduction
  reads the in-degrees by lookup, and everything it iterates over is sorted.
\<close>

lemma relax_lookup_cong:
  "map_of deg1 = map_of deg2 \<Longrightarrow>
     rel_sum (=) (\<lambda>(d1, q1) (d2, q2). map_of d1 = map_of d2 \<and> q1 = q2) (relax ds deg1 q) (relax ds deg2 q)"
  by (induction ds arbitrary: deg1 deg2 q) (auto split: option.split)

lemma kahn_lookup_cong:
  "map_of deg1 = map_of deg2 \<Longrightarrow>
     map_sum id snd (kahn_loop scs deg1 q vis) = map_sum id snd (kahn_loop scs deg2 q vis)"
proof (induction scs deg1 q vis arbitrary: deg2 rule: kahn_loop.induct)
  case (2 scs deg current q visited)
  show ?case
  proof (cases "scs current")
    case (Some ds)
    note rel = relax_lookup_cong [OF "2.prems", of ds q]
    show ?thesis
    proof (cases "relax ds deg q")
      case (Inl e)
      with rel have "relax ds deg2 q = Inl e" by (cases "relax ds deg2 q") auto
      with Inl Some show ?thesis by simp
    next
      case (Inr r)
      then obtain d1 q1 where r1: "relax ds deg q = Inr (d1, q1)" by (cases r) auto
      with rel obtain d2 where r2: "relax ds deg2 q = Inr (d2, q1)" and m: "map_of d1 = map_of d2"
        by (cases "relax ds deg2 q") auto
      from "2.IH" [OF Some r1 refl m] r1 r2 Some show ?thesis by simp
    qed
  qed simp
qed simp

definition same_graph :: "canonical_graph \<Rightarrow> canonical_graph \<Rightarrow> bool" where
  "same_graph g h \<longleftrightarrow> set (g_nodes g) = set (g_nodes h) \<and>
     (\<forall>t. set (get_upstream_dependencies g t) = set (get_upstream_dependencies h t) \<and>
          set (get_downstream_dependents g t) = set (get_downstream_dependents h t))"

lemma sort_cong_set: "distinct xs \<Longrightarrow> distinct ys \<Longrightarrow> set xs = set ys \<Longrightarrow> sort xs = sort ys"
  for xs :: "'a::linorder list"
  by (rule sorted_distinct_set_unique) auto

lemma topological_order_cong:
  assumes g: "graph_ok g" and h: "graph_ok h" and s: "same_graph g h"
  shows "compute_deterministic_topological_order g = compute_deterministic_topological_order h"
proof -
  let ?deg = "\<lambda>g. map (\<lambda>t. (t, int (length (get_upstream_dependencies g t)))) (g_nodes g)"
  let ?scs = "\<lambda>g c. Some (sort (get_downstream_dependents g c))"
  let ?q = "\<lambda>g. sort (filter (\<lambda>t. map_of (?deg g) t = Some 0) (g_nodes g))"
  have m: "map_of (map (\<lambda>t. (t, f t)) xs) n = (if n \<in> set xs then Some (f n) else None)" for f :: "_ \<Rightarrow> int" and xs n
    by (induction xs) auto
  have sets: "set (g_nodes g) = set (g_nodes h)"
    "\<And>t. set (get_upstream_dependencies g t) = set (get_upstream_dependencies h t)"
    "\<And>t. set (get_downstream_dependents g t) = set (get_downstream_dependents h t)"
    using s by (simp_all add: same_graph_def)
  have up: "length (get_upstream_dependencies g t) = length (get_upstream_dependencies h t)" for t
    using distinct_card [OF graph_ok_distinct(1) [OF g, of t]]
      distinct_card [OF graph_ok_distinct(1) [OF h, of t]] sets(2) [of t] by simp
  have deg: "map_of (?deg g) = map_of (?deg h)"
    by (rule ext) (simp only: m up sets(1))
  have q: "?q g = ?q h"
    unfolding deg by (rule sort_cong_set) (use g h sets(1) in \<open>auto simp: graph_ok_def\<close>)
  have scs: "?scs g = ?scs h"
    by (rule ext) (simp only: sort_cong_set [OF graph_ok_distinct(2) [OF g] graph_ok_distinct(2) [OF h] sets(3)])
  have ret: "compute_deterministic_topological_order g' =
      map_sum id snd (kahn_loop (?scs g') (?deg g') (?q g') [])" for g'
    by (simp add: compute_deterministic_topological_order_def Let_def bindE_def split: sum.split)
  show ?thesis
    unfolding ret q scs by (rule kahn_lookup_cong [OF deg])
qed

end
