(* ===== verification/Semantic_Validator.thy ===== *)
theory Semantic_Validator
  imports Normalizer Canonical_Graph
begin

text \<open>
  The semantic validator, \<open>src/nexusflow/definition/validator.py\<close>: the rules in the order the
  code applies them, with the accumulated errors and the early return at the limit. A step ends
  with \<open>Inl (Inl e)\<close> when an exception escapes, with \<open>Inl (Inr errors)\<close> when
  \<open>validate\<close> returns, and goes on with \<open>Inr state\<close>.
\<close>

datatype definition_validation_code =
    PAYLOAD_TOO_LARGE | YAML_COMPLEXITY_EXCEEDED | INVALID_YAML | DUPLICATE_KEY | INVALID_ROOT
  | MISSING_FIELD | UNKNOWN_FIELD | INVALID_FIELD_TYPE | INVALID_BINDING
  | EMPTY_WORKFLOW | UNKNOWN_DEPENDENCY | SELF_DEPENDENCY | DUPLICATE_DEPENDENCY
  | UNKNOWN_TASK_OUTPUT_SOURCE | TASK_OUTPUT_SOURCE_NOT_DEPENDENCY
  | UNKNOWN_WORKFLOW_OUTPUT_SOURCE | CYCLE_DETECTED | ATTEMPTS_EXCEEDED_LIMIT

record definition_validation_error =
  ve_code :: definition_validation_code
  ve_message :: string
  ve_path :: string

record validated_definition_result =
  vdr_spec :: validated_workflow_spec
  vdr_graph :: canonical_graph

record validation_outcome =
  vo_success :: "validated_definition_result option"
  vo_errors :: "definition_validation_error list"

record validator_settings =
  max_attempts_admission_limit :: int
  max_errors :: int

text \<open>The errors so far and \<open>has_reference_errors\<close>.\<close>

type_synonym vstate = "definition_validation_error list \<times> bool"
type_synonym 's vstep = "(py_exn + definition_validation_error list) + 's"

definition mk_error :: "definition_validation_code \<Rightarrow> string \<Rightarrow> string \<Rightarrow> definition_validation_error" where
  "mk_error code msg path = \<lparr>ve_code = code, ve_message = msg, ve_path = path\<rparr>"

text \<open>\<open>if add_error(...): return ValidationOutcome(success=None, errors=tuple(errors))\<close>.\<close>

definition add_error :: "validator_settings \<Rightarrow> definition_validation_error \<Rightarrow> vstate \<Rightarrow> vstate vstep" where
  "add_error cfg e st =
     (case st of (errors, has_ref) \<Rightarrow>
        let errors' = errors @ [e] in
        if int (length errors') \<ge> max_errors cfg then Inl (Inr errors') else Inr (errors', has_ref))"

definition raising :: "py_exn + 'a \<Rightarrow> 'a vstep" where
  "raising m = (case m of Inl e \<Rightarrow> Inl (Inl e) | Inr x \<Rightarrow> Inr x)"

text \<open>A name between single quotes.\<close>

definition quoted :: "string \<Rightarrow> string" where
  "quoted s = CHR 0x27 # s @ [CHR 0x27]"

definition path_prefix :: "task_definition \<Rightarrow> string" where
  "path_prefix task = ''tasks.'' @ tdid_value (td_id task)"

definition dep_path :: "task_definition \<Rightarrow> nat \<Rightarrow> string" where
  "dep_path task idx = path_prefix task @ ''.dependencies['' @ nat_str idx @ '']''"

definition attempts_error :: "validator_settings \<Rightarrow> task_definition \<Rightarrow> definition_validation_error" where
  "attempts_error cfg task = mk_error ATTEMPTS_EXCEEDED_LIMIT
     (''max_attempts ('' @ int_str (td_max_attempts task) @ '') exceeds configured admission limit of ''
       @ int_str (max_attempts_admission_limit cfg) @ ''.'') (path_prefix task @ ''.max_attempts'')"

definition duplicate_error :: "task_definition \<Rightarrow> nat \<Rightarrow> string \<Rightarrow> definition_validation_error" where
  "duplicate_error task idx dep_str = mk_error DUPLICATE_DEPENDENCY
     (''Duplicate dependency '' @ quoted (dep_str) @ '' declared on task '' @ quoted (tdid_value (td_id task)) @ ''.'')
     (dep_path task idx)"

definition self_error :: "task_definition \<Rightarrow> nat \<Rightarrow> definition_validation_error" where
  "self_error task idx = mk_error SELF_DEPENDENCY
     (''Task '' @ quoted (tdid_value (td_id task)) @ '' cannot declare a self-dependency.'') (dep_path task idx)"

definition unknown_dep_error :: "task_definition \<Rightarrow> nat \<Rightarrow> string \<Rightarrow> definition_validation_error" where
  "unknown_dep_error task idx dep_str = mk_error UNKNOWN_DEPENDENCY
     (''Task '' @ quoted (tdid_value (td_id task)) @ '' references unknown dependency '' @ quoted (dep_str) @ ''.'')
     (dep_path task idx)"

definition binding_path :: "task_definition \<Rightarrow> string \<Rightarrow> string" where
  "binding_path task input_name = path_prefix task @ ''.input_bindings.'' @ input_name"

definition unknown_source_error ::
  "task_definition \<Rightarrow> string \<Rightarrow> task_definition_id \<Rightarrow> definition_validation_error" where
  "unknown_source_error task input_name u = mk_error UNKNOWN_TASK_OUTPUT_SOURCE
     (''TaskOutput binding references unknown task '' @ quoted (tdid_value u) @ ''.'')
     (binding_path task input_name)"

definition not_dependency_error ::
  "task_definition \<Rightarrow> string \<Rightarrow> task_definition_id \<Rightarrow> definition_validation_error" where
  "not_dependency_error task input_name u = mk_error TASK_OUTPUT_SOURCE_NOT_DEPENDENCY
     (''TaskOutput source '' @ quoted (tdid_value u) @ '' must be a direct declared dependency of '' @ quoted (tdid_value (td_id task)) @ ''.'') (binding_path task input_name)"

definition unknown_output_error :: "string \<Rightarrow> task_definition_id \<Rightarrow> definition_validation_error" where
  "unknown_output_error out_name u = mk_error UNKNOWN_WORKFLOW_OUTPUT_SOURCE
     (''Workflow output binding references unknown source task '' @ quoted (tdid_value u) @ ''.'')
     (''output_bindings.'' @ out_name)"

definition empty_error :: definition_validation_error where
  "empty_error = mk_error EMPTY_WORKFLOW
     ''Workflow specification must contain at least one task definition.'' ''tasks''"

section \<open>The rules\<close>

text \<open>One raw dependency of a task; the state also carries \<open>seen_deps\<close>.\<close>

definition check_raw_dependency ::
  "validator_settings \<Rightarrow> task_definition_id list \<Rightarrow> task_definition
    \<Rightarrow> nat \<times> string \<Rightarrow> string list \<times> vstate \<Rightarrow> (string list \<times> vstate) vstep" where
  "check_raw_dependency cfg task_id_set task entry s =
     (case (entry, s) of ((idx, dep_str), (seen_deps, st)) \<Rightarrow>
      bindE (if dep_str \<in> set seen_deps then add_error cfg (duplicate_error task idx dep_str) st
             else Inr st) (\<lambda>st1.
      bindE (if dep_str = tdid_value (td_id task) then add_error cfg (self_error task idx) st1
             else Inr st1) (\<lambda>st2.
      bindE (raising (mk_TaskDefinitionId dep_str)) (\<lambda>dep_id.
      bindE (if dep_id \<notin> set task_id_set
             then add_error cfg (unknown_dep_error task idx dep_str) (fst st2, True)
             else Inr st2) (\<lambda>st3.
      Inr (py_add dep_str seen_deps, st3))))))"

definition check_input_binding ::
  "validator_settings \<Rightarrow> task_definition_id list \<Rightarrow> task_definition
    \<Rightarrow> string \<times> input_binding \<Rightarrow> vstate \<Rightarrow> vstate vstep" where
  "check_input_binding cfg task_id_set task entry st =
     (case entry of (input_name, binding) \<Rightarrow>
        case binding of
          TaskOutputBinding upstream_id \<Rightarrow>
            if upstream_id \<notin> set task_id_set
            then add_error cfg (unknown_source_error task input_name upstream_id) (fst st, True)
            else if upstream_id \<notin> set (td_dependencies task)
            then add_error cfg (not_dependency_error task input_name upstream_id) st
            else Inr st
        | _ \<Rightarrow> Inr st)"

definition check_task ::
  "validator_settings \<Rightarrow> candidate_workflow_spec \<Rightarrow> task_definition_id list
    \<Rightarrow> task_definition \<Rightarrow> vstate \<Rightarrow> vstate vstep" where
  "check_task cfg candidate task_id_set task st =
     bindE (if td_max_attempts task > max_attempts_admission_limit cfg
            then add_error cfg (attempts_error cfg task) st else Inr st) (\<lambda>st1.
     let raw_deps = (case map_of (cs_raw_dependencies candidate) (td_id task) of
                       None \<Rightarrow> [] | Some ds \<Rightarrow> ds) in
     bindE (foldE (check_raw_dependency cfg task_id_set task)
              (List.enumerate 0 raw_deps) ([], st1)) (\<lambda>(seen_deps, st2).
     foldE (check_input_binding cfg task_id_set task) (td_input_bindings task) st2))"

definition check_output_binding ::
  "validator_settings \<Rightarrow> task_definition_id list
    \<Rightarrow> string \<times> workflow_task_output_binding \<Rightarrow> vstate \<Rightarrow> vstate vstep" where
  "check_output_binding cfg task_id_set entry st =
     (case entry of (out_name, out_binding) \<Rightarrow>
        if source_task_id out_binding \<notin> set task_id_set
        then add_error cfg (unknown_output_error out_name (source_task_id out_binding)) st
        else Inr st)"

text \<open>Rules 2, 3 and 4.\<close>

definition check_references ::
  "validator_settings \<Rightarrow> candidate_workflow_spec \<Rightarrow> task_definition_id list \<Rightarrow> vstate \<Rightarrow> vstate vstep" where
  "check_references cfg candidate task_id_set st =
     bindE (foldE (check_task cfg candidate task_id_set) (cs_tasks candidate) st)
       (foldE (check_output_binding cfg task_id_set) (cs_output_bindings candidate))"

definition failed_outcome :: "definition_validation_error list \<Rightarrow> validation_outcome" where
  "failed_outcome errors = \<lparr>vo_success = None, vo_errors = errors\<rparr>"

definition validate :: "validator_settings \<Rightarrow> candidate_workflow_spec \<Rightarrow> py_exn + validation_outcome" where
  "validate cfg candidate =
     (if cs_tasks candidate = [] then Inr (failed_outcome [empty_error])
      else
        let task_id_set = py_set (map td_id (cs_tasks candidate));
            task_map = fold (\<lambda>t. dict_set (td_id t) t) (cs_tasks candidate) []
        in case check_references cfg candidate task_id_set ([], False) of
          Inl (Inl e) \<Rightarrow> Inl e
        | Inl (Inr errors) \<Rightarrow> Inr (failed_outcome errors)
        | Inr (errors, has_reference_errors) \<Rightarrow>
            if has_reference_errors \<or> errors \<noteq> [] then Inr (failed_outcome errors)
            else bindE (build_canonical_graph_and_verify_acyclic task_map) (\<lambda>(graph, cycle_errors).
              if cycle_errors \<noteq> []
              then Inr (failed_outcome (map (\<lambda>c. mk_error CYCLE_DETECTED c ''tasks'') cycle_errors))
              else Inr \<lparr>vo_success = Some \<lparr>vdr_spec = \<lparr>vs_workflow_name = cs_workflow_name candidate,
                           vs_tasks = task_map, vs_output_bindings = cs_output_bindings candidate\<rparr>,
                           vdr_graph = graph\<rparr>,
                         vo_errors = []\<rparr>))"

section \<open>The full list of diagnostics\<close>

text \<open>
  What the rules report when nothing stops them: the specification the loops with their early
  returns are measured against.
\<close>

fun dependency_diagnostics ::
  "task_definition_id list \<Rightarrow> task_definition \<Rightarrow> nat \<Rightarrow> string list \<Rightarrow> string list
    \<Rightarrow> definition_validation_error list" where
  "dependency_diagnostics ids task idx seen [] = []"
| "dependency_diagnostics ids task idx seen (d # ds) =
     (if d \<in> set seen then [duplicate_error task idx d] else []) @
     (if d = tdid_value (td_id task) then [self_error task idx] else []) @
     (if TaskDefinitionId d \<notin> set ids then [unknown_dep_error task idx d] else []) @
     dependency_diagnostics ids task (Suc idx) (py_add d seen) ds"

definition binding_diagnostics ::
  "task_definition_id list \<Rightarrow> task_definition \<Rightarrow> string \<times> input_binding \<Rightarrow> definition_validation_error list" where
  "binding_diagnostics ids task entry =
     (case entry of (n, b) \<Rightarrow> case b of
        TaskOutputBinding u \<Rightarrow>
          if u \<notin> set ids then [unknown_source_error task n u]
          else if u \<notin> set (td_dependencies task) then [not_dependency_error task n u] else []
      | _ \<Rightarrow> [])"

definition raw_of :: "candidate_workflow_spec \<Rightarrow> task_definition \<Rightarrow> string list" where
  "raw_of c task = (case map_of (cs_raw_dependencies c) (td_id task) of None \<Rightarrow> [] | Some ds \<Rightarrow> ds)"

definition task_diagnostics ::
  "validator_settings \<Rightarrow> candidate_workflow_spec \<Rightarrow> task_definition_id list \<Rightarrow> task_definition
    \<Rightarrow> definition_validation_error list" where
  "task_diagnostics cfg c ids task =
     (if td_max_attempts task > max_attempts_admission_limit cfg then [attempts_error cfg task] else []) @
     dependency_diagnostics ids task 0 [] (raw_of c task) @
     concat (map (binding_diagnostics ids task) (td_input_bindings task))"

definition output_diagnostics ::
  "task_definition_id list \<Rightarrow> string \<times> workflow_task_output_binding \<Rightarrow> definition_validation_error list" where
  "output_diagnostics ids entry =
     (case entry of (n, b) \<Rightarrow>
        if source_task_id b \<notin> set ids then [unknown_output_error n (source_task_id b)] else [])"

definition diagnostics ::
  "validator_settings \<Rightarrow> candidate_workflow_spec \<Rightarrow> definition_validation_error list" where
  "diagnostics cfg c =
     (let ids = py_set (map td_id (cs_tasks c)) in
      concat (map (task_diagnostics cfg c ids) (cs_tasks c)) @
      concat (map (output_diagnostics ids) (cs_output_bindings c)))"

definition is_reference_error :: "definition_validation_error \<Rightarrow> bool" where
  "is_reference_error e = (ve_code e \<in> {UNKNOWN_DEPENDENCY, UNKNOWN_TASK_OUTPUT_SOURCE})"

definition report :: "validator_settings \<Rightarrow> definition_validation_error \<Rightarrow> vstate \<Rightarrow> vstate vstep" where
  "report cfg e st = add_error cfg e (fst st, snd st \<or> is_reference_error e)"


lemmas error_defs = mk_error_def duplicate_error_def self_error_def unknown_dep_error_def
  unknown_source_error_def not_dependency_error_def unknown_output_error_def attempts_error_def

lemma report_non_reference [simp]:
  "add_error cfg (attempts_error cfg t) st = report cfg (attempts_error cfg t) st"
  "add_error cfg (duplicate_error t i d) st = report cfg (duplicate_error t i d) st"
  "add_error cfg (self_error t i) st = report cfg (self_error t i) st"
  "add_error cfg (not_dependency_error t n u) st = report cfg (not_dependency_error t n u) st"
  "add_error cfg (unknown_output_error n u) st = report cfg (unknown_output_error n u) st"
  by (simp_all add: report_def is_reference_error_def error_defs)

lemma report_reference [simp]:
  "add_error cfg (unknown_dep_error t i d) (fst st, True) = report cfg (unknown_dep_error t i d) st"
  "add_error cfg (unknown_source_error t n u) (fst st, True) = report cfg (unknown_source_error t n u) st"
  by (simp_all add: report_def is_reference_error_def error_defs)

lemma report_if:
  "(if c then report cfg e st else Inr st) = foldE (report cfg) (if c then [e] else []) st"
  by simp

lemma raw_dependencies_loop:
  assumes "\<forall>d \<in> set ds. name_ok d"
  shows "foldE (check_raw_dependency cfg ids task) (List.enumerate i ds) (seen, st) =
    bindE (foldE (report cfg) (dependency_diagnostics ids task i seen ds) st)
      (\<lambda>st'. Inr (fold py_add ds seen, st'))"
  using assms
proof (induction ds arbitrary: i seen st)
  case (Cons d ds)
  then have d: "mk_TaskDefinitionId d = Inr (TaskDefinitionId d)" by (simp add: mk_TaskDefinitionId_eq_Inr)
  have ih: "\<And>i seen st. foldE (check_raw_dependency cfg ids task) (List.enumerate i ds) (seen, st) =
    bindE (foldE (report cfg) (dependency_diagnostics ids task i seen ds) st)
      (\<lambda>st'. Inr (fold py_add ds seen, st'))" using Cons by simp
  have head: "check_raw_dependency cfg ids task (i, d) (seen, st) =
      bindE (foldE (report cfg) ((if d \<in> set seen then [duplicate_error task i d] else []) @
        (if d = tdid_value (td_id task) then [self_error task i] else []) @
        (if TaskDefinitionId d \<notin> set ids then [unknown_dep_error task i d] else [])) st)
      (\<lambda>st'. Inr (py_add d seen, st'))"
    by (simp only: check_raw_dependency_def prod.case d raising_def sum.case bindE_Inr
        report_non_reference report_reference report_if foldE_append bindE_assoc)
  show ?case
    by (simp only: enumerate_simps foldE.simps head dependency_diagnostics.simps foldE_append
        bindE_assoc bindE_Inr ih fold.simps comp_apply)
qed simp

lemma input_bindings_loop:
  "foldE (check_input_binding cfg ids task) bs st =
     foldE (report cfg) (concat (map (binding_diagnostics ids task) bs)) st"
proof -
  have "check_input_binding cfg ids task e st = foldE (report cfg) (binding_diagnostics ids task e) st" for e st
    by (simp add: check_input_binding_def binding_diagnostics_def split: prod.split input_binding.split)
  then have "check_input_binding cfg ids task = (\<lambda>e. foldE (report cfg) (binding_diagnostics ids task e))"
    by blast
  then show ?thesis by (simp only: foldE_concat)
qed

lemma output_bindings_loop:
  "foldE (check_output_binding cfg ids) bs =
     foldE (report cfg) (concat (map (output_diagnostics ids) bs))"
proof (rule ext)
  fix st
  have "check_output_binding cfg ids e st = foldE (report cfg) (output_diagnostics ids e) st" for e st
    by (simp add: check_output_binding_def output_diagnostics_def split: prod.split)
  then have "check_output_binding cfg ids = (\<lambda>e. foldE (report cfg) (output_diagnostics ids e))"
    by blast
  then show "foldE (check_output_binding cfg ids) bs st =
     foldE (report cfg) (concat (map (output_diagnostics ids) bs)) st" by (simp only: foldE_concat)
qed

lemma check_task_report:
  assumes "\<forall>d \<in> set (raw_of c task). name_ok d"
  shows "check_task cfg c ids task st = foldE (report cfg) (task_diagnostics cfg c ids task) st"
  using raw_dependencies_loop [OF assms, of cfg ids task 0 "[]"]
  by (simp add: check_task_def task_diagnostics_def foldE_append_fun bindE_assoc
      input_bindings_loop report_if flip: raw_of_def)

lemma check_references_report:
  assumes "\<forall>task \<in> set (cs_tasks c). \<forall>d \<in> set (raw_of c task). name_ok d"
  shows "check_references cfg c (py_set (map td_id (cs_tasks c))) st = foldE (report cfg) (diagnostics cfg c) st"
proof -
  let ?ids = "py_set (map td_id (cs_tasks c))"
  have "foldE (check_task cfg c ?ids) (cs_tasks c) st =
      foldE (\<lambda>t. foldE (report cfg) (task_diagnostics cfg c ?ids t)) (cs_tasks c) st"
    by (rule foldE_cong) (use assms check_task_report in blast)
  then show ?thesis
    by (simp add: check_references_def diagnostics_def Let_def foldE_append foldE_concat output_bindings_loop)
qed

lemma foldE_report:
  assumes "length errs < m" and "m = nat (max 1 (max_errors cfg))"
  shows "foldE (report cfg) es (errs, b) =
     (if length errs + length es < m then Inr (errs @ es, b \<or> list_ex is_reference_error es)
      else Inl (Inr (take m (errs @ es))))"
  using assms(1)
proof (induction es arbitrary: errs b)
  case (Cons e es)
  show ?case
  proof (cases "int (length errs) + 1 \<ge> max_errors cfg")
    case True
    then have "m = length errs + 1" using Cons.prems assms(2) by linarith
    with True show ?thesis by (simp add: report_def add_error_def)
  next
    case False
    then have *: "length (errs @ [e]) < m" using assms(2) by simp
    from False have "foldE (report cfg) (e # es) (errs, b) =
        foldE (report cfg) es (errs @ [e], b \<or> is_reference_error e)"
      by (simp add: report_def add_error_def)
    also note Cons.IH [OF *]
    finally show ?thesis by simp
  qed
qed simp

text \<open>
  With at least one task: all rules hold and the graph decides, or the outcome is the first
  \<open>max_errors\<close> of the full list of diagnostics.
\<close>

definition task_map_of :: "candidate_workflow_spec \<Rightarrow> (task_definition_id, task_definition) dict" where
  "task_map_of c = fold (\<lambda>t. dict_set (td_id t) t) (cs_tasks c) []"

definition promoted :: "candidate_workflow_spec \<Rightarrow> canonical_graph \<Rightarrow> validation_outcome" where
  "promoted c graph = \<lparr>vo_success = Some \<lparr>vdr_spec = \<lparr>vs_workflow_name = cs_workflow_name c,
       vs_tasks = task_map_of c, vs_output_bindings = cs_output_bindings c\<rparr>, vdr_graph = graph\<rparr>,
     vo_errors = []\<rparr>"

lemma validate_eq:
  assumes "\<forall>task \<in> set (cs_tasks c). \<forall>d \<in> set (raw_of c task). name_ok d" and "cs_tasks c \<noteq> []"
  shows "validate cfg c =
    (if diagnostics cfg c \<noteq> []
     then Inr (failed_outcome (take (nat (max 1 (max_errors cfg))) (diagnostics cfg c)))
     else bindE (build_canonical_graph_and_verify_acyclic (task_map_of c)) (\<lambda>(graph, cycle_errors).
       if cycle_errors \<noteq> [] then Inr (failed_outcome (map (\<lambda>m. mk_error CYCLE_DETECTED m ''tasks'') cycle_errors))
       else Inr (promoted c graph)))"
proof -
  let ?m = "nat (max 1 (max_errors cfg))"
  have "length [] < ?m" by simp
  from foldE_report [OF this refl, of "diagnostics cfg c" False]
  show ?thesis using assms(2)
    unfolding promoted_def task_map_of_def
    by (auto simp: validate_def check_references_report [OF assms(1)] Let_def)
qed

section \<open>What a success means\<close>

text \<open>A semantically valid specification: what \<open>ValidatedWorkflowSpec\<close> is documented to guarantee.\<close>

definition task_references_ok :: "task_definition \<Rightarrow> bool" where
  "task_references_ok td \<longleftrightarrow> td_id td \<notin> set (td_dependencies td) \<and>
     (\<forall>(n, b) \<in> set (td_input_bindings td). \<forall>u. b = TaskOutputBinding u \<longrightarrow> u \<in> set (td_dependencies td))"

definition spec_ok :: "validated_workflow_spec \<Rightarrow> bool" where
  "spec_ok s \<longleftrightarrow> vs_tasks s \<noteq> [] \<and> tasks_closed (vs_tasks s) \<and>
     (\<forall>(t, td) \<in> set (vs_tasks s). td_id td = t \<and> taskdef_wf td \<and> task_references_ok td) \<and>
     dict_ok (vs_output_bindings s) \<and>
     (\<forall>(n, b) \<in> set (vs_output_bindings s). source_task_id b \<in> set (dict_keys (vs_tasks s))) \<and>
     acyclic (task_rel (vs_tasks s))"

text \<open>The rules a candidate has to satisfy beside acyclicity.\<close>

definition rules_hold :: "validator_settings \<Rightarrow> candidate_workflow_spec \<Rightarrow> bool" where
  "rules_hold cfg c \<longleftrightarrow>
     (\<forall>td \<in> set (cs_tasks c).
        td_max_attempts td \<le> max_attempts_admission_limit cfg \<and> distinct (raw_of c td) \<and>
        set (td_dependencies td) \<subseteq> set (map td_id (cs_tasks c)) \<and> task_references_ok td) \<and>
     (\<forall>(n, b) \<in> set (cs_output_bindings c). source_task_id b \<in> set (map td_id (cs_tasks c)))"

lemma dependency_diagnostics_Nil:
  "dependency_diagnostics ids task i seen ds = [] \<longleftrightarrow>
     distinct ds \<and> set seen \<inter> set ds = {} \<and> tdid_value (td_id task) \<notin> set ds \<and>
     TaskDefinitionId ` set ds \<subseteq> set ids"
  by (induction ds arbitrary: i seen) auto

lemma TaskDefinitionId_image: "t \<in> TaskDefinitionId ` S \<longleftrightarrow> tdid_value t \<in> S"
  by (cases t) auto

lemma binding_diagnostics_Nil:
  "set (td_dependencies task) \<subseteq> set ids \<Longrightarrow> binding_diagnostics ids task (n, b) = [] \<longleftrightarrow>
     (\<forall>u. b = TaskOutputBinding u \<longrightarrow> u \<in> set (td_dependencies task))"
  by (auto simp: binding_diagnostics_def split: input_binding.split)

lemma task_diagnostics_Nil:
  assumes "set (td_dependencies task) = TaskDefinitionId ` set (raw_of c task)"
  shows "task_diagnostics cfg c ids task = [] \<longleftrightarrow>
     td_max_attempts task \<le> max_attempts_admission_limit cfg \<and> distinct (raw_of c task) \<and>
     set (td_dependencies task) \<subseteq> set ids \<and> task_references_ok task"
proof -
  have "td_id task \<in> set (td_dependencies task) \<longleftrightarrow> tdid_value (td_id task) \<in> set (raw_of c task)"
    by (simp add: assms TaskDefinitionId_image)
  then have dep: "dependency_diagnostics ids task 0 [] (raw_of c task) = [] \<longleftrightarrow> distinct (raw_of c task) \<and>
      td_id task \<notin> set (td_dependencies task) \<and> set (td_dependencies task) \<subseteq> set ids"
    by (simp add: dependency_diagnostics_Nil assms)
  have "task_diagnostics cfg c ids task = [] \<longleftrightarrow>
      td_max_attempts task \<le> max_attempts_admission_limit cfg \<and>
      dependency_diagnostics ids task 0 [] (raw_of c task) = [] \<and>
      (\<forall>e \<in> set (td_input_bindings task). binding_diagnostics ids task e = [])"
    by (auto simp: task_diagnostics_def)
  moreover have "(\<forall>e \<in> set (td_input_bindings task). binding_diagnostics ids task e = []) \<longleftrightarrow>
      (\<forall>(n, b) \<in> set (td_input_bindings task). \<forall>u. b = TaskOutputBinding u \<longrightarrow> u \<in> set (td_dependencies task))"
    if "set (td_dependencies task) \<subseteq> set ids"
    using binding_diagnostics_Nil [OF that] by fast
  ultimately show ?thesis unfolding dep task_references_ok_def by blast
qed

lemma candidate_wf_raw:
  assumes "candidate_wf c" and "td \<in> set (cs_tasks c)"
  shows "set (td_dependencies td) = TaskDefinitionId ` set (raw_of c td)" and "\<forall>d \<in> set (raw_of c td). name_ok d"
  using assms by (fastforce simp: candidate_wf_def raw_of_def)+

lemma diagnostics_Nil_iff:
  assumes "candidate_wf c"
  shows "diagnostics cfg c = [] \<longleftrightarrow> rules_hold cfg c"
proof -
  let ?ids = "py_set (map td_id (cs_tasks c))"
  have "task_diagnostics cfg c ?ids td = [] \<longleftrightarrow>
      td_max_attempts td \<le> max_attempts_admission_limit cfg \<and> distinct (raw_of c td) \<and>
      set (td_dependencies td) \<subseteq> set (map td_id (cs_tasks c)) \<and> task_references_ok td"
    if "td \<in> set (cs_tasks c)" for td
    using task_diagnostics_Nil [OF candidate_wf_raw(1) [OF assms that]] by simp
  moreover have "output_diagnostics ?ids e = [] \<longleftrightarrow> source_task_id (snd e) \<in> set (map td_id (cs_tasks c))" for e
    by (cases e) (simp add: output_diagnostics_def)
  ultimately show ?thesis
    by (auto simp: diagnostics_def rules_hold_def Let_def)
qed

lemma task_map_of_eq:
  assumes "distinct (map td_id (cs_tasks c))"
  shows "task_map_of c = map (\<lambda>t. (td_id t, t)) (cs_tasks c)"
proof -
  let ?es = "map (\<lambda>t. (td_id t, t)) (cs_tasks c)"
  have "fold (\<lambda>t. dict_set (td_id t) t) ts acc = fold (\<lambda>(k, v). dict_set k v) (map (\<lambda>t. (td_id t, t)) ts) acc" for ts acc
    by (induction ts arbitrary: acc) auto
  then have "task_map_of c = fold (\<lambda>(k, v). dict_set k v) ?es []" by (simp add: task_map_of_def)
  also have "\<dots> = [] @ ?es"
    by (rule fold_dict_set_append) (use assms in \<open>simp add: comp_def\<close>)
  finally show ?thesis by simp
qed

lemma task_map_closed:
  assumes "candidate_wf c" and "rules_hold cfg c"
  shows "tasks_closed (task_map_of c)"
proof -
  have eq: "task_map_of c = map (\<lambda>t. (td_id t, t)) (cs_tasks c)"
    using assms(1) by (intro task_map_of_eq) (simp add: candidate_wf_def)
  have keys: "dict_keys (task_map_of c) = map td_id (cs_tasks c)" by (simp add: eq comp_def)
  show ?thesis unfolding tasks_closed_def tasks_ok_def keys
    using assms unfolding eq by (auto simp: candidate_wf_def rules_hold_def taskdef_wf_def)
qed

lemma promoted_spec_ok:
  assumes "candidate_wf c" and "rules_hold cfg c" and "cs_tasks c \<noteq> []"
    and "acyclic (task_rel (task_map_of c))"
  shows "spec_ok \<lparr>vs_workflow_name = cs_workflow_name c, vs_tasks = task_map_of c,
           vs_output_bindings = cs_output_bindings c\<rparr>"
proof -
  have eq: "task_map_of c = map (\<lambda>t. (td_id t, t)) (cs_tasks c)"
    using assms(1) by (intro task_map_of_eq) (simp add: candidate_wf_def)
  have keys: "dict_keys (task_map_of c) = map td_id (cs_tasks c)" by (simp add: eq comp_def)
  show ?thesis unfolding spec_ok_def validated_workflow_spec.simps keys
    using task_map_closed [OF assms(1,2)] assms
    by (auto simp: eq comp_def candidate_wf_def rules_hold_def)
qed

lemma validate_success_iff:
  assumes "candidate_wf c"
  shows "(\<exists>out r. validate cfg c = Inr out \<and> vo_success out = Some r) \<longleftrightarrow>
     cs_tasks c \<noteq> [] \<and> rules_hold cfg c \<and> acyclic (task_rel (task_map_of c))"
    and "\<lbrakk>validate cfg c = Inr out; vo_success out = Some r\<rbrakk> \<Longrightarrow>
     vo_errors out = [] \<and> spec_ok (vdr_spec r) \<and> graph_ok (vdr_graph r) \<and>
     vs_tasks (vdr_spec r) = task_map_of c \<and> g_nodes (vdr_graph r) = map td_id (cs_tasks c)"
    and "\<exists>out. validate cfg c = Inr out \<and> (vo_success out = None \<longleftrightarrow> vo_errors out \<noteq> []) \<and>
       int (length (vo_errors out)) \<le> max 1 (max_errors cfg)"
proof -
  have raw: "\<forall>t \<in> set (cs_tasks c). \<forall>d \<in> set (raw_of c t). name_ok d"
    using candidate_wf_raw(2) [OF assms] by blast
  consider (none) "cs_tasks c = []"
    | (bad) "cs_tasks c \<noteq> []" "\<not> rules_hold cfg c"
    | (cyc) "cs_tasks c \<noteq> []" "rules_hold cfg c" "\<not> acyclic (task_rel (task_map_of c))"
    | (good) "cs_tasks c \<noteq> []" "rules_hold cfg c" "acyclic (task_rel (task_map_of c))" by blast
  then have "((\<exists>out r. validate cfg c = Inr out \<and> vo_success out = Some r) \<longleftrightarrow>
       cs_tasks c \<noteq> [] \<and> rules_hold cfg c \<and> acyclic (task_rel (task_map_of c))) \<and>
     (\<forall>out r. validate cfg c = Inr out \<and> vo_success out = Some r \<longrightarrow>
       vo_errors out = [] \<and> spec_ok (vdr_spec r) \<and> graph_ok (vdr_graph r) \<and>
       vs_tasks (vdr_spec r) = task_map_of c \<and> g_nodes (vdr_graph r) = map td_id (cs_tasks c)) \<and>
     (\<exists>out. validate cfg c = Inr out \<and> (vo_success out = None \<longleftrightarrow> vo_errors out \<noteq> []) \<and>
       int (length (vo_errors out)) \<le> max 1 (max_errors cfg))"
  proof cases
    case none
    then show ?thesis by (simp add: validate_def failed_outcome_def)
  next
    case bad
    then have "diagnostics cfg c \<noteq> []" using diagnostics_Nil_iff [OF assms] by simp
    then show ?thesis using bad by (simp add: validate_eq [OF raw bad(1)] failed_outcome_def)
  next
    case cyc
    with build_graph_result [OF task_map_closed [OF assms cyc(2)]] obtain g errs where
      "build_canonical_graph_and_verify_acyclic (task_map_of c) = Inr (g, errs)" "length errs = 1"
      by auto
    then have "validate cfg c = Inr (failed_outcome (map (\<lambda>m. mk_error CYCLE_DETECTED m ''tasks'') errs))"
      using diagnostics_Nil_iff [OF assms] cyc by (auto simp: validate_eq [OF raw cyc(1)])
    then show ?thesis using cyc \<open>length errs = 1\<close> by (auto simp: failed_outcome_def)
  next
    case good
    with build_graph_result [OF task_map_closed [OF assms good(2)]] obtain g where
      g: "build_canonical_graph_and_verify_acyclic (task_map_of c) = Inr (g, [])" "graph_ok g"
        "g_nodes g = dict_keys (task_map_of c)" by auto
    then have v: "validate cfg c = Inr (promoted c g)"
      using diagnostics_Nil_iff [OF assms] good by (simp add: validate_eq [OF raw good(1)])
    have "dict_keys (task_map_of c) = map td_id (cs_tasks c)"
      using assms by (subst task_map_of_eq) (simp_all add: candidate_wf_def comp_def)
    then show ?thesis using good g v promoted_spec_ok [OF assms good(2,1,3)]
      by (simp add: promoted_def)
  qed
  then show "(\<exists>out r. validate cfg c = Inr out \<and> vo_success out = Some r) \<longleftrightarrow>
       cs_tasks c \<noteq> [] \<and> rules_hold cfg c \<and> acyclic (task_rel (task_map_of c))"
    "\<lbrakk>validate cfg c = Inr out; vo_success out = Some r\<rbrakk> \<Longrightarrow>
     vo_errors out = [] \<and> spec_ok (vdr_spec r) \<and> graph_ok (vdr_graph r) \<and>
     vs_tasks (vdr_spec r) = task_map_of c \<and> g_nodes (vdr_graph r) = map td_id (cs_tasks c)"
    "\<exists>out. validate cfg c = Inr out \<and> (vo_success out = None \<longleftrightarrow> vo_errors out \<noteq> []) \<and>
       int (length (vo_errors out)) \<le> max 1 (max_errors cfg)" by blast+
qed

end
