(* ===== verification/Spec_Codec.thy ===== *)
theory Spec_Codec
  imports Semantic_Validator
begin

text \<open>
  The persistence codec of a validated specification, \<open>src/nexusflow/definition/codec.py\<close>,
  and the request fingerprint of \<open>definition/fingerprint.py\<close>. Serialising sorts every
  mapping by key; deserialising checks the stored structure and fails closed: every exception
  becomes a \<open>PersistenceIntegrityError\<close>.
\<close>

section \<open>Serialising\<close>

fun serialize_binding :: "input_binding \<Rightarrow> py_exn + pyval" where
  "serialize_binding (LiteralBinding v) =
     bindE (thaw_json v) (\<lambda>w. Inr (PyDict [(PyStr ''type'', PyStr ''Literal''), (PyStr ''value'', w)]))"
| "serialize_binding WorkflowInputBinding = Inr (PyDict [(PyStr ''type'', PyStr ''WorkflowInput'')])"
| "serialize_binding (TaskOutputBinding u) =
     Inr (PyDict [(PyStr ''type'', PyStr ''TaskOutput''),
                  (PyStr ''upstream_task_id'', PyStr (tdid_value u))])"

definition serialize_task :: "task_definition_id \<Rightarrow> task_definition \<Rightarrow> py_exn + pyval" where
  "serialize_task task_id task =
     bindE (mapE (\<lambda>n. bindE (dict_index (td_input_bindings task) n) (\<lambda>b.
                       bindE (serialize_binding b) (\<lambda>w. Inr (PyStr n, w))))
              (sort (dict_keys (td_input_bindings task)))) (\<lambda>ins.
     Inr (PyDict
       [(PyStr ''id'', PyStr (tdid_value task_id)),
        (PyStr ''activity_type'', PyStr (act_name (td_activity_type task))),
        (PyStr ''dependencies'', PyList (map PyStr (sort (map tdid_value (td_dependencies task))))),
        (PyStr ''input_bindings'', PyDict ins),
        (PyStr ''max_attempts'', PyInt (td_max_attempts task))]))"

definition serialize_output :: "workflow_task_output_binding \<Rightarrow> pyval" where
  "serialize_output b =
     PyDict [(PyStr ''type'', PyStr ''WorkflowTaskOutput''),
             (PyStr ''source_task_id'', PyStr (tdid_value (source_task_id b)))]"

definition serialize_validated_spec :: "validated_workflow_spec \<Rightarrow> py_exn + pyval" where
  "serialize_validated_spec spec =
     bindE (mapE (\<lambda>t. bindE (dict_index (vs_tasks spec) t) (\<lambda>task.
                       bindE (serialize_task t task) (\<lambda>w. Inr (PyStr (tdid_value t), w))))
              (sort (dict_keys (vs_tasks spec)))) (\<lambda>tasks.
     bindE (mapE (\<lambda>n. bindE (dict_index (vs_output_bindings spec) n) (\<lambda>b.
                       Inr (PyStr n, serialize_output b)))
              (sort (dict_keys (vs_output_bindings spec)))) (\<lambda>outs.
     Inr (PyDict
       [(PyStr ''workflow_name'', PyStr (vs_workflow_name spec)),
        (PyStr ''tasks'', PyDict tasks),
        (PyStr ''output_bindings'', PyDict outs)])))"

text \<open>
  \<open>compute_registration_fingerprint\<close>: \<open>json.dumps\<close> (with sorted keys) and SHA-256 are
  the standard library's, so they are arguments.
\<close>

definition compute_registration_fingerprint ::
  "(pyval \<Rightarrow> py_exn + string) \<Rightarrow> (string \<Rightarrow> string) \<Rightarrow> pyval \<Rightarrow> py_exn + request_fingerprint" where
  "compute_registration_fingerprint dumps sha256_hex d =
     bindE (dumps d) (\<lambda>bytes. mk_RequestFingerprint (sha256_hex bytes))"

section \<open>Deserialising\<close>

text \<open>\<open>isinstance(x, (dict, Mapping))\<close> and \<open>isinstance(x, str)\<close>, or the integrity error.\<close>

definition expect_mapping :: "pyval \<Rightarrow> py_exn + (pyval, pyval) dict" where
  "expect_mapping v = (case v of PyDict es \<Rightarrow> Inr es | PyProxy es \<Rightarrow> Inr es
                       | _ \<Rightarrow> Inl PersistenceIntegrityError)"

definition expect_str :: "pyval \<Rightarrow> py_exn + string" where
  "expect_str v = (case v of PyStr s \<Rightarrow> Inr s | _ \<Rightarrow> Inl PersistenceIntegrityError)"

definition guard_integrity :: "bool \<Rightarrow> py_exn + unit" where
  "guard_integrity c = (if c then Inr () else Inl PersistenceIntegrityError)"

text \<open>\<open>d.get(key, default)\<close>.\<close>

definition dget :: "(pyval, pyval) dict \<Rightarrow> string \<Rightarrow> pyval \<Rightarrow> pyval" where
  "dget es k dflt = (case map_of es (PyStr k) of None \<Rightarrow> dflt | Some v \<Rightarrow> v)"

definition deser_dependency ::
  "task_definition_id list \<Rightarrow> task_definition_id \<Rightarrow> pyval \<Rightarrow> task_definition_id list
    \<Rightarrow> py_exn + task_definition_id list" where
  "deser_dependency ids t_id d deps_set =
     bindE (expect_str d) (\<lambda>s.
     bindE (mk_TaskDefinitionId s) (\<lambda>dep_id.
     bindE (guard_integrity (dep_id \<notin> set deps_set)) (\<lambda>_.
     bindE (guard_integrity (dep_id \<noteq> t_id)) (\<lambda>_.
     bindE (guard_integrity (dep_id \<in> set ids)) (\<lambda>_.
     Inr (py_add dep_id deps_set))))))"

definition deser_binding ::
  "task_definition_id list \<Rightarrow> task_definition_id list \<Rightarrow> pyval \<Rightarrow> py_exn + input_binding" where
  "deser_binding ids deps_set in_v =
     bindE (expect_mapping in_v) (\<lambda>b.
     bindE (expect_str (dget b ''type'' PyNone)) (\<lambda>b_type.
     if b_type = ''Literal'' then
       (case map_of b (PyStr ''value'') of
          None \<Rightarrow> Inl PersistenceIntegrityError
        | Some v \<Rightarrow> bindE (freeze_json v) (\<lambda>w. Inr (LiteralBinding w)))
     else if b_type = ''WorkflowInput'' then Inr WorkflowInputBinding
     else if b_type = ''TaskOutput'' then
       bindE (expect_str (dget b ''upstream_task_id'' PyNone)) (\<lambda>s.
       bindE (mk_TaskDefinitionId s) (\<lambda>upstream_id.
       bindE (guard_integrity (upstream_id \<in> set ids)) (\<lambda>_.
       bindE (guard_integrity (upstream_id \<in> set deps_set)) (\<lambda>_.
       Inr (TaskOutputBinding upstream_id)))))
     else Inl PersistenceIntegrityError))"

definition deser_max_attempts :: "pyval \<Rightarrow> py_exn + int" where
  "deser_max_attempts v =
     (case v of PyInt n \<Rightarrow> bindE (guard_integrity (n \<ge> 1)) (\<lambda>_. Inr n)
      | _ \<Rightarrow> Inl PersistenceIntegrityError)"

definition deser_task ::
  "task_definition_id list \<Rightarrow> string \<Rightarrow> pyval \<Rightarrow> py_exn + (task_definition_id \<times> task_definition)" where
  "deser_task ids t_id_str t_data =
     bindE (expect_mapping t_data) (\<lambda>td.
     bindE (mk_TaskDefinitionId t_id_str) (\<lambda>t_id.
     bindE (guard_integrity (case map_of td (PyStr ''id'') of None \<Rightarrow> True | Some v \<Rightarrow> v = PyStr t_id_str)) (\<lambda>_.
     bindE (expect_str (dget td ''activity_type'' PyNone)) (\<lambda>raw_act_type.
     bindE (guard_integrity (raw_act_type \<noteq> [])) (\<lambda>_.
     bindE (mk_ActivityType raw_act_type) (\<lambda>act_type.
     bindE (case dget td ''dependencies'' (PyList []) of PyList xs \<Rightarrow> Inr xs
              | _ \<Rightarrow> Inl PersistenceIntegrityError) (\<lambda>raw_deps.
     bindE (foldE (deser_dependency ids t_id) raw_deps []) (\<lambda>deps_set.
     bindE (deser_max_attempts (dget td ''max_attempts'' PyNone)) (\<lambda>max_attempts.
     bindE (expect_mapping (dget td ''input_bindings'' (PyDict []))) (\<lambda>raw_in_bindings.
     bindE (foldE (\<lambda>(in_k, in_v) in_bindings.
              bindE (expect_str in_k) (\<lambda>n.
              bindE (deser_binding ids deps_set in_v) (\<lambda>b.
              Inr (dict_set n b in_bindings)))) raw_in_bindings []) (\<lambda>in_bindings.
     bindE (mk_TaskDefinition t_id act_type deps_set in_bindings max_attempts) (\<lambda>task.
     Inr (t_id, task)))))))))))))"

definition deser_output :: "task_definition_id list \<Rightarrow> pyval \<Rightarrow> py_exn + workflow_task_output_binding" where
  "deser_output ids o_v =
     bindE (expect_mapping o_v) (\<lambda>ob.
     bindE (guard_integrity (dget ob ''type'' PyNone = PyStr ''WorkflowTaskOutput'')) (\<lambda>_.
     bindE (expect_str (dget ob ''source_task_id'' PyNone)) (\<lambda>s.
     bindE (mk_TaskDefinitionId s) (\<lambda>src_id.
     bindE (guard_integrity (src_id \<in> set ids)) (\<lambda>_.
     Inr (WorkflowTaskOutputBinding src_id))))))"

text \<open>The body of the \<open>try\<close> block.\<close>

definition deser_spec :: "pyval \<Rightarrow> py_exn + validated_workflow_spec" where
  "deser_spec data =
     bindE (expect_mapping data) (\<lambda>root.
     bindE (expect_str (dget root ''workflow_name'' PyNone)) (\<lambda>wf_name.
     bindE (guard_integrity (wf_name \<noteq> [])) (\<lambda>_.
     bindE (expect_mapping (dget root ''tasks'' PyNone)) (\<lambda>raw_tasks.
     bindE (guard_integrity (raw_tasks \<noteq> [])) (\<lambda>_.
     bindE (expect_mapping (dget root ''output_bindings'' (PyDict []))) (\<lambda>raw_outputs.
     bindE (foldE (\<lambda>t_key ids.
              bindE (expect_str t_key) (\<lambda>s.
              bindE (guard_integrity (s \<noteq> [])) (\<lambda>_.
              bindE (mk_TaskDefinitionId s) (\<lambda>t. Inr (py_add t ids)))))
              (dict_keys raw_tasks) []) (\<lambda>ids.
     bindE (foldE (\<lambda>(k, t_data) tasks.
              bindE (expect_str k) (\<lambda>t_id_str.
              bindE (deser_task ids t_id_str t_data) (\<lambda>(t_id, task).
              Inr (dict_set t_id task tasks)))) raw_tasks []) (\<lambda>tasks.
     bindE (foldE (\<lambda>(o_k, o_v) outputs.
              bindE (expect_str o_k) (\<lambda>n.
              bindE (deser_output ids o_v) (\<lambda>ob.
              Inr (dict_set n ob outputs)))) raw_outputs []) (\<lambda>outputs.
     bindE (build_canonical_graph_and_verify_acyclic tasks) (\<lambda>(_, cycle_errors).
     bindE (guard_integrity (cycle_errors = [])) (\<lambda>_.
     Inr \<lparr>vs_workflow_name = wf_name, vs_tasks = tasks, vs_output_bindings = outputs\<rparr>)))))))))))"

definition deserialize_validated_spec :: "pyval \<Rightarrow> py_exn + validated_workflow_spec" where
  "deserialize_validated_spec data =
     (case deser_spec data of Inl e \<Rightarrow> Inl PersistenceIntegrityError | Inr spec \<Rightarrow> Inr spec)"

section \<open>Failing closed\<close>

lemma guard_integrity_Inr [simp]: "guard_integrity c = Inr u \<longleftrightarrow> c"
  by (simp add: guard_integrity_def)

lemma expect_str_Inr: "expect_str v = Inr s \<longleftrightarrow> v = PyStr s"
  by (auto simp: expect_str_def split: pyval.splits)

lemma expect_str_PyStr [simp]: "expect_str (PyStr s) = Inr s"
  by (simp add: expect_str_def)

lemma expect_mapping_PyDict [simp]: "expect_mapping (PyDict es) = Inr es"
  by (simp add: expect_mapping_def)

text \<open>A loop that enters checked values into a dictionary: all its values pass the check.\<close>

lemma foldE_dict_values:
  assumes "foldE step xs acc = Inr acc'" and "dict_ok acc" and "\<forall>(k, v) \<in> set acc. P k v"
    and "\<And>x d d'. x \<in> set xs \<Longrightarrow> step x d = Inr d' \<Longrightarrow> \<exists>k v. d' = dict_set k v d \<and> P k v"
  shows "dict_ok acc' \<and> (\<forall>(k, v) \<in> set acc'. P k v)"
proof -
  have "dict_ok d' \<and> (\<forall>(k, v) \<in> set d'. P k v)"
    if "x \<in> set xs" "dict_ok d \<and> (\<forall>(k, v) \<in> set d. P k v)" "step x d = Inr d'" for x d d'
  proof -
    from assms(4) [OF that(1,3)] obtain k v where d': "d' = dict_set k v d" and p: "P k v" by blast
    have "set d' \<subseteq> insert (k, v) (set d)" unfolding d' by (induction d) auto
    with that(2) p d' show ?thesis by (auto simp del: set_keys_dict_set)
  qed
  note step = this
  show ?thesis
    by (rule foldE_invariant [where P = "\<lambda>d. dict_ok d \<and> (\<forall>(k, v) \<in> set d. P k v)", OF _ assms(1)])
      (use step assms(2,3) in blast)+
qed

lemma deser_dependencies_Inr:
  assumes "foldE (deser_dependency ids t_id) raw acc = Inr deps"
    and "distinct acc" and "t_id \<notin> set acc" and "\<forall>d \<in> set acc. tdid_ok d \<and> d \<in> set ids"
  shows "distinct deps \<and> t_id \<notin> set deps \<and> (\<forall>d \<in> set deps. tdid_ok d \<and> d \<in> set ids)"
proof -
  have "distinct s' \<and> t_id \<notin> set s' \<and> (\<forall>d \<in> set s'. tdid_ok d \<and> d \<in> set ids)"
    if "distinct s \<and> t_id \<notin> set s \<and> (\<forall>d \<in> set s. tdid_ok d \<and> d \<in> set ids)"
      "deser_dependency ids t_id x s = Inr s'" for x s s'
    using that by (auto simp: deser_dependency_def bindE_eq_Inr mk_TaskDefinitionId_eq_Inr)
  note step = this
  show ?thesis
    by (rule foldE_invariant [where P = "\<lambda>s. distinct s \<and> t_id \<notin> set s \<and>
          (\<forall>d \<in> set s. tdid_ok d \<and> d \<in> set ids)", OF _ assms(1)])
      (use step assms(2-4) in blast)+
qed

lemma deser_binding_Inr:
  assumes "deser_binding ids deps v = Inr b"
  shows "binding_wf b \<and> (\<forall>u. b = TaskOutputBinding u \<longrightarrow> u \<in> set deps)"
  using assms
  by (auto simp: deser_binding_def bindE_eq_Inr binding_wf_def freeze_json_frozen
      mk_TaskDefinitionId_eq_Inr split: if_splits option.splits)

lemma deser_task_Inr:
  assumes "deser_task ids s v = Inr (t, td)"
  shows "t = TaskDefinitionId s \<and> td_id td = t \<and> taskdef_wf td \<and> task_references_ok td \<and>
     set (td_dependencies td) \<subseteq> set ids"
proof -
  from assms obtain act deps raw ins bs n where
    t: "t = TaskDefinitionId s" "name_ok s" and act: "name_ok act" and n: "1 \<le> n"
    and deps: "foldE (deser_dependency ids t) raw [] = Inr deps"
    and ins: "foldE (\<lambda>(in_k, in_v) in_bindings.
              bindE (expect_str in_k) (\<lambda>n.
              bindE (deser_binding ids deps in_v) (\<lambda>b.
              Inr (dict_set n b in_bindings)))) ins [] = Inr bs"
    and td: "td = \<lparr>td_id = t, td_activity_type = ActivityType act, td_dependencies = deps,
                td_input_bindings = bs, td_max_attempts = n\<rparr>"
    unfolding deser_task_def bindE_eq_Inr mk_TaskDefinitionId_eq_Inr mk_ActivityType_eq_Inr
      mk_TaskDefinition_eq_Inr
    by (clarsimp simp del: foldE.simps)
  have d: "distinct deps \<and> t \<notin> set deps \<and> (\<forall>d \<in> set deps. tdid_ok d \<and> d \<in> set ids)"
    by (rule deser_dependencies_Inr [OF deps]) simp_all
  have "dict_ok bs \<and> (\<forall>(k, b) \<in> set bs. binding_wf b \<and> (\<forall>u. b = TaskOutputBinding u \<longrightarrow> u \<in> set deps))"
    by (rule foldE_dict_values [OF ins]) (auto simp: bindE_eq_Inr dest!: deser_binding_Inr, blast)
  with d t act n show ?thesis by (auto simp: td taskdef_wf_def task_references_ok_def)
qed

lemma deser_ids_Inr:
  assumes "foldE (\<lambda>t_key ids.
              bindE (expect_str t_key) (\<lambda>s.
              bindE (guard_integrity (s \<noteq> [])) (\<lambda>_.
              bindE (mk_TaskDefinitionId s) (\<lambda>t. Inr (py_add t ids))))) keys acc = Inr ids"
  shows "set ids = set acc \<union> {TaskDefinitionId s |s. PyStr s \<in> set keys}"
  using assms
proof (induction keys arbitrary: acc)
  case (Cons k keys)
  from Cons.prems obtain s where k: "k = PyStr s"
    and rest: "foldE (\<lambda>t_key ids. bindE (expect_str t_key) (\<lambda>s. bindE (guard_integrity (s \<noteq> [])) (\<lambda>_.
              bindE (mk_TaskDefinitionId s) (\<lambda>t. Inr (py_add t ids))))) keys
        (py_add (TaskDefinitionId s) acc) = Inr ids"
    by (auto simp: bindE_eq_Inr expect_str_Inr mk_TaskDefinitionId_eq_Inr)
  from Cons.IH [OF rest] show ?case by (auto simp: k)
qed simp

lemma deser_tasks_keys:
  assumes "foldE (\<lambda>(k, t_data) tasks.
              bindE (expect_str k) (\<lambda>t_id_str.
              bindE (deser_task ids t_id_str t_data) (\<lambda>(t_id, task).
              Inr (dict_set t_id task tasks)))) raw acc = Inr tasks"
  shows "fst ` set tasks = fst ` set acc \<union> {TaskDefinitionId s |s. PyStr s \<in> fst ` set raw}"
  using assms
proof (induction raw arbitrary: acc)
  case (Cons e raw)
  obtain k v where e: "e = (k, v)" by (cases e)
  from Cons.prems obtain s t td where k: "k = PyStr s" and t: "deser_task ids s v = Inr (t, td)"
    and rest: "foldE (\<lambda>(k, t_data) tasks.
              bindE (expect_str k) (\<lambda>t_id_str.
              bindE (deser_task ids t_id_str t_data) (\<lambda>(t_id, task).
              Inr (dict_set t_id task tasks)))) raw (dict_set t td acc) = Inr tasks"
    by (auto simp: e bindE_eq_Inr expect_str_Inr)
  from Cons.IH [OF rest] deser_task_Inr [OF t] show ?case by (auto simp: e k)
qed simp

lemma foldE_nonempty_dict:
  "foldE step xs acc = Inr acc' \<Longrightarrow> xs \<noteq> [] \<or> acc \<noteq> [] \<Longrightarrow>
   (\<And>x d d'. step x d = Inr d' \<Longrightarrow> \<exists>k v. d' = dict_set k v d) \<Longrightarrow> acc' \<noteq> []"
proof (induction xs arbitrary: acc)
  case (Cons x xs)
  then obtain d where d: "step x acc = Inr d" "foldE step xs d = Inr acc'" by (auto simp: bindE_eq_Inr)
  from Cons.prems(3) [OF d(1)] have "d \<noteq> []" by auto
  from Cons.IH [OF d(2)] this Cons.prems(3) show ?case by blast
qed simp

theorem deserialize_fail_closed:
  assumes "deserialize_validated_spec data = Inr spec"
  shows "spec_ok spec" and "vs_workflow_name spec \<noteq> []"
proof -
  from assms obtain raw_tasks raw_outs ids tasks outs wf_name g where
    ne: "wf_name \<noteq> []" "raw_tasks \<noteq> []"
    and ids: "foldE (\<lambda>t_key ids.
              bindE (expect_str t_key) (\<lambda>s.
              bindE (guard_integrity (s \<noteq> [])) (\<lambda>_.
              bindE (mk_TaskDefinitionId s) (\<lambda>t. Inr (py_add t ids)))))
              (dict_keys raw_tasks) [] = Inr ids"
    and tasks: "foldE (\<lambda>(k, t_data) tasks.
              bindE (expect_str k) (\<lambda>t_id_str.
              bindE (deser_task ids t_id_str t_data) (\<lambda>(t_id, task).
              Inr (dict_set t_id task tasks)))) raw_tasks [] = Inr tasks"
    and outs: "foldE (\<lambda>(o_k, o_v) outputs.
              bindE (expect_str o_k) (\<lambda>n.
              bindE (deser_output ids o_v) (\<lambda>ob.
              Inr (dict_set n ob outputs)))) raw_outs [] = Inr outs"
    and g: "build_canonical_graph_and_verify_acyclic tasks = Inr (g, [])"
    and spec: "spec = \<lparr>vs_workflow_name = wf_name, vs_tasks = tasks, vs_output_bindings = outs\<rparr>"
    unfolding deserialize_validated_spec_def deser_spec_def
    by (auto elim!: bindE_InrE split: sum.splits)
  show "vs_workflow_name spec \<noteq> []" by (simp add: spec ne)
  have keys: "fst ` set tasks = set ids"
    using deser_ids_Inr [OF ids] deser_tasks_keys [OF tasks] by simp
  have each: "dict_ok tasks \<and> (\<forall>(t, td) \<in> set tasks. td_id td = t \<and> taskdef_wf td \<and> task_references_ok td \<and>
      set (td_dependencies td) \<subseteq> set ids)"
  proof (rule foldE_dict_values [OF tasks])
    fix x d d' assume "(case x of (k, t_data) \<Rightarrow> \<lambda>tasks.
              bindE (expect_str k) (\<lambda>t_id_str.
              bindE (deser_task ids t_id_str t_data) (\<lambda>(t_id, task).
              Inr (dict_set t_id task tasks)))) d = Inr d'"
    then obtain s v t td where "deser_task ids s v = Inr (t, td)" "d' = dict_set t td d"
      by (auto simp: bindE_eq_Inr split: prod.splits)
    with deser_task_Inr show "\<exists>t td. d' = dict_set t td d \<and> td_id td = t \<and> taskdef_wf td \<and>
        task_references_ok td \<and> set (td_dependencies td) \<subseteq> set ids" by blast
  qed simp_all
  then have closed: "tasks_closed tasks"
    by (auto simp: tasks_closed_def tasks_ok_def taskdef_wf_def keys)
  have "dict_ok outs \<and> (\<forall>(n, b) \<in> set outs. source_task_id b \<in> set ids)"
    by (rule foldE_dict_values [OF outs])
      (auto simp: bindE_eq_Inr deser_output_def, metis workflow_task_output_binding.sel)
  moreover have "tasks \<noteq> []"
    by (rule foldE_nonempty_dict [OF tasks]) (use ne in \<open>auto simp: bindE_eq_Inr, blast\<close>)
  moreover have "acyclic (task_rel tasks)"
    using build_graph_result [OF closed] g by (auto split: if_splits)
  ultimately show "spec_ok spec"
    using each closed by (auto simp: spec_ok_def spec keys)
qed

section \<open>The round trip\<close>

text \<open>What the codec does to a specification: every mapping sorted by key, dependencies sorted.\<close>

definition canon_dict :: "('k::linorder, 'v) dict \<Rightarrow> ('k, 'v) dict" where
  "canon_dict d = map (\<lambda>k. (k, the (map_of d k))) (sort (dict_keys d))"

definition canon_task :: "task_definition \<Rightarrow> task_definition" where
  "canon_task td = td\<lparr>td_dependencies := sort (td_dependencies td),
                      td_input_bindings := canon_dict (td_input_bindings td)\<rparr>"

definition canon_spec :: "validated_workflow_spec \<Rightarrow> validated_workflow_spec" where
  "canon_spec s = s\<lparr>vs_tasks := map (\<lambda>(t, td). (t, canon_task td)) (canon_dict (vs_tasks s)),
                    vs_output_bindings := canon_dict (vs_output_bindings s)\<rparr>"

lemma dict_keys_canon [simp]: "dict_keys (canon_dict d) = sort (dict_keys d)"
  by (simp add: canon_dict_def comp_def)

lemma map_of_canon_dict [simp]: "map_of (canon_dict d) = map_of d"
proof (rule ext)
  fix k
  have *: "map_of (map (\<lambda>k. (k, f k)) ks) k = (if k \<in> set ks then Some (f k) else None)" for ks and f :: "'a \<Rightarrow> 'b"
    by (induction ks) auto
  show "map_of (canon_dict d) k = map_of d k"
    using map_of_eq_None_iff [of d k] by (cases "map_of d k") (auto simp: canon_dict_def *)
qed

lemma canon_dict_entry: "(k, v) \<in> set (canon_dict d) \<Longrightarrow> map_of d k = Some v"
proof -
  assume "(k, v) \<in> set (canon_dict d)"
  then have "k \<in> set (dict_keys d)" "v = the (map_of d k)" by (auto simp: canon_dict_def)
  moreover obtain w where "map_of d k = Some w"
    using \<open>k \<in> set (dict_keys d)\<close> by (metis map_of_eq_None_iff not_Some_eq set_map)
  ultimately show ?thesis by simp
qed

text \<open>A loop that enters one entry per element, with distinct keys, lists them in order.\<close>

lemma foldE_build_dict:
  assumes "\<And>x d. x \<in> set xs \<Longrightarrow> step x d = Inr (dict_set (kf x) (vf x) d)" and "distinct (map kf xs)"
  shows "foldE step xs [] = Inr (map (\<lambda>x. (kf x, vf x)) xs)"
proof -
  have "foldE step xs acc = Inr (acc @ map (\<lambda>x. (kf x, vf x)) xs)"
    if "set (map kf xs) \<inter> fst ` set acc = {}" for acc
    using assms that
  proof (induction xs arbitrary: acc)
    case (Cons x xs)
    have "dict_set (kf x) (vf x) acc = acc @ [(kf x, vf x)]"
      using Cons.prems(3) by (intro dict_set_new) auto
    then have "foldE step (x # xs) acc = foldE step xs (acc @ [(kf x, vf x)])" using Cons.prems(1) by simp
    also have "\<dots> = Inr ((acc @ [(kf x, vf x)]) @ map (\<lambda>x. (kf x, vf x)) xs)"
      by (rule Cons.IH) (use Cons.prems in auto)
    finally show ?case by simp
  qed simp
  from this [of "[]"] show ?thesis by simp
qed

lemma foldE_build_set:
  assumes "\<And>x s. x \<in> set xs \<Longrightarrow> kf x \<notin> set s \<Longrightarrow> step x s = Inr (py_add (kf x) s)" and "distinct (map kf xs)"
  shows "foldE step xs [] = Inr (map kf xs)"
proof -
  have "foldE step xs acc = Inr (acc @ map kf xs)" if "set (map kf xs) \<inter> set acc = {}" for acc
    using assms that
  proof (induction xs arbitrary: acc)
    case (Cons x xs)
    have "kf x \<notin> set acc" using Cons.prems(3) by auto
    then have "foldE step (x # xs) acc = foldE step xs (acc @ [kf x])"
      using Cons.prems(1) [of x acc] by (simp add: py_add_def)
    also have "\<dots> = Inr ((acc @ [kf x]) @ map kf xs)"
      by (rule Cons.IH) (use Cons.prems in auto)
    finally show ?case by simp
  qed simp
  from this [of "[]"] show ?thesis by simp
qed

text \<open>The stored form of a binding, a task and an output, for frozen literals.\<close>

fun binding_json :: "input_binding \<Rightarrow> pyval" where
  "binding_json (LiteralBinding v) =
     PyDict [(PyStr ''type'', PyStr ''Literal''), (PyStr ''value'', unfreeze v)]"
| "binding_json WorkflowInputBinding = PyDict [(PyStr ''type'', PyStr ''WorkflowInput'')]"
| "binding_json (TaskOutputBinding u) =
     PyDict [(PyStr ''type'', PyStr ''TaskOutput''), (PyStr ''upstream_task_id'', PyStr (tdid_value u))]"

definition bindings_json :: "(string, input_binding) dict \<Rightarrow> (pyval, pyval) dict" where
  "bindings_json bs = map (\<lambda>(n, b). (PyStr n, binding_json b)) (canon_dict bs)"

definition task_json :: "task_definition_id \<Rightarrow> task_definition \<Rightarrow> pyval" where
  "task_json t td = PyDict
       [(PyStr ''id'', PyStr (tdid_value t)),
        (PyStr ''activity_type'', PyStr (act_name (td_activity_type td))),
        (PyStr ''dependencies'', PyList (map PyStr (sort (map tdid_value (td_dependencies td))))),
        (PyStr ''input_bindings'', PyDict (bindings_json (td_input_bindings td))),
        (PyStr ''max_attempts'', PyInt (td_max_attempts td))]"

definition spec_json :: "validated_workflow_spec \<Rightarrow> pyval" where
  "spec_json s = PyDict
       [(PyStr ''workflow_name'', PyStr (vs_workflow_name s)),
        (PyStr ''tasks'', PyDict (map (\<lambda>(t, td). (PyStr (tdid_value t), task_json t td)) (canon_dict (vs_tasks s)))),
        (PyStr ''output_bindings'',
         PyDict (map (\<lambda>(n, b). (PyStr n, serialize_output b)) (canon_dict (vs_output_bindings s))))]"

lemma serialize_binding_json: "binding_wf b \<Longrightarrow> serialize_binding b = Inr (binding_json b)"
  by (cases b) (simp_all add: binding_wf_def thaw_frozen)

lemma mapE_dict_index:
  assumes "\<And>k v. map_of d k = Some v \<Longrightarrow> f k v = Inr (g k v)"
  shows "mapE (\<lambda>k. bindE (dict_index d k) (f k)) (sort (dict_keys d)) = Inr (map (\<lambda>(k, v). g k v) (canon_dict d))"
proof -
  have "mapE (\<lambda>k. bindE (dict_index d k) (f k)) (sort (dict_keys d)) =
      Inr (map (\<lambda>k. g k (the (map_of d k))) (sort (dict_keys d)))"
  proof (rule mapE_pure)
    fix k assume "k \<in> set (sort (dict_keys d))"
    then obtain v where "map_of d k = Some v"
      by (metis map_of_eq_None_iff not_Some_eq set_map set_sort)
    then show "bindE (dict_index d k) (f k) = Inr (g k (the (map_of d k)))"
      using assms by (simp add: dict_index_def)
  qed
  then show ?thesis by (simp add: canon_dict_def comp_def)
qed

lemma serialize_task_json:
  assumes "taskdef_wf td" shows "serialize_task t td = Inr (task_json t td)"
proof -
  have "bindE (serialize_binding b) (\<lambda>w. Inr (PyStr n, w)) = Inr (PyStr n, binding_json b)"
    if "map_of (td_input_bindings td) n = Some b" for n b
    using map_of_SomeD [OF that] assms by (auto simp: taskdef_wf_def serialize_binding_json)
  from mapE_dict_index [where f = "\<lambda>n b. bindE (serialize_binding b) (\<lambda>w. Inr (PyStr n, w))", OF this]
  show ?thesis by (simp add: serialize_task_def task_json_def bindings_json_def)
qed

lemma serialize_spec_json:
  assumes "spec_ok s" shows "serialize_validated_spec s = Inr (spec_json s)"
proof -
  have "bindE (serialize_task t td) (\<lambda>w. Inr (PyStr (tdid_value t), w)) = Inr (PyStr (tdid_value t), task_json t td)"
    if "map_of (vs_tasks s) t = Some td" for t td
    using map_of_SomeD [OF that] assms by (auto simp: spec_ok_def serialize_task_json)
  note tasks = mapE_dict_index [where f = "\<lambda>t td. bindE (serialize_task t td) (\<lambda>w. Inr (PyStr (tdid_value t), w))",
      OF this]
  note outs = mapE_dict_index [where f = "\<lambda>n b. Inr (PyStr n, serialize_output b)" and
      g = "\<lambda>n b. (PyStr n, serialize_output b)" and d = "vs_output_bindings s"]
  show ?thesis by (simp add: serialize_validated_spec_def spec_json_def tasks outs)
qed

lemma dget_Cons [simp]: "dget ((k, v) # es) n d = (if k = PyStr n then v else dget es n d)"
  by (auto simp: dget_def)

lemma deser_binding_json:
  assumes "binding_wf b" and "\<forall>u. b = TaskOutputBinding u \<longrightarrow> u \<in> set deps \<and> u \<in> set ids"
  shows "deser_binding ids deps (binding_json b) = Inr b"
  using assms
  by (cases b) (simp_all add: deser_binding_def binding_wf_def freeze_unfreeze guard_integrity_def)

lemma deser_dependencies_json:
  assumes "distinct deps" and "t \<notin> set deps" and "\<forall>d \<in> set deps. tdid_ok d \<and> d \<in> set ids"
  shows "foldE (deser_dependency ids t) (map PyStr (sort (map tdid_value deps))) [] = Inr (sort deps)"
proof -
  have "foldE (\<lambda>d. deser_dependency ids t (PyStr (tdid_value d))) (sort deps) [] = Inr (map (\<lambda>d. d) (sort deps))"
    by (rule foldE_build_set) (use assms in \<open>auto simp: deser_dependency_def guard_integrity_def\<close>)
  then show ?thesis by (simp add: foldE_map flip: map_tdid_value_sort)
qed

lemma canon_task_simps [simp]:
  "td_id (canon_task td) = td_id td" "td_activity_type (canon_task td) = td_activity_type td"
  "td_max_attempts (canon_task td) = td_max_attempts td"
  "td_dependencies (canon_task td) = sort (td_dependencies td)"
  "td_input_bindings (canon_task td) = canon_dict (td_input_bindings td)"
  by (simp_all add: canon_task_def)

lemma deser_task_json:
  assumes "taskdef_wf td" and "task_references_ok td" and "td_id td = t"
    and "set (td_dependencies td) \<subseteq> set ids"
  shows "deser_task ids (tdid_value t) (task_json t td) = Inr (t, canon_task td)"
proof -
  let ?step = "\<lambda>(in_k, in_v) in_bindings. bindE (expect_str in_k) (\<lambda>n.
      bindE (deser_binding ids (sort (td_dependencies td)) in_v) (\<lambda>b. Inr (dict_set n b in_bindings)))"
  have b: "deser_binding ids (sort (td_dependencies td)) (binding_json b) = Inr b"
    if "(n, b) \<in> set (canon_dict (td_input_bindings td))" for n b
  proof (rule deser_binding_json)
    have mem: "(n, b) \<in> set (td_input_bindings td)"
      using that by (auto dest!: canon_dict_entry map_of_SomeD)
    then show "binding_wf b" using assms(1) by (auto simp: taskdef_wf_def)
    show "\<forall>u. b = TaskOutputBinding u \<longrightarrow> u \<in> set (sort (td_dependencies td)) \<and> u \<in> set ids"
      using mem assms(2,4) by (fastforce simp: task_references_ok_def)
  qed
  have "foldE (\<lambda>e. ?step (PyStr (fst e), binding_json (snd e))) (canon_dict (td_input_bindings td)) [] =
      Inr (map (\<lambda>e. (fst e, snd e)) (canon_dict (td_input_bindings td)))"
    by (rule foldE_build_dict) (use b assms(1) in \<open>auto simp: taskdef_wf_def\<close>)
  then have ins: "foldE ?step (bindings_json (td_input_bindings td)) [] = Inr (canon_dict (td_input_bindings td))"
    by (simp add: bindings_json_def foldE_map split_def)
  have deps: "foldE (deser_dependency ids t) (map PyStr (sort (map tdid_value (td_dependencies td)))) [] =
      Inr (sort (td_dependencies td))"
    by (rule deser_dependencies_json) (use assms in \<open>auto simp: taskdef_wf_def task_references_ok_def\<close>)
  have t: "mk_TaskDefinitionId (tdid_value t) = Inr t" using assms(1,3) by (auto simp: taskdef_wf_def)
  have a: "act_name (td_activity_type td) \<noteq> []" "mk_ActivityType (act_name (td_activity_type td)) = Inr (td_activity_type td)"
    using assms(1) by (auto simp: taskdef_wf_def name_ok_def)
  have m: "1 \<le> td_max_attempts td" using assms(1) by (simp add: taskdef_wf_def)
  have td: "mk_TaskDefinition t (td_activity_type td) (sort (td_dependencies td))
      (canon_dict (td_input_bindings td)) (td_max_attempts td) = Inr (canon_task td)"
    using m assms(3) by (cases td) (simp add: mk_TaskDefinition_eq_Inr canon_task_def)
  show ?thesis
    using m a by (simp add: deser_task_def task_json_def t deps guard_integrity_def ins
        deser_max_attempts_def td)
qed

lemma deser_output_json:
  assumes "tdid_ok (source_task_id b)" and "source_task_id b \<in> set ids"
  shows "deser_output ids (serialize_output b) = Inr b"
  using assms by (cases b) (simp add: deser_output_def serialize_output_def guard_integrity_def)

text \<open>The tasks of a canonical specification, and that canonicalising keeps a specification valid.\<close>

definition same_task :: "task_definition \<Rightarrow> task_definition \<Rightarrow> bool" where
  "same_task td td' \<longleftrightarrow> td_id td = td_id td' \<and> td_activity_type td = td_activity_type td' \<and>
     set (td_dependencies td) = set (td_dependencies td') \<and>
     map_of (td_input_bindings td) = map_of (td_input_bindings td') \<and>
     td_max_attempts td = td_max_attempts td'"

text \<open>Python's \<open>==\<close> on specifications: mappings and frozen sets compare without order.\<close>

definition same_spec :: "validated_workflow_spec \<Rightarrow> validated_workflow_spec \<Rightarrow> bool" where
  "same_spec s s' \<longleftrightarrow> vs_workflow_name s = vs_workflow_name s' \<and>
     (\<forall>t. rel_option same_task (map_of (vs_tasks s) t) (map_of (vs_tasks s') t)) \<and>
     map_of (vs_output_bindings s) = map_of (vs_output_bindings s')"

lemma map_of_map_snd: "map_of (map (\<lambda>(k, v). (k, f v)) d) k = map_option f (map_of d k)"
  by (induction d) auto

lemma same_spec_canon: "same_spec s (canon_spec s)"
  by (auto simp: same_spec_def canon_spec_def map_of_map_snd same_task_def option.rel_map
      intro!: option.rel_refl)

lemma dict_keys_map_snd: "dict_keys (map (\<lambda>(k, v). (k, f v)) d) = dict_keys d"
  by (simp add: comp_def split_def)

lemma dict_keys_map_pair: "dict_keys (map (\<lambda>(k, v). (f k, g k v)) d) = map f (dict_keys d)"
  by (simp add: comp_def split_def)

lemma canon_spec_tasks: "vs_tasks (canon_spec s) = map (\<lambda>(t, td). (t, canon_task td)) (canon_dict (vs_tasks s))"
  by (simp add: canon_spec_def)

lemma canon_tasks_keys: "dict_keys (vs_tasks (canon_spec s)) = sort (dict_keys (vs_tasks s))"
  by (simp only: canon_spec_tasks dict_keys_map_snd dict_keys_canon)

lemma canon_task_deps: "task_deps (vs_tasks (canon_spec s)) = task_deps (vs_tasks s)"
  by (rule ext) (simp add: task_deps_def canon_spec_def map_of_map_snd split: option.split)

lemma canon_task_entry:
  assumes "(t, td) \<in> set (vs_tasks (canon_spec s))"
  obtains td' where "(t, td') \<in> set (vs_tasks s)" and "td = canon_task td'"
  using assms by (auto simp: canon_spec_def dest!: canon_dict_entry map_of_SomeD)

lemma canon_tasks_closed: "tasks_closed (vs_tasks s) \<Longrightarrow> tasks_closed (vs_tasks (canon_spec s))"
  unfolding tasks_closed_def tasks_ok_def canon_tasks_keys
  by (fastforce elim!: canon_task_entry)

lemma canon_task_rel: "task_rel (vs_tasks (canon_spec s)) = task_rel (vs_tasks s)"
  by (simp only: dep_rel_def canon_tasks_keys canon_task_deps set_sort)

lemma deser_ids_loop:
  assumes "\<forall>t \<in> set ts. tdid_ok t" and "distinct ts"
  shows "foldE (\<lambda>t_key ids. bindE (expect_str t_key) (\<lambda>s. bindE (guard_integrity (s \<noteq> [])) (\<lambda>_.
     bindE (mk_TaskDefinitionId s) (\<lambda>t. Inr (py_add t ids))))) (map (\<lambda>t. PyStr (tdid_value t)) ts) [] = Inr ts"
proof -
  have "foldE (\<lambda>t ids. bindE (guard_integrity (tdid_value t \<noteq> [])) (\<lambda>_.
     bindE (mk_TaskDefinitionId (tdid_value t)) (\<lambda>t. Inr (py_add t ids)))) ts [] = Inr (map (\<lambda>t. t) ts)"
    by (rule foldE_build_set) (use assms in \<open>auto simp: guard_integrity_def name_ok_def\<close>)
  then show ?thesis by (simp add: foldE_map)
qed

lemma deserialize_serialize:
  assumes "spec_ok s" and "vs_workflow_name s \<noteq> []"
  shows "serialize_validated_spec s = Inr (spec_json s)"
    and "deserialize_validated_spec (spec_json s) = Inr (canon_spec s)"
proof -
  show "serialize_validated_spec s = Inr (spec_json s)" by (rule serialize_spec_json [OF assms(1)])
  let ?T = "canon_dict (vs_tasks s)" and ?O = "canon_dict (vs_output_bindings s)"
  let ?ids = "sort (dict_keys (vs_tasks s))"
  let ?jt = "\<lambda>(t, td). (PyStr (tdid_value t), task_json t td)"
  have entry: "td_id td = t \<and> taskdef_wf td \<and> task_references_ok td \<and> set (td_dependencies td) \<subseteq> set ?ids"
    if "(t, td) \<in> set ?T" for t td
    using that assms(1) by (fastforce dest!: canon_dict_entry map_of_SomeD simp: spec_ok_def tasks_closed_def)
  have key_ok: "\<forall>t \<in> set ?ids. tdid_ok t"
    using assms(1) by (auto simp: spec_ok_def taskdef_wf_def)
  have keys: "dict_keys (map ?jt ?T) = map (\<lambda>t. PyStr (tdid_value t)) ?ids"
    by (simp only: dict_keys_map_pair dict_keys_canon)
  have dist: "distinct ?ids" using assms(1) by (simp add: spec_ok_def tasks_closed_def tasks_ok_def)
  note ids = deser_ids_loop [OF key_ok dist, folded keys]
  have "foldE (\<lambda>e. (\<lambda>(k, t_data) tasks. bindE (expect_str k) (\<lambda>t_id_str.
      bindE (deser_task ?ids t_id_str t_data) (\<lambda>(t_id, task). Inr (dict_set t_id task tasks)))) (?jt e)) ?T [] =
    Inr (map (\<lambda>e. (fst e, canon_task (snd e))) ?T)"
    by (rule foldE_build_dict) (use entry deser_task_json dist in \<open>auto simp: split_beta\<close>)
  then have tasks: "foldE (\<lambda>(k, t_data) tasks. bindE (expect_str k) (\<lambda>t_id_str.
      bindE (deser_task ?ids t_id_str t_data) (\<lambda>(t_id, task). Inr (dict_set t_id task tasks)))) (map ?jt ?T) [] =
    Inr (vs_tasks (canon_spec s))"
    by (simp add: foldE_map canon_spec_def split_beta)
  have out: "deser_output ?ids (serialize_output b) = Inr b" if "(n, b) \<in> set ?O" for n b
  proof (rule deser_output_json)
    have "(n, b) \<in> set (vs_output_bindings s)" using that by (auto dest!: canon_dict_entry map_of_SomeD)
    then have "source_task_id b \<in> set (dict_keys (vs_tasks s))" using assms(1) by (auto simp: spec_ok_def)
    then show "source_task_id b \<in> set ?ids" by simp
    with key_ok show "tdid_ok (source_task_id b)" by blast
  qed
  have "foldE (\<lambda>e. (\<lambda>(o_k, o_v) outputs. bindE (expect_str o_k) (\<lambda>n. bindE (deser_output ?ids o_v) (\<lambda>ob.
      Inr (dict_set n ob outputs)))) (PyStr (fst e), serialize_output (snd e))) ?O [] =
    Inr (map (\<lambda>e. (fst e, snd e)) ?O)"
    by (rule foldE_build_dict) (use out assms(1) in \<open>auto simp: spec_ok_def\<close>)
  then have outs: "foldE (\<lambda>(o_k, o_v) outputs. bindE (expect_str o_k) (\<lambda>n. bindE (deser_output ?ids o_v) (\<lambda>ob.
      Inr (dict_set n ob outputs)))) (map (\<lambda>(n, b). (PyStr n, serialize_output b)) ?O) [] =
    Inr (vs_output_bindings (canon_spec s))"
    by (simp add: foldE_map canon_spec_def split_beta)
  have closed: "tasks_closed (vs_tasks (canon_spec s))" and "acyclic (task_rel (vs_tasks (canon_spec s)))"
    using assms(1) by (simp_all add: spec_ok_def canon_tasks_closed canon_task_rel)
  with build_graph_result [OF closed] obtain g where
    graph: "build_canonical_graph_and_verify_acyclic (vs_tasks (canon_spec s)) = Inr (g, [])" by auto
  have "length (map ?jt ?T) = length (vs_tasks s)" by (simp add: canon_dict_def)
  then have ne: "map ?jt ?T \<noteq> []" using assms(1) by (auto simp: spec_ok_def)
  define raw_tasks where "raw_tasks = map ?jt ?T"
  define raw_outs where "raw_outs = map (\<lambda>(n, b). (PyStr n, serialize_output b)) ?O"
  note folded = ids [folded raw_tasks_def] tasks [folded raw_tasks_def] outs [folded raw_outs_def]
    ne [folded raw_tasks_def]
  have guard: "guard_integrity True = Inr ()" by (simp add: guard_integrity_def)
  show "deserialize_validated_spec (spec_json s) = Inr (canon_spec s)"
    unfolding deserialize_validated_spec_def deser_spec_def spec_json_def
      raw_tasks_def [symmetric] raw_outs_def [symmetric]
    using assms(2) by (simp add: folded graph guard) (simp add: canon_spec_def)
qed

text \<open>Equal specifications are stored the same, so they get the same fingerprint.\<close>

lemma canon_dict_cong:
  assumes "map_of d = map_of d'" and "dict_ok d" and "dict_ok d'"
  shows "canon_dict d = canon_dict d'"
proof -
  have "set (dict_keys d) = set (dict_keys d')" using assms(1) by (metis dom_map_of_conv_image_fst image_set)
  then have "sort (dict_keys d) = sort (dict_keys d')" using assms by (intro sort_cong_set)
  then show ?thesis by (simp add: canon_dict_def assms(1))
qed

lemma task_json_cong:
  assumes "same_task td td'" and "taskdef_wf td" and "taskdef_wf td'"
  shows "task_json t td = task_json t td'"
proof -
  have "sort (td_dependencies td) = sort (td_dependencies td')"
    using assms by (intro sort_cong_set) (auto simp: same_task_def taskdef_wf_def)
  moreover have "canon_dict (td_input_bindings td) = canon_dict (td_input_bindings td')"
    using assms by (intro canon_dict_cong) (auto simp: same_task_def taskdef_wf_def)
  ultimately show ?thesis
    using assms(1) by (simp add: task_json_def bindings_json_def same_task_def flip: map_tdid_value_sort)
qed

lemma spec_json_cong:
  assumes "same_spec s s'" and "spec_ok s" and "spec_ok s'"
  shows "spec_json s = spec_json s'"
proof -
  have rel: "rel_option same_task (map_of (vs_tasks s) t) (map_of (vs_tasks s') t)" for t
    using assms(1) by (simp add: same_spec_def)
  have "set (dict_keys (vs_tasks s)) = set (dict_keys (vs_tasks s'))"
  proof -
    have "map_of (vs_tasks s) t = None \<longleftrightarrow> map_of (vs_tasks s') t = None" for t
      using rel [of t] by (cases "map_of (vs_tasks s) t"; cases "map_of (vs_tasks s') t") auto
    then show ?thesis by (metis (no_types, lifting) map_of_eq_None_iff set_map subsetI subset_antisym)
  qed
  then have keys: "sort (dict_keys (vs_tasks s)) = sort (dict_keys (vs_tasks s'))"
    using assms(2,3) by (intro sort_cong_set) (auto simp: spec_ok_def tasks_closed_def tasks_ok_def)
  have "task_json t (the (map_of (vs_tasks s) t)) = task_json t (the (map_of (vs_tasks s') t))"
    if "t \<in> set (dict_keys (vs_tasks s))" for t
  proof -
    from that obtain td where td: "map_of (vs_tasks s) t = Some td"
      by (metis map_of_eq_None_iff not_Some_eq set_map)
    with rel [of t] obtain td' where td': "map_of (vs_tasks s') t = Some td'" "same_task td td'"
      by (cases "map_of (vs_tasks s') t") auto
    have "taskdef_wf td" "taskdef_wf td'"
      using map_of_SomeD [OF td] map_of_SomeD [OF td'(1)] assms(2,3) by (auto simp: spec_ok_def)
    with td td' task_json_cong show ?thesis by simp
  qed
  then have "map (\<lambda>(t, td). (PyStr (tdid_value t), task_json t td)) (canon_dict (vs_tasks s)) =
      map (\<lambda>(t, td). (PyStr (tdid_value t), task_json t td)) (canon_dict (vs_tasks s'))"
    by (simp add: canon_dict_def flip: keys)
  moreover have "canon_dict (vs_output_bindings s) = canon_dict (vs_output_bindings s')"
    using assms by (intro canon_dict_cong) (auto simp: same_spec_def spec_ok_def)
  ultimately show ?thesis using assms(1) by (simp add: spec_json_def same_spec_def)
qed

end
