(* ===== verification/Definition_Properties.thy ===== *)
theory Definition_Properties
  imports Yaml_Parser Normalizer Spec_Codec
begin

text \<open>
  What the definition pipeline guarantees, from the document a client submits to the durable
  specification the scheduler reads back: \<open>parser.py\<close>, \<open>normalizer.py\<close>,
  \<open>validator.py\<close>, \<open>graph.py\<close>, \<open>codec.py\<close> and \<open>fingerprint.py\<close> composed.
\<close>

section \<open>A definition to run the pipeline on\<close>

text \<open>Two tasks, the second fed by the first, and one workflow output.\<close>

definition sample_dto :: workflow_definition_dto where
  "sample_dto = \<lparr>wdto_workflow_name = ''w'',
     wdto_tasks =
       [(''b'', \<lparr>tdto_activity_type = ''act'', tdto_dependencies = [''a''],
                tdto_input_bindings = [(''x'', TaskOutputBindingDTO ''a'')], tdto_max_attempts = 2\<rparr>),
        (''a'', \<lparr>tdto_activity_type = ''act'', tdto_dependencies = [],
                tdto_input_bindings = [(''l'', LiteralBindingDTO (PyList [PyInt 1]))], tdto_max_attempts = 1\<rparr>)],
     wdto_output_bindings = [(''out'', WorkflowTaskOutputBindingDTO ''b'')]\<rparr>"

abbreviation tid :: "string \<Rightarrow> task_definition_id" where
  "tid \<equiv> TaskDefinitionId"

definition sample_task_a :: task_definition where
  "sample_task_a = \<lparr>td_id = tid ''a'', td_activity_type = ActivityType ''act'', td_dependencies = [],
     td_input_bindings = [(''l'', LiteralBinding (PyTuple [PyInt 1]))], td_max_attempts = 1\<rparr>"

definition sample_task_b :: task_definition where
  "sample_task_b = \<lparr>td_id = tid ''b'', td_activity_type = ActivityType ''act'', td_dependencies = [tid ''a''],
     td_input_bindings = [(''x'', TaskOutputBinding (tid ''a''))], td_max_attempts = 2\<rparr>"

definition sample_candidate :: candidate_workflow_spec where
  "sample_candidate = \<lparr>cs_workflow_name = ''w'', cs_tasks = [sample_task_b, sample_task_a],
     cs_raw_dependencies = [(tid ''b'', [''a'']), (tid ''a'', [])],
     cs_output_bindings = [(''out'', WorkflowTaskOutputBinding (tid ''b''))]\<rparr>"

definition sample_spec :: validated_workflow_spec where
  "sample_spec = \<lparr>vs_workflow_name = ''w'', vs_tasks = [(tid ''b'', sample_task_b), (tid ''a'', sample_task_a)],
     vs_output_bindings = [(''out'', WorkflowTaskOutputBinding (tid ''b''))]\<rparr>"

definition sample_settings :: validator_settings where
  "sample_settings = \<lparr>max_attempts_admission_limit = 100, max_errors = 50\<rparr>"

lemmas sample_defs = sample_task_a_def sample_task_b_def sample_candidate_def sample_spec_def sample_settings_def

lemma sample_normalized: "normalize_workflow_dto sample_dto = Inr sample_candidate"
  by code_simp

lemma sample_dto_wf: "dto_wf sample_dto"
  by (simp add: dto_wf_def sample_dto_def)

lemma sample_candidate_wf: "candidate_wf sample_candidate"
  by (rule normalize_candidate_wf(1) [OF sample_normalized sample_dto_wf])

definition sample_graph :: canonical_graph where
  "sample_graph = \<lparr>g_nodes = [tid ''b'', tid ''a''],
     g_dependencies = [(tid ''b'', [tid ''a'']), (tid ''a'', [])],
     g_dependents = [(tid ''b'', []), (tid ''a'', [tid ''b''])]\<rparr>"

lemma sample_validated:
  "validate sample_settings sample_candidate = Inr
     \<lparr>vo_success = Some \<lparr>vdr_spec = sample_spec, vdr_graph = sample_graph\<rparr>, vo_errors = []\<rparr>"
  by code_simp

section \<open>Helpers\<close>

lemma validate_success_spec:
  assumes "candidate_wf c" and "validate cfg c = Inr out" and "vo_success out = Some r"
  shows "vdr_spec r = \<lparr>vs_workflow_name = cs_workflow_name c, vs_tasks = task_map_of c,
     vs_output_bindings = cs_output_bindings c\<rparr>"
proof -
  have "cs_tasks c \<noteq> []" using validate_success_iff(1) [OF assms(1), of cfg] assms(2,3) by blast
  moreover have "\<forall>task \<in> set (cs_tasks c). \<forall>d \<in> set (raw_of c task). name_ok d"
    using assms(1) by (auto simp: candidate_wf_def raw_of_def)
  note eq = validate_eq [OF this calculation, of cfg, unfolded assms(2)]
  show ?thesis
    using eq assms(3)
    by (cases "build_canonical_graph_and_verify_acyclic (task_map_of c)")
      (auto simp: failed_outcome_def promoted_def bindE_eq_Inr split: if_splits)
qed

section \<open>The pipeline\<close>



text \<open>
  C31. The semantic validator is sound and complete: it accepts a candidate exactly when it has a
  task, every rule of ADR-004 holds and its dependency relation has no cycle.
\<close>

theorem validator_accepts_iff:
  assumes "candidate_wf c"
  shows "(\<exists>out r. validate cfg c = Inr out \<and> vo_success out = Some r) \<longleftrightarrow>
     cs_tasks c \<noteq> [] \<and> rules_hold cfg c \<and> acyclic (task_rel (task_map_of c))"
  by (rule validate_success_iff(1) [OF assms])

theorem validator_accepts_iff_witness:
  "cs_tasks sample_candidate \<noteq> [] \<and> rules_hold sample_settings sample_candidate \<and>
     acyclic (task_rel (task_map_of sample_candidate))"
  using validator_accepts_iff [OF sample_candidate_wf, of sample_settings] sample_validated by auto

text \<open>
  The validator's interleaved error collection with its early returns is the plain list of all
  diagnostics, cut at the configured maximum; graph construction runs only when there are none.
\<close>

theorem validator_reports_first_diagnostics:
  assumes "candidate_wf c" and "cs_tasks c \<noteq> []"
  shows "validate cfg c =
    (if diagnostics cfg c \<noteq> []
     then Inr \<lparr>vo_success = None, vo_errors = take (nat (max 1 (max_errors cfg))) (diagnostics cfg c)\<rparr>
     else bindE (build_canonical_graph_and_verify_acyclic (task_map_of c)) (\<lambda>(graph, cycle_errors).
       if cycle_errors \<noteq> []
       then Inr \<lparr>vo_success = None, vo_errors = map (\<lambda>m. mk_error CYCLE_DETECTED m ''tasks'') cycle_errors\<rparr>
       else Inr (promoted c graph)))"
proof -
  have "\<forall>task \<in> set (cs_tasks c). \<forall>d \<in> set (raw_of c task). name_ok d"
    using assms(1) by (auto simp: candidate_wf_def raw_of_def)
  from validate_eq [OF this assms(2)] show ?thesis by (simp only: failed_outcome_def)
qed

theorem validator_reports_first_diagnostics_witness:
  "diagnostics sample_settings sample_candidate = [] \<and>
     validate sample_settings sample_candidate =
       bindE (build_canonical_graph_and_verify_acyclic (task_map_of sample_candidate)) (\<lambda>(graph, cycle_errors).
       if cycle_errors \<noteq> []
       then Inr \<lparr>vo_success = None, vo_errors = map (\<lambda>m. mk_error CYCLE_DETECTED m ''tasks'') cycle_errors\<rparr>
       else Inr (promoted sample_candidate graph))"
proof -
  have d: "diagnostics sample_settings sample_candidate = []" by code_simp
  have "cs_tasks sample_candidate \<noteq> []" by (simp add: sample_candidate_def)
  from d validator_reports_first_diagnostics [OF sample_candidate_wf this, of sample_settings] show ?thesis by simp
qed

text \<open>
  Validation of a well-formed candidate always returns, with at most the configured number of
  errors, and with an error exactly when there is no specification.
\<close>

theorem validator_errors_bounded:
  assumes "candidate_wf c"
  shows "\<exists>out. validate cfg c = Inr out \<and> (vo_success out = None \<longleftrightarrow> vo_errors out \<noteq> []) \<and>
     int (length (vo_errors out)) \<le> max 1 (max_errors cfg)"
  by (rule validate_success_iff(3) [OF assms])

theorem validator_errors_bounded_witness:
  "\<exists>out. validate sample_settings sample_candidate = Inr out \<and> (vo_success out = None \<longleftrightarrow> vo_errors out \<noteq> []) \<and>
     int (length (vo_errors out)) \<le> 50"
  using validator_errors_bounded [OF sample_candidate_wf, of sample_settings] by (simp add: sample_settings_def)

section \<open>The stored form\<close>

lemma sample_spec_ok: "spec_ok sample_spec"
  using validate_success_iff(2) [OF sample_candidate_wf sample_validated] by simp

text \<open>
  C33. Round trip of the codec: a valid specification serialises, and what it serialises to
  deserialises to the same specification, its mappings sorted.
\<close>

theorem codec_round_trip:
  assumes "spec_ok s" and "vs_workflow_name s \<noteq> []"
  shows "bindE (serialize_validated_spec s) deserialize_validated_spec = Inr (canon_spec s) \<and>
     same_spec s (canon_spec s)"
  using deserialize_serialize [OF assms] same_spec_canon by simp

theorem codec_round_trip_witness:
  "bindE (serialize_validated_spec sample_spec) deserialize_validated_spec = Inr (canon_spec sample_spec)"
proof -
  have "vs_workflow_name sample_spec \<noteq> []" by (simp add: sample_spec_def)
  from codec_round_trip [OF sample_spec_ok this] show ?thesis by simp
qed

text \<open>
  C32. Reading is fail-closed: whatever document the database returns, a specification that
  deserialises is semantically valid, with a non-empty name, and any other document is refused
  with the integrity error and nothing else.
\<close>

theorem codec_fail_closed:
  "case deserialize_validated_spec data of
     Inr spec \<Rightarrow> spec_ok spec \<and> vs_workflow_name spec \<noteq> []
   | Inl e \<Rightarrow> e = PersistenceIntegrityError"
proof (cases "deserialize_validated_spec data")
  case (Inr spec)
  with deserialize_fail_closed show ?thesis by auto
next
  case (Inl e)
  then show ?thesis by (auto simp: deserialize_validated_spec_def split: sum.splits)
qed

text \<open>
  C36. The registration fingerprint of a valid specification does not depend on the order in which
  the client wrote its mappings and dependencies: equal specifications have equal fingerprints,
  whatever JSON encoder and digest are used.
\<close>

theorem fingerprint_order_independent:
  assumes "same_spec s s'" and "spec_ok s" and "spec_ok s'"
  shows "bindE (serialize_validated_spec s) (compute_registration_fingerprint dumps sha256_hex) =
     bindE (serialize_validated_spec s') (compute_registration_fingerprint dumps sha256_hex)"
  using serialize_spec_json [OF assms(2)] serialize_spec_json [OF assms(3)] spec_json_cong [OF assms] by simp

text \<open>The same specification with its tasks in the other order.\<close>

theorem fingerprint_order_independent_witness:
  "bindE (serialize_validated_spec sample_spec)
       (compute_registration_fingerprint (\<lambda>v. Inr (case v of PyDict es \<Rightarrow> replicate (length es) CHR ''x'' | _ \<Rightarrow> []))
          (\<lambda>s. replicate 64 CHR ''0'' @ drop 3 s)) =
     bindE (serialize_validated_spec (canon_spec sample_spec))
       (compute_registration_fingerprint (\<lambda>v. Inr (case v of PyDict es \<Rightarrow> replicate (length es) CHR ''x'' | _ \<Rightarrow> []))
          (\<lambda>s. replicate 64 CHR ''0'' @ drop 3 s)) \<and>
     vs_tasks (canon_spec sample_spec) \<noteq> vs_tasks sample_spec"
proof
  have "vs_workflow_name sample_spec \<noteq> []" by (simp add: sample_spec_def)
  from deserialize_fail_closed(1) [OF deserialize_serialize(2) [OF sample_spec_ok this]]
  have "spec_ok (canon_spec sample_spec)" .
  from fingerprint_order_independent [OF same_spec_canon sample_spec_ok this]
  show "bindE (serialize_validated_spec sample_spec)
       (compute_registration_fingerprint (\<lambda>v. Inr (case v of PyDict es \<Rightarrow> replicate (length es) CHR ''x'' | _ \<Rightarrow> []))
          (\<lambda>s. replicate 64 CHR ''0'' @ drop 3 s)) =
     bindE (serialize_validated_spec (canon_spec sample_spec))
       (compute_registration_fingerprint (\<lambda>v. Inr (case v of PyDict es \<Rightarrow> replicate (length es) CHR ''x'' | _ \<Rightarrow> []))
          (\<lambda>s. replicate 64 CHR ''0'' @ drop 3 s))" .
  show "vs_tasks (canon_spec sample_spec) \<noteq> vs_tasks sample_spec" by code_simp
qed

section \<open>The graph\<close>

text \<open>
  C34. Kahn's reduction decides acyclicity: over tasks whose dependencies exist, the graph is built
  with the declared nodes and edges, and there is an error exactly when the dependency relation
  has a cycle; its message names, sorted, the tasks the reduction never reached.
\<close>

theorem cycle_detection_exact:
  assumes "tasks_closed tasks"
  shows "\<exists>g errs. build_canonical_graph_and_verify_acyclic tasks = Inr (g, errs) \<and> graph_ok g \<and>
     g_nodes g = dict_keys tasks \<and>
     (\<forall>n. set (get_upstream_dependencies g n) = task_deps tasks n) \<and>
     (if acyclic (task_rel tasks) then errs = []
      else errs = [''Graph contains a cycle involving tasks: '' @ py_join '', ''
             (sort (map tdid_value (filter (\<lambda>t. t \<in> blocked_tasks tasks) (dict_keys tasks))))])"
  by (rule build_graph_result [OF assms])

theorem cycle_detection_exact_witness:
  "\<exists>g errs. build_canonical_graph_and_verify_acyclic (vs_tasks sample_spec) = Inr (g, errs) \<and>
     g_nodes g = [tid ''b'', tid ''a''] \<and> errs = []"
proof -
  have c: "tasks_closed (vs_tasks sample_spec)" and a: "acyclic (task_rel (vs_tasks sample_spec))"
    using sample_spec_ok by (simp_all add: spec_ok_def)
  from cycle_detection_exact [OF c] a show ?thesis by (auto simp: sample_spec_def)
qed

text \<open>
  C35. The deterministic order: for any well-formed graph the computation returns, each task after
  all it depends on, each once, and every task is there exactly when the graph is acyclic.
\<close>

theorem topological_order_correct:
  assumes "graph_ok g"
  shows "\<exists>order. compute_deterministic_topological_order g = Inr order \<and> distinct order \<and>
     set order \<subseteq> set (g_nodes g) \<and>
     topo_sorted (\<lambda>n. set (get_upstream_dependencies g n)) order \<and>
     (set order = set (g_nodes g) \<longleftrightarrow>
        acyclic (dep_rel (g_nodes g) (\<lambda>n. set (get_upstream_dependencies g n))))"
  by (rule topological_order_result [OF assms])

lemma sample_graph_ok: "graph_ok sample_graph"
  using validate_success_iff(2) [OF sample_candidate_wf sample_validated] by simp

theorem topological_order_correct_witness:
  "\<exists>order. compute_deterministic_topological_order sample_graph = Inr order \<and> distinct order \<and>
     order = [tid ''a'', tid ''b'']"
proof -
  have "compute_deterministic_topological_order sample_graph = Inr [tid ''a'', tid ''b'']" by code_simp
  with topological_order_correct [OF sample_graph_ok] show ?thesis by auto
qed

text \<open>
  The order is deterministic: it does not depend on how the sets of the graph are enumerated.
\<close>

theorem topological_order_deterministic:
  assumes "graph_ok g" and "graph_ok h" and "same_graph g h"
  shows "compute_deterministic_topological_order g = compute_deterministic_topological_order h"
  by (rule topological_order_cong [OF assms])

definition sample_graph' :: canonical_graph where
  "sample_graph' = \<lparr>g_nodes = [tid ''a'', tid ''b''],
     g_dependencies = [(tid ''a'', []), (tid ''b'', [tid ''a''])],
     g_dependents = [(tid ''a'', [tid ''b'']), (tid ''b'', [])]\<rparr>"

theorem topological_order_deterministic_witness:
  "compute_deterministic_topological_order sample_graph = compute_deterministic_topological_order sample_graph'"
proof -
  have "build_canonical_graph_and_verify_acyclic [(tid ''a'', sample_task_a), (tid ''b'', sample_task_b)] =
      Inr (sample_graph', [])" by code_simp
  moreover have "tasks_closed [(tid ''a'', sample_task_a), (tid ''b'', sample_task_b)]"
    by (auto simp: tasks_closed_def tasks_ok_def sample_defs)
  ultimately have "graph_ok sample_graph'" using build_graph_result by fastforce
  moreover have "same_graph sample_graph sample_graph'"
    by (auto simp: same_graph_def sample_graph_def sample_graph'_def get_upstream_dependencies_def
        get_downstream_dependents_def)
  ultimately show ?thesis using topological_order_deterministic [OF sample_graph_ok] by blast
qed

section \<open>The boundary\<close>

text \<open>
  C37. The YAML complexity walk, with its running counter and its early exits, admits exactly the
  trees of at most the allowed depth and size that carry no anchor and no alias.
\<close>

theorem yaml_complexity_exact:
  "enforce_yaml_ast_complexity p n =
     (if yaml_within (cp_max_depth p) n \<and> yaml_size n \<le> cp_max_nodes p \<and>
         (cp_allow_aliases p \<or> yaml_plain n)
      then Inr () else Inl YamlComplexityError)"
  by (rule enforce_complexity_eq)

text \<open>
  What parsing lets through: for any YAML library, a document is parsed exactly when its
  UTF-8 size, its depth and its node count are within the limits, it composes to a mapping
  without anchors and aliases, and loading it gives a dictionary.
\<close>

theorem parser_admits_iff:
  "parse_yaml_to_ast compose load s max_bytes max_depth max_nodes = Inr data \<longleftrightarrow>
     utf8_length s \<le> max_bytes \<and>
     (\<exists>m kvs. compose s = Some (Some (MappingNode m kvs)) \<and>
        yaml_within max_depth (MappingNode m kvs) \<and> yaml_size (MappingNode m kvs) \<le> max_nodes \<and>
        yaml_plain (MappingNode m kvs)) \<and>
     load s = Some data \<and> (\<exists>es. data = PyDict es)"
  by (rule parse_yaml_Inr_iff)

text \<open>
  Freezing and thawing JSON: what freezing returns is immutable throughout, thawing it gives
  JSON-native data, and freezing that again gives the same frozen value.
\<close>

theorem freeze_thaw_round_trip:
  assumes "freeze_json v = Inr w"
  shows "frozen w \<and> (\<exists>u. thaw_json w = Inr u \<and> native u \<and> freeze_json u = Inr w)"
  using freeze_json_frozen [OF assms] thaw_frozen native_unfreeze freeze_unfreeze by blast

theorem freeze_thaw_round_trip_witness:
  "frozen (PyProxy [(PyStr ''k'', PyTuple [PyInt 1])]) \<and>
     (\<exists>u. thaw_json (PyProxy [(PyStr ''k'', PyTuple [PyInt 1])]) = Inr u \<and> native u)"
proof -
  have "freeze_json (PyDict [(PyStr ''k'', PyList [PyInt 1])]) = Inr (PyProxy [(PyStr ''k'', PyTuple [PyInt 1])])"
    by code_simp
  from freeze_thaw_round_trip [OF this] show ?thesis by blast
qed

end
