(* ===== verification/Domain_Enums.thy ===== *)
theory Domain_Enums
  imports Nexus_Prelude
begin

text \<open>
  The enumerations of \<open>src/nexusflow/domain/enums.py\<close>, with the text each value stands for
  (they are \<open>StrEnum\<close>s, and the database columns hold that text).
\<close>

datatype workflow_state =
  WF_INITIALIZING | WF_RUNNING | WF_FAILING | WF_CANCELLING | WF_SUCCEEDED | WF_FAILED | WF_CANCELLED

datatype task_state =
  TS_PENDING | TS_RUNNABLE | TS_RUNNING | TS_RETRY_WAIT | TS_SUCCEEDED | TS_FAILED | TS_CANCELLED

datatype attempt_state =
  AS_CLAIMED | AS_RUNNING | AS_SUCCEEDED | AS_FAILED | AS_CANCELLED

datatype failure_category =
    CLIENT_INPUT | VALIDATION | DOMAIN_CONFLICT | DOMAIN_EXECUTION | TIME_BASED
  | WORKER_AVAILABILITY | SYSTEM_TRANSIENT | SYSTEM_PERMANENT | CONCURRENCY | INTEGRITY
  | UNKNOWN_OUTCOME | SECURITY

datatype public_permission =
  DEFINITIONS_READ | DEFINITIONS_WRITE | EXECUTIONS_READ | EXECUTIONS_START | EXECUTIONS_CANCEL

datatype principal_type = PUBLIC_CLIENT | WORKER

fun workflow_state_str :: "workflow_state \<Rightarrow> string" where
  "workflow_state_str WF_INITIALIZING = ''INITIALIZING''"
| "workflow_state_str WF_RUNNING = ''RUNNING''"
| "workflow_state_str WF_FAILING = ''FAILING''"
| "workflow_state_str WF_CANCELLING = ''CANCELLING''"
| "workflow_state_str WF_SUCCEEDED = ''SUCCEEDED''"
| "workflow_state_str WF_FAILED = ''FAILED''"
| "workflow_state_str WF_CANCELLED = ''CANCELLED''"

fun task_state_str :: "task_state \<Rightarrow> string" where
  "task_state_str TS_PENDING = ''PENDING''"
| "task_state_str TS_RUNNABLE = ''RUNNABLE''"
| "task_state_str TS_RUNNING = ''RUNNING''"
| "task_state_str TS_RETRY_WAIT = ''RETRY_WAIT''"
| "task_state_str TS_SUCCEEDED = ''SUCCEEDED''"
| "task_state_str TS_FAILED = ''FAILED''"
| "task_state_str TS_CANCELLED = ''CANCELLED''"

fun attempt_state_str :: "attempt_state \<Rightarrow> string" where
  "attempt_state_str AS_CLAIMED = ''CLAIMED''"
| "attempt_state_str AS_RUNNING = ''RUNNING''"
| "attempt_state_str AS_SUCCEEDED = ''SUCCEEDED''"
| "attempt_state_str AS_FAILED = ''FAILED''"
| "attempt_state_str AS_CANCELLED = ''CANCELLED''"

fun failure_category_str :: "failure_category \<Rightarrow> string" where
  "failure_category_str CLIENT_INPUT = ''CLIENT_INPUT''"
| "failure_category_str VALIDATION = ''VALIDATION''"
| "failure_category_str DOMAIN_CONFLICT = ''DOMAIN_CONFLICT''"
| "failure_category_str DOMAIN_EXECUTION = ''DOMAIN_EXECUTION''"
| "failure_category_str TIME_BASED = ''TIME_BASED''"
| "failure_category_str WORKER_AVAILABILITY = ''WORKER_AVAILABILITY''"
| "failure_category_str SYSTEM_TRANSIENT = ''SYSTEM_TRANSIENT''"
| "failure_category_str SYSTEM_PERMANENT = ''SYSTEM_PERMANENT''"
| "failure_category_str CONCURRENCY = ''CONCURRENCY''"
| "failure_category_str INTEGRITY = ''INTEGRITY''"
| "failure_category_str UNKNOWN_OUTCOME = ''UNKNOWN_OUTCOME''"
| "failure_category_str SECURITY = ''SECURITY''"

text \<open>\<open>FailureCategory(text)\<close> raises \<open>ValueError\<close> on any other text.\<close>

definition mk_FailureCategory :: "string \<Rightarrow> py_exn + failure_category" where
  "mk_FailureCategory s =
     (case find (\<lambda>c. failure_category_str c = s)
        [CLIENT_INPUT, VALIDATION, DOMAIN_CONFLICT, DOMAIN_EXECUTION, TIME_BASED,
         WORKER_AVAILABILITY, SYSTEM_TRANSIENT, SYSTEM_PERMANENT, CONCURRENCY, INTEGRITY,
         UNKNOWN_OUTCOME, SECURITY] of
        None \<Rightarrow> Inl ValueError | Some c \<Rightarrow> Inr c)"

lemma mk_FailureCategory_str [simp]: "mk_FailureCategory (failure_category_str c) = Inr c"
  by (cases c) (simp_all add: mk_FailureCategory_def)

text \<open>Times are microseconds since the epoch, as Python's and PostgreSQL's timestamps resolve.\<close>

type_synonym datetime = int

definition timedelta_seconds :: "int \<Rightarrow> datetime" where
  "timedelta_seconds s = s * 1000000"

abbreviation wf_terminal :: "workflow_state \<Rightarrow> bool" where
  "wf_terminal s \<equiv> s \<in> {WF_SUCCEEDED, WF_FAILED, WF_CANCELLED}"

abbreviation wf_draining :: "workflow_state \<Rightarrow> bool" where
  "wf_draining s \<equiv> s \<in> {WF_FAILING, WF_CANCELLING}"

abbreviation ts_terminal :: "task_state \<Rightarrow> bool" where
  "ts_terminal s \<equiv> s \<in> {TS_SUCCEEDED, TS_FAILED, TS_CANCELLED}"

abbreviation ts_unstarted :: "task_state \<Rightarrow> bool" where
  "ts_unstarted s \<equiv> s \<in> {TS_PENDING, TS_RUNNABLE, TS_RETRY_WAIT}"

abbreviation as_terminal :: "attempt_state \<Rightarrow> bool" where
  "as_terminal s \<equiv> s \<in> {AS_SUCCEEDED, AS_FAILED, AS_CANCELLED}"

abbreviation as_active :: "attempt_state \<Rightarrow> bool" where
  "as_active s \<equiv> s \<in> {AS_CLAIMED, AS_RUNNING}"

lemma as_active_not_terminal: "as_active s \<longleftrightarrow> \<not> as_terminal s"
  by (cases s) auto

end
