(* ===== verification/Failure_Policy.thy ===== *)
theory Failure_Policy
  imports Domain_Enums Json_Compat
begin

text \<open>
  The engine's failure policy, \<open>src/nexusflow/domain/failure.py\<close>: the classification of a
  worker's failure report and the retry rule.
\<close>

record worker_failure_report =
  wr_error_code :: string
  wr_error_message :: string
  wr_details :: "pyval option"

record failure_cause =
  fc_category :: failure_category
  fc_code :: string
  fc_message :: string
  fc_details :: "pyval option"

definition evaluate_retry_eligibility :: "int \<Rightarrow> int \<Rightarrow> bool \<Rightarrow> string \<Rightarrow> bool" where
  "evaluate_retry_eligibility next_attempt_ordinal max_attempts is_classified_retryable workflow_state =
     (if workflow_state \<noteq> ''RUNNING'' then False
      else if \<not> is_classified_retryable then False
      else next_attempt_ordinal \<le> max_attempts)"

text \<open>The category and retryability of an upper-cased code.\<close>

definition classify_code :: "string \<Rightarrow> failure_category \<times> bool" where
  "classify_code u =
     (if list_ex (\<lambda>k. py_contains k u)
           [''TRANSIENT'', ''IO_ERROR'', ''NETWORK'', ''CONNECTION'', ''SOCKET'', ''OSERROR'', ''TIMEOUT'']
      then (SYSTEM_TRANSIENT, True)
      else if py_contains ''UNAVAILABLE'' u \<or> py_contains ''CRASH'' u then (WORKER_AVAILABILITY, True)
      else if py_contains ''TIMEOUT'' u \<or> py_contains ''DEADLINE'' u then (TIME_BASED, True)
      else if py_contains ''VALIDATION'' u \<or> py_contains ''BAD_INPUT'' u then (VALIDATION, False)
      else if py_contains ''SECURITY'' u \<or> py_contains ''UNAUTHORIZED'' u then (SECURITY, False)
      else if py_contains ''INTEGRITY'' u then (INTEGRITY, False)
      else (DOMAIN_EXECUTION, py_contains ''RETRY'' u))"

definition classify_worker_failure :: "worker_failure_report \<Rightarrow> failure_cause \<times> bool" where
  "classify_worker_failure report =
     (let code = (if wr_error_code report \<noteq> [] then py_strip (wr_error_code report)
                  else ''UNKNOWN_ERROR'');
          msg = (if wr_error_message report \<noteq> [] then py_strip (wr_error_message report)
                 else ''Activity failure reported by worker'');
          (category, retryable) = classify_code (py_upper code)
      in (\<lparr>fc_category = category, fc_code = code, fc_message = take 4096 msg,
           fc_details = wr_details report\<rparr>, retryable))"

section \<open>What the classification promises\<close>

lemma classify_retryable_iff:
  "snd (classify_code u) \<longleftrightarrow>
     fst (classify_code u) \<in> {SYSTEM_TRANSIENT, WORKER_AVAILABILITY, TIME_BASED} \<or>
     fst (classify_code u) = DOMAIN_EXECUTION \<and> py_contains ''RETRY'' u"
  by (simp add: classify_code_def split del: if_split) (simp split: if_split)

text \<open>
  A code that mentions a timeout is taken by the first rule, so the \<open>TIMEOUT\<close> test of the
  third rule never decides: only a deadline is ever classified as time based.
\<close>

lemma classify_timeout: "py_contains ''TIMEOUT'' u \<Longrightarrow> classify_code u = (SYSTEM_TRANSIENT, True)"
  by (simp add: classify_code_def)

lemma classify_time_based:
  "fst (classify_code u) = TIME_BASED \<Longrightarrow> py_contains ''DEADLINE'' u \<and> \<not> py_contains ''TIMEOUT'' u"
  by (simp add: classify_code_def split: if_splits)

lemma eligibility_iff:
  "evaluate_retry_eligibility n m r s \<longleftrightarrow> s = ''RUNNING'' \<and> r \<and> n \<le> m"
  by (simp add: evaluate_retry_eligibility_def)

end
