(* ===== verification/Execution_Entities.thy ===== *)
theory Execution_Entities
  imports Domain_Enums Failure_Policy Identifiers
begin

text \<open>
  The execution entities and their pure transitions, \<open>src/nexusflow/domain/execution.py\<close>,
  and the security context of \<open>domain/security.py\<close>.
\<close>

datatype output_presence = OutputAbsent | OutputCommitted pyval

datatype semantic_event =
    WORKFLOW_INITIALIZED | WORKFLOW_STARTED | WORKFLOW_INIT_FAILED | WORKFLOW_FAILING_BEGUN
  | WORKFLOW_CANCELLING_BEGUN | WORKFLOW_SUCCEEDED | WORKFLOW_FAILED | WORKFLOW_CANCELLED
  | TASK_INITIAL_RUNNABLE | TASK_RETRY_RUNNABLE | TASK_RUNNING_STARTED | TASK_SUCCEEDED
  | TASK_RETRY_WAITING | TASK_FAILED | TASK_DRAIN_CANCELLED | TASK_ATTEMPT_CANCELLED
  | ATTEMPT_START_OBSERVED | ATTEMPT_SUCCEEDED | ATTEMPT_FAILED | ATTEMPT_CANCELLED_SETTLED

text \<open>The result of a transition; the reason of a rejection is its text up to the state it names.\<close>

datatype 'e transition_result =
    TransitionApplied (applied_entity: 'e) semantic_event
  | TransitionRejected string
  | TransitionNoOp 'e string

section \<open>Workflow execution\<close>

record workflow_execution =
  we_id :: workflow_execution_id
  we_definition_id :: definition_id
  we_state :: workflow_state
  we_revision :: int
  we_workflow_input :: pyval
  we_output :: output_presence
  we_failure_cause :: "failure_cause option"
  we_created_at_utc :: "datetime option"
  we_updated_at_utc :: "datetime option"

definition we_is_terminal :: "workflow_execution \<Rightarrow> bool" where
  "we_is_terminal w = (we_state w \<in> {WF_SUCCEEDED, WF_FAILED, WF_CANCELLED})"

definition we_is_draining :: "workflow_execution \<Rightarrow> bool" where
  "we_is_draining w = (we_state w \<in> {WF_FAILING, WF_CANCELLING})"

definition begin_running :: "workflow_execution \<Rightarrow> workflow_execution transition_result" where
  "begin_running w =
     (if we_state w \<noteq> WF_INITIALIZING
      then TransitionRejected (''Cannot transition to RUNNING from state '' @ workflow_state_str (we_state w))
      else TransitionApplied (w\<lparr>we_state := WF_RUNNING\<rparr>) WORKFLOW_STARTED)"

definition complete_success ::
  "workflow_execution \<Rightarrow> pyval \<Rightarrow> workflow_execution transition_result" where
  "complete_success w output_value =
     (if we_state w \<noteq> WF_RUNNING
      then TransitionRejected (''Cannot succeed workflow in state '' @ workflow_state_str (we_state w))
      else TransitionApplied
             (w\<lparr>we_state := WF_SUCCEEDED, we_output := OutputCommitted output_value,
                 we_failure_cause := None\<rparr>) WORKFLOW_SUCCEEDED)"

section \<open>Task execution\<close>

record task_execution =
  te_id :: task_execution_id
  te_workflow_execution_id :: workflow_execution_id
  te_task_definition_id :: task_definition_id
  te_state :: task_state
  te_revision :: int
  te_stable_input :: "pyval option"
  te_output :: output_presence
  te_max_attempts :: int
  te_next_attempt_ordinal :: int
  te_retry_ready_at_utc :: "datetime option"
  te_terminal_failure_cause :: "failure_cause option"

definition te_is_terminal :: "task_execution \<Rightarrow> bool" where
  "te_is_terminal t = (te_state t \<in> {TS_SUCCEEDED, TS_FAILED, TS_CANCELLED})"

definition mark_initially_runnable ::
  "task_execution \<Rightarrow> pyval \<Rightarrow> task_execution transition_result" where
  "mark_initially_runnable task resolved_input =
     (if te_state task \<noteq> TS_PENDING
      then TransitionRejected (''Cannot mark initially RUNNABLE from state '' @ task_state_str (te_state task))
      else TransitionApplied
             (task\<lparr>te_state := TS_RUNNABLE, te_stable_input := Some resolved_input,
                   te_retry_ready_at_utc := None\<rparr>) TASK_INITIAL_RUNNABLE)"

definition mark_running :: "task_execution \<Rightarrow> task_execution transition_result" where
  "mark_running task =
     (if te_state task \<noteq> TS_RUNNABLE
      then TransitionRejected (''Cannot mark RUNNING from state '' @ task_state_str (te_state task))
      else TransitionApplied (task\<lparr>te_state := TS_RUNNING\<rparr>) TASK_RUNNING_STARTED)"

definition mark_succeeded :: "task_execution \<Rightarrow> pyval \<Rightarrow> task_execution transition_result" where
  "mark_succeeded task output_value =
     (if te_state task \<noteq> TS_RUNNING
      then TransitionRejected (''Cannot mark SUCCEEDED from state '' @ task_state_str (te_state task))
      else TransitionApplied
             (task\<lparr>te_state := TS_SUCCEEDED, te_output := OutputCommitted output_value\<rparr>) TASK_SUCCEEDED)"

section \<open>Execution attempt\<close>

record execution_attempt =
  ea_id :: attempt_id
  ea_task_execution_id :: task_execution_id
  ea_attempt_ordinal :: int
  ea_worker_session_id :: worker_session_id
  ea_state :: attempt_state
  ea_revision :: int
  ea_start_deadline_utc :: datetime
  ea_execution_timeout_utc :: "datetime option"
  ea_cancellation_deadline_utc :: "datetime option"
  ea_terminal_failure_cause :: "failure_cause option"

definition ea_is_terminal :: "execution_attempt \<Rightarrow> bool" where
  "ea_is_terminal a = (ea_state a \<in> {AS_SUCCEEDED, AS_FAILED, AS_CANCELLED})"

definition observe_attempt_start ::
  "execution_attempt \<Rightarrow> datetime \<Rightarrow> execution_attempt transition_result" where
  "observe_attempt_start attempt now_utc =
     (if ea_state attempt \<noteq> AS_CLAIMED
      then TransitionRejected (''Cannot transition to RUNNING from state '' @ attempt_state_str (ea_state attempt))
      else if now_utc > ea_start_deadline_utc attempt
      then TransitionRejected ''Start deadline expired''
      else TransitionApplied (attempt\<lparr>ea_state := AS_RUNNING\<rparr>) ATTEMPT_START_OBSERVED)"

definition complete_attempt_success ::
  "execution_attempt \<Rightarrow> execution_attempt transition_result" where
  "complete_attempt_success attempt =
     (if ea_state attempt \<noteq> AS_RUNNING
      then TransitionRejected (''Cannot complete attempt in state '' @ attempt_state_str (ea_state attempt))
      else TransitionApplied (attempt\<lparr>ea_state := AS_SUCCEEDED\<rparr>) ATTEMPT_SUCCEEDED)"

section \<open>Worker session\<close>

record worker_session =
  ws_session_id :: worker_session_id
  ws_capabilities :: "activity_type list"
  ws_last_heartbeat_utc :: datetime
  ws_accepting_new_work :: bool

text \<open>The liveness timeout is a number of seconds; the elapsed time is in microseconds.\<close>

definition ws_is_live :: "worker_session \<Rightarrow> datetime \<Rightarrow> rat \<Rightarrow> bool" where
  "ws_is_live ws now_utc liveness_timeout_seconds =
     (of_int (now_utc - ws_last_heartbeat_utc ws) / 1000000 \<le> liveness_timeout_seconds)"

definition ws_is_eligible_for_routing :: "worker_session \<Rightarrow> datetime \<Rightarrow> rat \<Rightarrow> bool" where
  "ws_is_eligible_for_routing ws now_utc liveness_timeout_seconds =
     (ws_accepting_new_work ws \<and> ws_is_live ws now_utc liveness_timeout_seconds)"

section \<open>Security context\<close>

record security_context =
  principal_id :: string
  principal_kind :: principal_type
  permissions :: "public_permission list"

definition has_permission :: "security_context \<Rightarrow> public_permission \<Rightarrow> bool" where
  "has_permission ctx permission = (permission \<in> set (permissions ctx))"

section \<open>Transitions are guarded and never leave a terminal state\<close>

named_theorems entity_defs "the pure transitions of the entities"

lemmas workflow_transition_defs [entity_defs] = begin_running_def complete_success_def we_is_terminal_def
lemmas task_transition_defs [entity_defs] =
  mark_initially_runnable_def mark_running_def mark_succeeded_def te_is_terminal_def
lemmas attempt_transition_defs [entity_defs] =
  observe_attempt_start_def complete_attempt_success_def ea_is_terminal_def

lemma terminal_workflow_rejects:
  "we_is_terminal w \<Longrightarrow> \<exists>r. begin_running w = TransitionRejected r"
  "we_is_terminal w \<Longrightarrow> \<exists>r. complete_success w v = TransitionRejected r"
  by (auto simp: entity_defs)

lemma terminal_task_rejects:
  "te_is_terminal t \<Longrightarrow> \<exists>r. mark_initially_runnable t v = TransitionRejected r"
  "te_is_terminal t \<Longrightarrow> \<exists>r. mark_running t = TransitionRejected r"
  "te_is_terminal t \<Longrightarrow> \<exists>r. mark_succeeded t v = TransitionRejected r"
  by (auto simp: entity_defs)

lemma terminal_attempt_rejects:
  "ea_is_terminal a \<Longrightarrow> \<exists>r. observe_attempt_start a n = TransitionRejected r"
  "ea_is_terminal a \<Longrightarrow> \<exists>r. complete_attempt_success a = TransitionRejected r"
  by (auto simp: entity_defs)

lemma stable_input_frozen_after_pending:
  "mark_running t = TransitionApplied t' e \<Longrightarrow> te_stable_input t' = te_stable_input t"
  "mark_succeeded t v = TransitionApplied t' e \<Longrightarrow> te_stable_input t' = te_stable_input t"
  "mark_initially_runnable t v = TransitionApplied t' e \<Longrightarrow> te_state t = TS_PENDING"
  by (auto simp: entity_defs split: if_splits)

end
