(* ===== verification/Store.thy ===== *)
theory Store
  imports Execution_Entities Json_Compat
begin

text \<open>
  The durable store, \<open>src/nexusflow/persistence/orm.py\<close>: one record per table row, with the
  columns of the ORM class, and the tables as lists of rows. A state column holds the enumeration
  value its CHECK constraint admits. The statements the transactions issue (insert, conditional
  update, select by key) are functions on the store; a violated constraint is
  \<open>IntegrityError\<close>, and the caller's transaction is then rolled back as a whole.
\<close>

section \<open>Rendered values in payloads\<close>

definition hex_digit :: "nat \<Rightarrow> char" where
  "hex_digit d = (if d < 10 then char_of (48 + d) else char_of (87 + d))"

fun hex_fixed :: "nat \<Rightarrow> nat \<Rightarrow> string" where
  "hex_fixed 0 n = []"
| "hex_fixed (Suc w) n = hex_fixed w (n div 16) @ [hex_digit (n mod 16)]"

text \<open>\<open>str(uuid)\<close>: 32 hexadecimal digits in groups of 8, 4, 4, 4 and 12.\<close>

definition uuid_str :: "uuid \<Rightarrow> string" where
  "uuid_str u = (let h = hex_fixed 32 u in
     take 8 h @ ''-'' @ take 4 (drop 8 h) @ ''-'' @ take 4 (drop 12 h) @ ''-'' @
     take 4 (drop 16 h) @ ''-'' @ drop 20 h)"

fun dec_fixed :: "nat \<Rightarrow> nat \<Rightarrow> string" where
  "dec_fixed 0 n = []"
| "dec_fixed (Suc w) n = dec_fixed w (n div 10) @ [char_of (48 + n mod 10)]"

text \<open>Year, month and day of a day number counted from 1970-01-01 in the Gregorian calendar.\<close>

definition civil_from_days :: "int \<Rightarrow> int \<times> int \<times> int" where
  "civil_from_days z0 =
     (let z = z0 + 719468; era = z div 146097; doe = z - era * 146097;
          yoe = (doe - doe div 1460 + doe div 36524 - doe div 146096) div 365;
          doy = doe - (365 * yoe + yoe div 4 - yoe div 100);
          mp = (5 * doy + 2) div 153;
          d = doy - (153 * mp + 2) div 5 + 1;
          m = (if mp < 10 then mp + 3 else mp - 9)
      in (yoe + era * 400 + (if m \<le> 2 then 1 else 0), m, d))"

text \<open>\<open>datetime.isoformat()\<close> of a UTC time: the microseconds only when they are not zero.\<close>

definition isoformat :: "datetime \<Rightarrow> string" where
  "isoformat t =
     (let us = t mod 1000000; s = t div 1000000; sod = s mod 86400;
          (y, m, d) = civil_from_days (s div 86400)
      in dec_fixed 4 (nat y) @ ''-'' @ dec_fixed 2 (nat m) @ ''-'' @ dec_fixed 2 (nat d) @ ''T'' @
         dec_fixed 2 (nat (sod div 3600)) @ '':'' @ dec_fixed 2 (nat (sod div 60 mod 60)) @ '':'' @
         dec_fixed 2 (nat (sod mod 60)) @
         (if us = 0 then [] else ''.'' @ dec_fixed 6 (nat us)) @ ''+00:00'')"

section \<open>Rows\<close>

text \<open>
  A JSONB column is declared with \<open>none_as_null=True\<close>: writing \<open>None\<close> stores SQL NULL.
\<close>

definition jsonb :: "pyval \<Rightarrow> pyval option" where
  "jsonb v = (if v = PyNone then None else Some v)"

text \<open>The four nullable failure columns.\<close>

record failure_columns =
  failure_category_col :: "string option"
  failure_code_col :: "string option"
  failure_message_col :: "string option"
  failure_details_col :: "pyval option"

definition no_failure :: failure_columns where
  "no_failure = \<lparr>failure_category_col = None, failure_code_col = None, failure_message_col = None,
                 failure_details_col = None\<rparr>"

record definition_row =
  dr_definition_id :: definition_id
  dr_workflow_name :: string
  dr_validated_iws :: "pyval option"
  dr_raw_yaml :: "string option"
  dr_created_at_utc :: datetime

record workflow_row =
  wx_id :: workflow_execution_id
  wx_definition_id :: definition_id
  wx_state :: workflow_state
  wx_revision :: int
  wx_input :: "pyval option"
  wx_has_output :: bool
  wx_output :: "pyval option"
  wx_failure :: failure_columns
  wx_created_at_utc :: datetime
  wx_updated_at_utc :: datetime

record task_row =
  tx_id :: task_execution_id
  tx_workflow_id :: workflow_execution_id
  tx_task_definition_id :: string
  tx_state :: task_state
  tx_revision :: int
  tx_has_input :: bool
  tx_stable_input :: "pyval option"
  tx_has_output :: bool
  tx_output :: "pyval option"
  tx_max_attempts :: int
  tx_next_attempt_ordinal :: int
  tx_retry_ready_at_utc :: "datetime option"
  tx_failure :: failure_columns
  tx_created_at_utc :: datetime
  tx_updated_at_utc :: datetime

record attempt_row =
  ax_id :: attempt_id
  ax_task_id :: task_execution_id
  ax_ordinal :: int
  ax_worker_session_id :: worker_session_id
  ax_state :: attempt_state
  ax_revision :: int
  ax_start_deadline_utc :: datetime
  ax_execution_timeout_utc :: "datetime option"
  ax_cancellation_deadline_utc :: "datetime option"
  ax_failure :: failure_columns
  ax_created_at_utc :: datetime
  ax_updated_at_utc :: datetime

record history_row =
  hx_id :: history_entry_id
  hx_workflow_id :: workflow_execution_id
  hx_task_id :: "task_execution_id option"
  hx_attempt_id :: "attempt_id option"
  hx_event_category :: string
  hx_event_payload :: pyval
  hx_occurred_at_utc :: datetime

record idempotency_row =
  ix_operation_type :: string
  ix_idempotency_key :: string
  ix_request_fingerprint :: string
  ix_resource_id :: uuid
  ix_created_at_utc :: datetime

record db =
  db_definitions :: "definition_row list"
  db_workflows :: "workflow_row list"
  db_tasks :: "task_row list"
  db_attempts :: "attempt_row list"
  db_history :: "history_row list"
  db_idempotency :: "idempotency_row list"

definition empty_db :: db where
  "empty_db = \<lparr>db_definitions = [], db_workflows = [], db_tasks = [], db_attempts = [],
               db_history = [], db_idempotency = []\<rparr>"

section \<open>Constraints\<close>

definition presence_ok :: "bool \<Rightarrow> pyval option \<Rightarrow> bool" where
  "presence_ok flag v = (\<not> flag \<and> v = None \<or> flag \<and> v \<noteq> None)"

definition definition_row_ok :: "definition_row \<Rightarrow> bool" where
  "definition_row_ok r = (list_ex (\<lambda>c. c \<noteq> CHR '' '') (dr_workflow_name r) \<and> dr_validated_iws r \<noteq> None)"

definition workflow_row_ok :: "workflow_row \<Rightarrow> bool" where
  "workflow_row_ok r = (wx_revision r \<ge> 1 \<and> wx_input r \<noteq> None \<and>
     presence_ok (wx_has_output r) (wx_output r) \<and>
     (wx_state r \<noteq> WF_SUCCEEDED \<or> wx_has_output r))"

definition task_row_ok :: "task_row \<Rightarrow> bool" where
  "task_row_ok r = (tx_revision r \<ge> 1 \<and> tx_max_attempts r \<ge> 1 \<and> tx_next_attempt_ordinal r \<ge> 1 \<and>
     presence_ok (tx_has_input r) (tx_stable_input r) \<and>
     presence_ok (tx_has_output r) (tx_output r) \<and>
     (tx_state r \<noteq> TS_SUCCEEDED \<or> tx_has_output r))"

definition attempt_row_ok :: "attempt_row \<Rightarrow> bool" where
  "attempt_row_ok r = (ax_ordinal r \<ge> 1 \<and> ax_revision r \<ge> 1)"

definition idempotency_row_ok :: "idempotency_row \<Rightarrow> bool" where
  "idempotency_row_ok r = (ix_operation_type r \<in> {''REGISTER_DEFINITION'', ''START_EXECUTION''} \<and>
     length (ix_request_fingerprint r) = 64)"

text \<open>The partial unique index: the tasks of the active attempts, each once.\<close>

definition active_attempt_tasks :: "attempt_row list \<Rightarrow> task_execution_id list" where
  "active_attempt_tasks rows = map ax_task_id (filter (\<lambda>a. as_active (ax_state a)) rows)"

definition task_key :: "task_row \<Rightarrow> workflow_execution_id \<times> string" where
  "task_key r = (tx_workflow_id r, tx_task_definition_id r)"

definition attempt_key :: "attempt_row \<Rightarrow> task_execution_id \<times> int" where
  "attempt_key r = (ax_task_id r, ax_ordinal r)"

definition idempotency_key_of :: "idempotency_row \<Rightarrow> string \<times> string" where
  "idempotency_key_of r = (ix_operation_type r, ix_idempotency_key r)"

section \<open>Statements\<close>

definition require :: "bool \<Rightarrow> py_exn + unit" where
  "require c = (if c then Inr () else Inl IntegrityError)"

definition insert_definition :: "definition_row \<Rightarrow> db \<Rightarrow> py_exn + db" where
  "insert_definition r s =
     bindE (require (dr_definition_id r \<notin> set (map dr_definition_id (db_definitions s)) \<and>
                     definition_row_ok r)) (\<lambda>_.
     Inr (s\<lparr>db_definitions := db_definitions s @ [r]\<rparr>))"

definition insert_workflow :: "workflow_row \<Rightarrow> db \<Rightarrow> py_exn + db" where
  "insert_workflow r s =
     bindE (require (wx_id r \<notin> set (map wx_id (db_workflows s)) \<and> workflow_row_ok r \<and>
                     wx_definition_id r \<in> set (map dr_definition_id (db_definitions s)))) (\<lambda>_.
     Inr (s\<lparr>db_workflows := db_workflows s @ [r]\<rparr>))"

text \<open>\<open>ON CONFLICT (workflow_execution_id, task_definition_id) DO NOTHING\<close>.\<close>

definition insert_task_or_ignore :: "task_row \<Rightarrow> db \<Rightarrow> py_exn + db" where
  "insert_task_or_ignore r s =
     bindE (require (task_row_ok r)) (\<lambda>_.
     if task_key r \<in> set (map task_key (db_tasks s)) then Inr s
     else bindE (require (tx_id r \<notin> set (map tx_id (db_tasks s)) \<and>
                          tx_workflow_id r \<in> set (map wx_id (db_workflows s)))) (\<lambda>_.
          Inr (s\<lparr>db_tasks := db_tasks s @ [r]\<rparr>)))"

definition insert_attempt :: "attempt_row \<Rightarrow> db \<Rightarrow> py_exn + db" where
  "insert_attempt r s =
     bindE (require (ax_id r \<notin> set (map ax_id (db_attempts s)) \<and> attempt_row_ok r \<and>
                     ax_task_id r \<in> set (map tx_id (db_tasks s)) \<and>
                     attempt_key r \<notin> set (map attempt_key (db_attempts s)) \<and>
                     distinct (active_attempt_tasks (db_attempts s @ [r])))) (\<lambda>_.
     Inr (s\<lparr>db_attempts := db_attempts s @ [r]\<rparr>))"

definition insert_history :: "history_row \<Rightarrow> db \<Rightarrow> py_exn + db" where
  "insert_history r s =
     bindE (require (hx_id r \<notin> set (map hx_id (db_history s)) \<and>
                     hx_workflow_id r \<in> set (map wx_id (db_workflows s)) \<and>
                     (case hx_task_id r of None \<Rightarrow> True | Some t \<Rightarrow> t \<in> set (map tx_id (db_tasks s))) \<and>
                     (case hx_attempt_id r of None \<Rightarrow> True | Some a \<Rightarrow> a \<in> set (map ax_id (db_attempts s))))) (\<lambda>_.
     Inr (s\<lparr>db_history := db_history s @ [r]\<rparr>))"

text \<open>\<open>ON CONFLICT (operation_type, idempotency_key) DO NOTHING\<close>, with the row count.\<close>

definition insert_idempotency_or_ignore :: "idempotency_row \<Rightarrow> db \<Rightarrow> py_exn + db \<times> nat" where
  "insert_idempotency_or_ignore r s =
     bindE (require (idempotency_row_ok r)) (\<lambda>_.
     if idempotency_key_of r \<in> set (map idempotency_key_of (db_idempotency s)) then Inr (s, 0)
     else Inr (s\<lparr>db_idempotency := db_idempotency s @ [r]\<rparr>, 1))"

text \<open>\<open>UPDATE ... SET f WHERE P\<close>, with the row count.\<close>

definition update_rows :: "('r \<Rightarrow> bool) \<Rightarrow> ('r \<Rightarrow> 'r) \<Rightarrow> 'r list \<Rightarrow> 'r list" where
  "update_rows P f rows = map (\<lambda>r. if P r then f r else r) rows"

definition count_rows :: "('r \<Rightarrow> bool) \<Rightarrow> 'r list \<Rightarrow> nat" where
  "count_rows P rows = length (filter P rows)"

definition update_workflows ::
  "(workflow_row \<Rightarrow> bool) \<Rightarrow> (workflow_row \<Rightarrow> workflow_row) \<Rightarrow> db \<Rightarrow> py_exn + db \<times> nat" where
  "update_workflows P f s =
     (let rows = update_rows P f (db_workflows s) in
      bindE (require (list_all workflow_row_ok rows)) (\<lambda>_.
      Inr (s\<lparr>db_workflows := rows\<rparr>, count_rows P (db_workflows s))))"

definition update_tasks ::
  "(task_row \<Rightarrow> bool) \<Rightarrow> (task_row \<Rightarrow> task_row) \<Rightarrow> db \<Rightarrow> py_exn + db \<times> nat" where
  "update_tasks P f s =
     (let rows = update_rows P f (db_tasks s) in
      bindE (require (list_all task_row_ok rows)) (\<lambda>_.
      Inr (s\<lparr>db_tasks := rows\<rparr>, count_rows P (db_tasks s))))"

definition update_attempts ::
  "(attempt_row \<Rightarrow> bool) \<Rightarrow> (attempt_row \<Rightarrow> attempt_row) \<Rightarrow> db \<Rightarrow> py_exn + db \<times> nat" where
  "update_attempts P f s =
     (let rows = update_rows P f (db_attempts s) in
      bindE (require (list_all attempt_row_ok rows \<and> distinct (active_attempt_tasks rows))) (\<lambda>_.
      Inr (s\<lparr>db_attempts := rows\<rparr>, count_rows P (db_attempts s))))"

text \<open>Selects by primary key.\<close>

definition get_definition :: "db \<Rightarrow> definition_id \<Rightarrow> definition_row option" where
  "get_definition s i = find (\<lambda>r. dr_definition_id r = i) (db_definitions s)"

definition get_workflow :: "db \<Rightarrow> workflow_execution_id \<Rightarrow> workflow_row option" where
  "get_workflow s i = find (\<lambda>r. wx_id r = i) (db_workflows s)"

definition get_task :: "db \<Rightarrow> task_execution_id \<Rightarrow> task_row option" where
  "get_task s i = find (\<lambda>r. tx_id r = i) (db_tasks s)"

definition get_attempt :: "db \<Rightarrow> attempt_id \<Rightarrow> attempt_row option" where
  "get_attempt s i = find (\<lambda>r. ax_id r = i) (db_attempts s)"

definition tasks_of :: "db \<Rightarrow> workflow_execution_id \<Rightarrow> task_row list" where
  "tasks_of s w = filter (\<lambda>t. tx_workflow_id t = w) (db_tasks s)"

section \<open>The store invariant\<close>

text \<open>What the database guarantees at every statement boundary: keys, references and checks.\<close>

definition db_ok :: "db \<Rightarrow> bool" where
  "db_ok s \<longleftrightarrow>
     distinct (map dr_definition_id (db_definitions s)) \<and> list_all definition_row_ok (db_definitions s) \<and>
     distinct (map wx_id (db_workflows s)) \<and> list_all workflow_row_ok (db_workflows s) \<and>
     (\<forall>w \<in> set (db_workflows s). wx_definition_id w \<in> set (map dr_definition_id (db_definitions s))) \<and>
     distinct (map tx_id (db_tasks s)) \<and> distinct (map task_key (db_tasks s)) \<and>
     list_all task_row_ok (db_tasks s) \<and>
     (\<forall>t \<in> set (db_tasks s). tx_workflow_id t \<in> set (map wx_id (db_workflows s))) \<and>
     distinct (map ax_id (db_attempts s)) \<and> distinct (map attempt_key (db_attempts s)) \<and>
     distinct (active_attempt_tasks (db_attempts s)) \<and> list_all attempt_row_ok (db_attempts s) \<and>
     (\<forall>a \<in> set (db_attempts s). ax_task_id a \<in> set (map tx_id (db_tasks s))) \<and>
     distinct (map hx_id (db_history s)) \<and>
     (\<forall>h \<in> set (db_history s). hx_workflow_id h \<in> set (map wx_id (db_workflows s))) \<and>
     distinct (map idempotency_key_of (db_idempotency s)) \<and>
     list_all idempotency_row_ok (db_idempotency s)"

named_theorems db_stmt "what a successful statement did"

lemma require_Inr [simp]: "require c = Inr u \<longleftrightarrow> c"
  by (simp add: require_def)

lemma insert_definition_Inr [db_stmt]:
  "insert_definition r s = Inr s' \<longleftrightarrow> dr_definition_id r \<notin> set (map dr_definition_id (db_definitions s)) \<and>
     definition_row_ok r \<and> s' = s\<lparr>db_definitions := db_definitions s @ [r]\<rparr>"
  by (auto simp: insert_definition_def bindE_eq_Inr)

lemma insert_workflow_Inr [db_stmt]:
  "insert_workflow r s = Inr s' \<longleftrightarrow> wx_id r \<notin> set (map wx_id (db_workflows s)) \<and> workflow_row_ok r \<and>
     wx_definition_id r \<in> set (map dr_definition_id (db_definitions s)) \<and>
     s' = s\<lparr>db_workflows := db_workflows s @ [r]\<rparr>"
  by (auto simp: insert_workflow_def bindE_eq_Inr)

lemma insert_attempt_Inr [db_stmt]:
  "insert_attempt r s = Inr s' \<longleftrightarrow> ax_id r \<notin> set (map ax_id (db_attempts s)) \<and> attempt_row_ok r \<and>
     ax_task_id r \<in> set (map tx_id (db_tasks s)) \<and>
     attempt_key r \<notin> set (map attempt_key (db_attempts s)) \<and>
     distinct (active_attempt_tasks (db_attempts s @ [r])) \<and>
     s' = s\<lparr>db_attempts := db_attempts s @ [r]\<rparr>"
  by (auto simp: insert_attempt_def bindE_eq_Inr)

lemma insert_history_Inr [db_stmt]:
  "insert_history r s = Inr s' \<longleftrightarrow> hx_id r \<notin> set (map hx_id (db_history s)) \<and>
     hx_workflow_id r \<in> set (map wx_id (db_workflows s)) \<and>
     (case hx_task_id r of None \<Rightarrow> True | Some t \<Rightarrow> t \<in> set (map tx_id (db_tasks s))) \<and>
     (case hx_attempt_id r of None \<Rightarrow> True | Some a \<Rightarrow> a \<in> set (map ax_id (db_attempts s))) \<and>
     s' = s\<lparr>db_history := db_history s @ [r]\<rparr>"
  by (auto simp: insert_history_def bindE_eq_Inr)

lemma update_workflows_Inr [db_stmt]:
  "update_workflows P f s = Inr (s', n) \<longleftrightarrow>
     list_all workflow_row_ok (update_rows P f (db_workflows s)) \<and>
     s' = s\<lparr>db_workflows := update_rows P f (db_workflows s)\<rparr> \<and> n = count_rows P (db_workflows s)"
  by (auto simp: update_workflows_def bindE_eq_Inr Let_def)

lemma update_tasks_Inr [db_stmt]:
  "update_tasks P f s = Inr (s', n) \<longleftrightarrow>
     list_all task_row_ok (update_rows P f (db_tasks s)) \<and>
     s' = s\<lparr>db_tasks := update_rows P f (db_tasks s)\<rparr> \<and> n = count_rows P (db_tasks s)"
  by (auto simp: update_tasks_def bindE_eq_Inr Let_def)

lemma update_attempts_Inr [db_stmt]:
  "update_attempts P f s = Inr (s', n) \<longleftrightarrow>
     list_all attempt_row_ok (update_rows P f (db_attempts s)) \<and>
     distinct (active_attempt_tasks (update_rows P f (db_attempts s))) \<and>
     s' = s\<lparr>db_attempts := update_rows P f (db_attempts s)\<rparr> \<and> n = count_rows P (db_attempts s)"
  by (auto simp: update_attempts_def bindE_eq_Inr Let_def)

section \<open>Updates of rows\<close>

lemma set_update_rows: "set (update_rows P f rows) = (\<lambda>r. if P r then f r else r) ` set rows"
  by (simp add: update_rows_def)

lemma mem_update_rows:
  "r' \<in> set (update_rows P f rows) \<longleftrightarrow> (\<exists>r \<in> set rows. r' = (if P r then f r else r))"
  by (auto simp: update_rows_def)

lemma update_rows_none: "count_rows P rows = 0 \<Longrightarrow> update_rows P f rows = rows"
  by (induction rows) (auto simp: update_rows_def count_rows_def split: if_splits)

lemma map_key_update_rows:
  "(\<And>r. P r \<Longrightarrow> key (f r) = key r) \<Longrightarrow> map key (update_rows P f rows) = map key rows"
  by (simp add: update_rows_def)

lemma count_rows_pos: "0 < count_rows P rows \<longleftrightarrow> (\<exists>r \<in> set rows. P r)"
  by (auto simp: count_rows_def filter_empty_conv)

lemma find_update_rows:
  assumes "\<And>r. P r \<Longrightarrow> key (f r) = key r"
  shows "find (\<lambda>r. key r = k) (update_rows P f rows) =
     map_option (\<lambda>r. if P r then f r else r) (find (\<lambda>r. key r = k) rows)"
  using assms by (induction rows) (auto simp: update_rows_def)

lemma get_workflow_SomeD: "get_workflow s i = Some w \<Longrightarrow> w \<in> set (db_workflows s) \<and> wx_id w = i"
  unfolding get_workflow_def by (rule find_SomeD)

lemma get_task_SomeD: "get_task s i = Some t \<Longrightarrow> t \<in> set (db_tasks s) \<and> tx_id t = i"
  unfolding get_task_def by (rule find_SomeD)

lemma get_attempt_SomeD: "get_attempt s i = Some a \<Longrightarrow> a \<in> set (db_attempts s) \<and> ax_id a = i"
  unfolding get_attempt_def by (rule find_SomeD)

lemma get_definition_SomeD:
  "get_definition s i = Some d \<Longrightarrow> d \<in> set (db_definitions s) \<and> dr_definition_id d = i"
  unfolding get_definition_def by (rule find_SomeD)

lemma db_ok_keys:
  assumes "db_ok s"
  shows "\<And>w w'. w \<in> set (db_workflows s) \<Longrightarrow> w' \<in> set (db_workflows s) \<Longrightarrow> wx_id w = wx_id w' \<Longrightarrow> w = w'"
    and "\<And>t t'. t \<in> set (db_tasks s) \<Longrightarrow> t' \<in> set (db_tasks s) \<Longrightarrow> tx_id t = tx_id t' \<Longrightarrow> t = t'"
    and "\<And>a a'. a \<in> set (db_attempts s) \<Longrightarrow> a' \<in> set (db_attempts s) \<Longrightarrow> ax_id a = ax_id a' \<Longrightarrow> a = a'"
    and "\<And>t t'. t \<in> set (db_tasks s) \<Longrightarrow> t' \<in> set (db_tasks s) \<Longrightarrow> task_key t = task_key t' \<Longrightarrow> t = t'"
  using assms unfolding db_ok_def by (blast dest: distinct_map_eqD)+

text \<open>At most one active attempt per task, as the partial unique index says.\<close>

lemma distinct_map_filter_eqD:
  "distinct (map f (filter P xs)) \<Longrightarrow> x \<in> set xs \<Longrightarrow> y \<in> set xs \<Longrightarrow> P x \<Longrightarrow> P y \<Longrightarrow> f x = f y \<Longrightarrow> x = y"
  by (rule distinct_map_eqD [of f "filter P xs"]) simp_all

lemma single_active_attempt:
  assumes "db_ok s" and "a \<in> set (db_attempts s)" and "b \<in> set (db_attempts s)"
    and "as_active (ax_state a)" and "as_active (ax_state b)" and "ax_task_id a = ax_task_id b"
  shows "a = b"
  using assms(1) distinct_map_filter_eqD [of ax_task_id "\<lambda>a. as_active (ax_state a)" "db_attempts s" a b]
    assms(2-) unfolding db_ok_def active_attempt_tasks_def by blast

lemma get_workflow_mem: "db_ok s \<Longrightarrow> w \<in> set (db_workflows s) \<Longrightarrow> get_workflow s (wx_id w) = Some w"
  unfolding get_workflow_def db_ok_def by (simp add: find_key)

lemma get_task_mem: "db_ok s \<Longrightarrow> t \<in> set (db_tasks s) \<Longrightarrow> get_task s (tx_id t) = Some t"
  unfolding get_task_def db_ok_def by (simp add: find_key)

lemma get_attempt_mem: "db_ok s \<Longrightarrow> a \<in> set (db_attempts s) \<Longrightarrow> get_attempt s (ax_id a) = Some a"
  unfolding get_attempt_def db_ok_def by (simp add: find_key)

section \<open>Every statement keeps the store invariant\<close>

lemma db_ok_empty: "db_ok empty_db"
  by (simp add: db_ok_def empty_db_def active_attempt_tasks_def)

lemma insert_definition_ok: "db_ok s \<Longrightarrow> insert_definition r s = Inr s' \<Longrightarrow> db_ok s'"
  by (auto simp: db_stmt db_ok_def)

lemma insert_workflow_ok: "db_ok s \<Longrightarrow> insert_workflow r s = Inr s' \<Longrightarrow> db_ok s'"
  by (auto simp: db_stmt db_ok_def)

lemma insert_task_ok: "db_ok s \<Longrightarrow> insert_task_or_ignore r s = Inr s' \<Longrightarrow> db_ok s'"
  by (auto simp: insert_task_or_ignore_def bindE_eq_Inr db_ok_def split: if_splits)

lemma insert_attempt_ok: "db_ok s \<Longrightarrow> insert_attempt r s = Inr s' \<Longrightarrow> db_ok s'"
  by (auto simp: db_stmt db_ok_def)

lemma insert_history_ok: "db_ok s \<Longrightarrow> insert_history r s = Inr s' \<Longrightarrow> db_ok s'"
  by (auto simp: db_stmt db_ok_def)

lemma insert_idempotency_ok: "db_ok s \<Longrightarrow> insert_idempotency_or_ignore r s = Inr (s', n) \<Longrightarrow> db_ok s'"
  by (auto simp: insert_idempotency_or_ignore_def bindE_eq_Inr db_ok_def split: if_splits)

lemma update_workflows_ok:
  assumes "db_ok s" and "update_workflows P f s = Inr (s', n)"
    and "\<And>r. P r \<Longrightarrow> wx_id (f r) = wx_id r \<and> wx_definition_id (f r) = wx_definition_id r"
  shows "db_ok s'"
proof -
  have "map wx_id (update_rows P f (db_workflows s)) = map wx_id (db_workflows s)"
    by (rule map_key_update_rows) (simp add: assms(3))
  with assms show ?thesis by (auto simp: db_stmt db_ok_def mem_update_rows simp del: map_map set_map)
qed

lemma update_tasks_ok:
  assumes "db_ok s" and "update_tasks P f s = Inr (s', n)"
    and "\<And>r. P r \<Longrightarrow> tx_id (f r) = tx_id r \<and> task_key (f r) = task_key r"
  shows "db_ok s'"
proof -
  have keys: "map tx_id (update_rows P f (db_tasks s)) = map tx_id (db_tasks s)"
    "map task_key (update_rows P f (db_tasks s)) = map task_key (db_tasks s)"
    by (rule map_key_update_rows, simp add: assms(3))+
  have "tx_workflow_id (f r) = tx_workflow_id r" if "P r" for r
    using assms(3) [OF that] by (simp add: task_key_def)
  with assms keys show ?thesis by (auto simp: db_stmt db_ok_def mem_update_rows simp del: map_map set_map)
qed

lemma update_attempts_ok:
  assumes "db_ok s" and "update_attempts P f s = Inr (s', n)"
    and "\<And>r. P r \<Longrightarrow> ax_id (f r) = ax_id r \<and> attempt_key (f r) = attempt_key r"
  shows "db_ok s'"
proof -
  have keys: "map ax_id (update_rows P f (db_attempts s)) = map ax_id (db_attempts s)"
    "map attempt_key (update_rows P f (db_attempts s)) = map attempt_key (db_attempts s)"
    by (rule map_key_update_rows, simp add: assms(3))+
  have "ax_task_id (f r) = ax_task_id r" if "P r" for r
    using assms(3) [OF that] by (simp add: attempt_key_def)
  with assms keys show ?thesis by (auto simp: db_stmt db_ok_def mem_update_rows simp del: map_map set_map)
qed

end
