(* ===== verification/Tx_Setup.thy ===== *)
theory Tx_Setup
  imports Store Spec_Codec
begin

text \<open>
  The first half of \<open>src/nexusflow/persistence/transactions.py\<close>: registering a definition,
  creating a workflow, populating its tasks, starting it, making a task ready, claiming it and
  starting its attempt. A transaction is a function from the store to a new store and an outcome.
  \<open>Inl e\<close> is an exception that leaves the transactional scope, so nothing is kept; an early
  \<open>return\<close> inside the scope keeps the statements made before it. Values drawn from
  \<open>uuid4()\<close> are arguments. An outcome's text is the code's, up to a set or list it renders.
\<close>

datatype commit_status = COMMITTED | PRECONDITION_FAILED | OCC_CONFLICT | UNKNOWN_OUTCOME_STATUS

record commit_outcome =
  co_status :: commit_status
  co_message :: string

definition committed :: commit_outcome where
  "committed = \<lparr>co_status = COMMITTED, co_message = []\<rparr>"

definition committed_with :: "string \<Rightarrow> commit_outcome" where
  "committed_with m = \<lparr>co_status = COMMITTED, co_message = m\<rparr>"

definition precondition_failed :: "string \<Rightarrow> commit_outcome" where
  "precondition_failed m = \<lparr>co_status = PRECONDITION_FAILED, co_message = m\<rparr>"

definition occ_conflict :: "string \<Rightarrow> commit_outcome" where
  "occ_conflict m = \<lparr>co_status = OCC_CONFLICT, co_message = m\<rparr>"

definition mk_history ::
  "history_entry_id \<Rightarrow> workflow_execution_id \<Rightarrow> task_execution_id option \<Rightarrow> attempt_id option
    \<Rightarrow> string \<Rightarrow> (string \<times> pyval) list \<Rightarrow> datetime \<Rightarrow> history_row" where
  "mk_history hid w t a category payload now_utc =
     \<lparr>hx_id = hid, hx_workflow_id = w, hx_task_id = t, hx_attempt_id = a,
      hx_event_category = category, hx_event_payload = PyDict (map (\<lambda>(k, v). (PyStr k, v)) payload),
      hx_occurred_at_utc = now_utc\<rparr>"

text \<open>The state column of a workflow, \<open>None\<close> when no row matches.\<close>

definition workflow_state_of :: "db \<Rightarrow> workflow_execution_id \<Rightarrow> workflow_state option" where
  "workflow_state_of s w = map_option wx_state (get_workflow s w)"

definition state_text :: "workflow_state option \<Rightarrow> string" where
  "state_text st = (case st of None \<Rightarrow> ''None'' | Some x \<Rightarrow> workflow_state_str x)"

text \<open>\<open>set(def_row["tasks"].keys())\<close> on the stored document.\<close>

definition document_task_ids :: "pyval \<Rightarrow> py_exn + string list" where
  "document_task_ids doc =
     (case doc of
        PyDict es \<Rightarrow>
          (case map_of es (PyStr ''tasks'') of
             None \<Rightarrow> Inl KeyError
           | Some (PyDict ts) \<Rightarrow> mapE (\<lambda>k. case k of PyStr t \<Rightarrow> Inr t | _ \<Rightarrow> Inl TypeError) (dict_keys ts)
           | Some _ \<Rightarrow> Inl TypeError)
      | _ \<Rightarrow> Inl TypeError)"

section \<open>Idempotency\<close>

text \<open>
  The prologue shared by registration and creation: record the key, or find it recorded. The
  result is \<open>Some\<close> outcome with the resource when the operation returns early.
\<close>

definition claim_idempotency_key ::
  "string \<Rightarrow> idempotency_key option \<Rightarrow> request_fingerprint option \<Rightarrow> uuid \<Rightarrow> datetime \<Rightarrow> db
    \<Rightarrow> py_exn + db \<times> (commit_outcome \<times> uuid) option" where
  "claim_idempotency_key operation key fingerprint resource now_utc s =
     (case key of
        None \<Rightarrow> Inr (s, None)
      | Some k \<Rightarrow>
          (case fingerprint of
             None \<Rightarrow> Inl ValueError
           | Some fp \<Rightarrow>
               bindE (insert_idempotency_or_ignore
                        \<lparr>ix_operation_type = operation, ix_idempotency_key = idem_value k,
                         ix_request_fingerprint = fp_digest fp, ix_resource_id = resource,
                         ix_created_at_utc = now_utc\<rparr> s) (\<lambda>(s1, n).
               if n = 0 then
                 (case find (\<lambda>r. ix_operation_type r = operation \<and> ix_idempotency_key r = idem_value k)
                         (db_idempotency s1) of
                    Some existing \<Rightarrow>
                      if ix_request_fingerprint existing = fp_digest fp
                      then Inr (s1, Some (committed_with ''Idempotent match'', ix_resource_id existing))
                      else Inr (s1, Some (precondition_failed ''Conflicting idempotency key'', resource))
                  | None \<Rightarrow> Inr (s1, Some (precondition_failed ''Conflicting idempotency key'', resource)))
               else Inr (s1, None))))"

definition commit_registered_definition ::
  "definition_id \<Rightarrow> string \<Rightarrow> validated_workflow_spec \<Rightarrow> string option \<Rightarrow> idempotency_key option
    \<Rightarrow> request_fingerprint option \<Rightarrow> datetime \<Rightarrow> db \<Rightarrow> py_exn + db \<times> commit_outcome \<times> definition_id" where
  "commit_registered_definition definition_id workflow_name spec raw_yaml key fingerprint now_utc s =
     bindE (claim_idempotency_key ''REGISTER_DEFINITION'' key fingerprint definition_id now_utc s)
       (\<lambda>(s1, early). case early of
          Some (outcome, resource) \<Rightarrow> Inr (s1, outcome, resource)
        | None \<Rightarrow>
            bindE (serialize_validated_spec spec) (\<lambda>doc.
            bindE (insert_definition \<lparr>dr_definition_id = definition_id, dr_workflow_name = workflow_name,
                     dr_validated_iws = jsonb doc, dr_raw_yaml = raw_yaml, dr_created_at_utc = now_utc\<rparr> s1)
              (\<lambda>s2. Inr (s2, committed, definition_id))))"

definition commit_workflow_creation ::
  "history_entry_id \<Rightarrow> workflow_execution \<Rightarrow> idempotency_key option \<Rightarrow> request_fingerprint option
    \<Rightarrow> datetime \<Rightarrow> db \<Rightarrow> py_exn + db \<times> commit_outcome \<times> workflow_execution_id" where
  "commit_workflow_creation hid execution key fingerprint now_utc s =
     bindE (claim_idempotency_key ''START_EXECUTION'' key fingerprint (we_id execution) now_utc s)
       (\<lambda>(s1, early). case early of
          Some (outcome, resource) \<Rightarrow> Inr (s1, outcome, resource)
        | None \<Rightarrow>
            bindE (thaw_json (we_workflow_input execution)) (\<lambda>input.
            bindE (insert_workflow
                     \<lparr>wx_id = we_id execution, wx_definition_id = we_definition_id execution,
                      wx_state = WF_INITIALIZING, wx_revision = 1, wx_input = jsonb input,
                      wx_has_output = False, wx_output = None, wx_failure = no_failure,
                      wx_created_at_utc = now_utc, wx_updated_at_utc = now_utc\<rparr> s1) (\<lambda>s2.
            bindE (insert_history (mk_history hid (we_id execution) None None ''WorkflowExecutionCreated''
                     [(''definition_id'', PyStr (uuid_str (we_definition_id execution)))] now_utc) s2)
              (\<lambda>s3. Inr (s3, committed, we_id execution)))))"

section \<open>Population and start\<close>

definition new_task_row ::
  "workflow_execution_id \<Rightarrow> datetime \<Rightarrow> task_execution_id \<Rightarrow> task_definition \<Rightarrow> task_row" where
  "new_task_row w now_utc tid td =
     \<lparr>tx_id = tid, tx_workflow_id = w, tx_task_definition_id = tdid_value (td_id td),
      tx_state = TS_PENDING, tx_revision = 1, tx_has_input = False, tx_stable_input = None,
      tx_has_output = False, tx_output = None, tx_max_attempts = td_max_attempts td,
      tx_next_attempt_ordinal = 1, tx_retry_ready_at_utc = None, tx_failure = no_failure,
      tx_created_at_utc = now_utc, tx_updated_at_utc = now_utc\<rparr>"

text \<open>Each task definition comes with the identifier \<open>uuid4()\<close> draws for its row.\<close>

definition commit_task_population ::
  "history_entry_id \<Rightarrow> workflow_execution_id \<Rightarrow> (task_execution_id \<times> task_definition) list
    \<Rightarrow> datetime \<Rightarrow> db \<Rightarrow> py_exn + db \<times> commit_outcome" where
  "commit_task_population hid w task_definitions now_utc s =
     (let wf_state = workflow_state_of s w in
      if wf_state \<noteq> Some WF_INITIALIZING
      then Inr (s, precondition_failed
             (''Workflow is not INITIALIZING (current state: '' @ state_text wf_state @ '')''))
      else
        bindE (foldE (\<lambda>(tid, td). insert_task_or_ignore (new_task_row w now_utc tid td))
                 task_definitions s) (\<lambda>s1.
        bindE (insert_history (mk_history hid w None None ''TaskPopulationEstablished''
                 [(''task_count'', PyInt (int (length task_definitions)))] now_utc) s1) (\<lambda>s2.
        Inr (s2, committed))))"

definition commit_initialization_complete ::
  "history_entry_id \<Rightarrow> workflow_execution_id \<Rightarrow> int \<Rightarrow> datetime \<Rightarrow> db \<Rightarrow> py_exn + db \<times> commit_outcome" where
  "commit_initialization_complete hid w expected_revision now_utc s =
     (case get_workflow s w of
        None \<Rightarrow> Inr (s, precondition_failed ''Workflow not found'')
      | Some wf_row \<Rightarrow>
          if wx_state wf_row \<noteq> WF_INITIALIZING \<or> wx_revision wf_row \<noteq> expected_revision
          then Inr (s, occ_conflict ''Workflow revision or state conflict'')
          else
            (case get_definition s (wx_definition_id wf_row) of
               None \<Rightarrow> Inr (s, precondition_failed ''Definition not found'')
             | Some d \<Rightarrow>
                 (case dr_validated_iws d of
                    None \<Rightarrow> Inr (s, precondition_failed ''Definition not found'')
                  | Some doc \<Rightarrow>
                      bindE (document_task_ids doc) (\<lambda>expected_task_ids.
                      let actual_task_ids = map tx_task_definition_id (tasks_of s w) in
                      if set expected_task_ids \<noteq> set actual_task_ids
                      then Inr (s, precondition_failed ''Task membership mismatched'')
                      else
                        bindE (update_workflows
                                 (\<lambda>r. wx_id r = w \<and> wx_state r = WF_INITIALIZING \<and>
                                      wx_revision r = expected_revision)
                                 (\<lambda>r. r\<lparr>wx_state := WF_RUNNING, wx_revision := wx_revision r + 1,
                                        wx_updated_at_utc := now_utc\<rparr>) s) (\<lambda>(s1, n).
                        if n = 0 then Inr (s1, occ_conflict ''OCC conflict on workflow start'')
                        else
                          bindE (insert_history (mk_history hid w None None ''WorkflowExecutionStarted''
                                   [(''state'', PyStr ''RUNNING'')] now_utc) s1) (\<lambda>s2.
                          Inr (s2, committed)))))))"

section \<open>Readiness, ownership and start of an attempt\<close>

definition commit_task_readiness ::
  "history_entry_id \<Rightarrow> task_execution_id \<Rightarrow> int \<Rightarrow> workflow_execution_id \<Rightarrow> pyval \<Rightarrow> datetime
    \<Rightarrow> db \<Rightarrow> py_exn + db \<times> commit_outcome" where
  "commit_task_readiness hid task_id expected_task_revision w stable_input now_utc s =
     (let wf_state = workflow_state_of s w in
      if wf_state \<noteq> Some WF_RUNNING
      then Inr (s, precondition_failed
             (''Workflow is not RUNNING (current state: '' @ state_text wf_state @ '')''))
      else
        bindE (thaw_json stable_input) (\<lambda>input.
        bindE (update_tasks
                 (\<lambda>r. tx_id r = task_id \<and> tx_workflow_id r = w \<and> tx_state r = TS_PENDING \<and>
                      tx_revision r = expected_task_revision)
                 (\<lambda>r. r\<lparr>tx_state := TS_RUNNABLE, tx_has_input := True, tx_stable_input := jsonb input,
                        tx_revision := tx_revision r + 1, tx_updated_at_utc := now_utc\<rparr>) s) (\<lambda>(s1, n).
        if n = 0 then Inr (s1, occ_conflict ''OCC conflict on task readiness'')
        else
          bindE (insert_history (mk_history hid w (Some task_id) None ''TaskMarkedRunnable''
                   [(''task_id'', PyStr (uuid_str task_id))] now_utc) s1) (\<lambda>s2.
          Inr (s2, committed)))))"

text \<open>
  \<open>RETURNING next_attempt_ordinal - 1\<close> is computed on the updated row, so it is the ordinal the
  row had before.
\<close>

definition commit_attempt_ownership ::
  "history_entry_id \<Rightarrow> task_execution_id \<Rightarrow> int \<Rightarrow> workflow_execution_id \<Rightarrow> worker_session_id
    \<Rightarrow> attempt_id \<Rightarrow> datetime \<Rightarrow> datetime \<Rightarrow> db \<Rightarrow> py_exn + db \<times> commit_outcome \<times> int option" where
  "commit_attempt_ownership hid task_id expected_task_revision w worker_session_id new_attempt_id
       start_deadline_utc now_utc s =
     (let wf_state = workflow_state_of s w in
      if wf_state \<noteq> Some WF_RUNNING
      then Inr (s, precondition_failed
             (''Workflow is not RUNNING (current state: '' @ state_text wf_state @ '')''), None)
      else if list_ex (\<lambda>a. ax_task_id a = task_id \<and> as_active (ax_state a)) (db_attempts s)
      then Inr (s, precondition_failed ''Active attempt already exists for task'', None)
      else
        let guard = (\<lambda>r. tx_id r = task_id \<and> tx_workflow_id r = w \<and> tx_state r = TS_RUNNABLE \<and>
                         tx_revision r = expected_task_revision) in
        (case find guard (db_tasks s) of
           None \<Rightarrow> Inr (s, occ_conflict ''OCC conflict claiming task'', None)
         | Some row \<Rightarrow>
             bindE (update_tasks guard
                      (\<lambda>r. r\<lparr>tx_state := TS_RUNNING, tx_revision := tx_revision r + 1,
                             tx_next_attempt_ordinal := tx_next_attempt_ordinal r + 1,
                             tx_updated_at_utc := now_utc\<rparr>) s) (\<lambda>(s1, n).
             let allocated_ordinal = (tx_next_attempt_ordinal row + 1) - 1 in
             bindE (insert_attempt
                      \<lparr>ax_id = new_attempt_id, ax_task_id = task_id, ax_ordinal = allocated_ordinal,
                       ax_worker_session_id = worker_session_id, ax_state = AS_CLAIMED,
                       ax_revision = 1, ax_start_deadline_utc = start_deadline_utc,
                       ax_execution_timeout_utc = None, ax_cancellation_deadline_utc = None,
                       ax_failure = no_failure, ax_created_at_utc = now_utc,
                       ax_updated_at_utc = now_utc\<rparr> s1) (\<lambda>s2.
             bindE (insert_history (mk_history hid w (Some task_id) (Some new_attempt_id)
                      ''TaskClaimedByWorker''
                      [(''worker_session_id'', PyStr (uuid_str worker_session_id)),
                       (''attempt_ordinal'', PyInt allocated_ordinal)] now_utc) s2) (\<lambda>s3.
             Inr (s3, committed, Some allocated_ordinal))))))"

text \<open>
  The conditional update returns the task of the attempt it started. When it started none, the
  same worker's attempt that is already running is an idempotent success.
\<close>

definition commit_worker_execution_start ::
  "history_entry_id \<Rightarrow> workflow_execution_id \<Rightarrow> attempt_id \<Rightarrow> worker_session_id \<Rightarrow> int \<Rightarrow> datetime
    \<Rightarrow> db \<Rightarrow> py_exn + db \<times> commit_outcome" where
  "commit_worker_execution_start hid fresh_uuid attempt_id worker_session_id expected_attempt_revision
       now_utc s =
     (let guard = (\<lambda>r. ax_id r = attempt_id \<and> ax_worker_session_id r = worker_session_id \<and>
                       ax_state r = AS_CLAIMED \<and> ax_start_deadline_utc r \<ge> now_utc \<and>
                       ax_revision r = expected_attempt_revision) in
      case find guard (db_attempts s) of
        None \<Rightarrow>
          (case find (\<lambda>r. ax_id r = attempt_id \<and> ax_worker_session_id r = worker_session_id)
                  (db_attempts s) of
             Some existing \<Rightarrow>
               if ax_state existing = AS_RUNNING then Inr (s, committed_with ''Already started'')
               else Inr (s, occ_conflict ''OCC conflict or expired start deadline'')
           | None \<Rightarrow> Inr (s, occ_conflict ''OCC conflict or expired start deadline''))
      | Some row \<Rightarrow>
          bindE (update_attempts guard
                   (\<lambda>r. r\<lparr>ax_state := AS_RUNNING, ax_revision := ax_revision r + 1,
                          ax_updated_at_utc := now_utc\<rparr>) s) (\<lambda>(s1, n).
          let task_id = ax_task_id row;
              wf_id = (case get_task s1 task_id of None \<Rightarrow> fresh_uuid | Some t \<Rightarrow> tx_workflow_id t) in
          bindE (insert_history (mk_history hid wf_id (Some task_id) (Some attempt_id)
                   ''AttemptExecutionStarted'' [(''state'', PyStr ''RUNNING'')] now_utc) s1) (\<lambda>s2.
          Inr (s2, committed))))"

end
