(* ===== verification/Tx_Settle.thy ===== *)
theory Tx_Settle
  imports Tx_Setup
begin

text \<open>
  Settling an attempt and its task on a worker's report, and the directions a workflow takes:
  the middle part of \<open>src/nexusflow/persistence/transactions.py\<close>.
\<close>

text \<open>
  \<open>failure_details=thaw_json(cause.details) if cause.details else None\<close>: absent and empty
  details are both NULL.
\<close>

definition failure_details_json :: "failure_cause \<Rightarrow> py_exn + pyval option" where
  "failure_details_json cause =
     (case fc_details cause of
        None \<Rightarrow> Inr None
      | Some d \<Rightarrow> if d \<in> {PyNone, PyProxy [], PyDict []} then Inr None
                 else bindE (thaw_json d) (\<lambda>v. Inr (jsonb v)))"

definition failure_cols :: "failure_cause \<Rightarrow> pyval option \<Rightarrow> failure_columns" where
  "failure_cols cause details =
     \<lparr>failure_category_col = Some (failure_category_str (fc_category cause)),
      failure_code_col = Some (fc_code cause), failure_message_col = Some (fc_message cause),
      failure_details_col = details\<rparr>"

section \<open>Success of an attempt\<close>

text \<open>
  A callback that finds its attempt already \<open>SUCCEEDED\<close> is accepted when it repeats the stored
  output; \<open>==\<close> is Python's. A stored NULL reads as \<open>None\<close>.
\<close>

definition column_value :: "pyval option \<Rightarrow> pyval" where
  "column_value c = (case c of None \<Rightarrow> PyNone | Some v \<Rightarrow> v)"

definition commit_worker_task_success ::
  "history_entry_id \<Rightarrow> attempt_id \<Rightarrow> worker_session_id \<Rightarrow> int \<Rightarrow> task_execution_id \<Rightarrow> int \<Rightarrow> pyval
    \<Rightarrow> datetime \<Rightarrow> db \<Rightarrow> py_exn + db \<times> commit_outcome" where
  "commit_worker_task_success hid attempt_id worker_session_id expected_attempt_revision task_id
       expected_task_revision output now_utc s =
     bindE (update_attempts
              (\<lambda>r. ax_id r = attempt_id \<and> ax_worker_session_id r = worker_session_id \<and>
                   ax_task_id r = task_id \<and> ax_state r = AS_RUNNING \<and>
                   ax_revision r = expected_attempt_revision)
              (\<lambda>r. r\<lparr>ax_state := AS_SUCCEEDED, ax_revision := ax_revision r + 1,
                     ax_updated_at_utc := now_utc\<rparr>) s) (\<lambda>(s1, n).
     if n = 0 then
       (case get_attempt s1 attempt_id of
          Some existing \<Rightarrow>
            if ax_state existing = AS_SUCCEEDED then
              (case get_task s1 task_id of
                 Some current_task \<Rightarrow>
                   bindE (thaw_json output) (\<lambda>payload.
                   if py_eq payload (column_value (tx_output current_task))
                   then Inr (s1, committed_with ''Duplicate callback matches'')
                   else Inr (s1, occ_conflict ''Attempt state/revision conflict''))
               | None \<Rightarrow> Inr (s1, occ_conflict ''Attempt state/revision conflict''))
            else Inr (s1, occ_conflict ''Attempt state/revision conflict'')
        | None \<Rightarrow> Inr (s1, occ_conflict ''Attempt state/revision conflict''))
     else
       bindE (thaw_json output) (\<lambda>output_payload.
       let guard = (\<lambda>r. tx_id r = task_id \<and> tx_state r = TS_RUNNING \<and>
                        tx_revision r = expected_task_revision) in
       (case find guard (db_tasks s1) of
          None \<Rightarrow> Inr (s1, occ_conflict ''Task state/revision conflict'')
        | Some row \<Rightarrow>
            bindE (update_tasks guard
                     (\<lambda>r. r\<lparr>tx_state := TS_SUCCEEDED, tx_has_output := True,
                            tx_output := jsonb output_payload, tx_revision := tx_revision r + 1,
                            tx_updated_at_utc := now_utc\<rparr>) s1) (\<lambda>(s2, m).
            bindE (insert_history (mk_history hid (tx_workflow_id row) (Some task_id) (Some attempt_id)
                     ''TaskExecutionSucceeded'' [(''has_output'', PyBool True)] now_utc) s2) (\<lambda>s3.
            Inr (s3, committed))))))"

section \<open>Failure of an attempt reported by its worker\<close>

text \<open>The attempt update both failure transactions make.\<close>

definition fail_owned_attempt ::
  "attempt_id \<Rightarrow> worker_session_id \<Rightarrow> int \<Rightarrow> task_execution_id \<Rightarrow> failure_cause \<Rightarrow> datetime
    \<Rightarrow> db \<Rightarrow> py_exn + db \<times> nat" where
  "fail_owned_attempt attempt_id worker_session_id expected_attempt_revision task_id cause now_utc s =
     bindE (failure_details_json cause) (\<lambda>details.
     update_attempts
       (\<lambda>r. ax_id r = attempt_id \<and> ax_worker_session_id r = worker_session_id \<and>
            ax_task_id r = task_id \<and> as_active (ax_state r) \<and>
            ax_revision r = expected_attempt_revision)
       (\<lambda>r. r\<lparr>ax_state := AS_FAILED, ax_failure := failure_cols cause details,
              ax_revision := ax_revision r + 1, ax_updated_at_utc := now_utc\<rparr>) s)"

definition commit_worker_failure_with_retry ::
  "history_entry_id \<Rightarrow> attempt_id \<Rightarrow> worker_session_id \<Rightarrow> int \<Rightarrow> task_execution_id \<Rightarrow> int
    \<Rightarrow> workflow_execution_id \<Rightarrow> datetime \<Rightarrow> failure_cause \<Rightarrow> datetime \<Rightarrow> db
    \<Rightarrow> py_exn + db \<times> commit_outcome" where
  "commit_worker_failure_with_retry hid attempt_id worker_session_id expected_attempt_revision task_id
       expected_task_revision w ready_at_utc cause now_utc s =
     (if workflow_state_of s w \<noteq> Some WF_RUNNING
      then Inr (s, precondition_failed ''Workflow is not RUNNING'')
      else
        bindE (fail_owned_attempt attempt_id worker_session_id expected_attempt_revision task_id
                 cause now_utc s) (\<lambda>(s1, n).
        if n = 0 then Inr (s1, occ_conflict ''OCC conflict or stale attempt'')
        else
          bindE (update_tasks
                   (\<lambda>r. tx_id r = task_id \<and> tx_workflow_id r = w \<and> tx_state r = TS_RUNNING \<and>
                        tx_next_attempt_ordinal r \<le> tx_max_attempts r \<and>
                        tx_revision r = expected_task_revision)
                   (\<lambda>r. r\<lparr>tx_state := TS_RETRY_WAIT, tx_retry_ready_at_utc := Some ready_at_utc,
                          tx_revision := tx_revision r + 1, tx_updated_at_utc := now_utc\<rparr>) s1) (\<lambda>(s2, m).
          if m = 0 then Inr (s2, precondition_failed ''OCC conflict or retry budget exhausted'')
          else
            bindE (insert_history (mk_history hid w (Some task_id) (Some attempt_id)
                     ''TaskExecutionRetrying''
                     [(''retry_ready_at'', PyStr (isoformat ready_at_utc)),
                      (''code'', PyStr (fc_code cause))] now_utc) s2) (\<lambda>s3.
            Inr (s3, committed)))))"

text \<open>The update that settles a running task as \<open>FAILED\<close>.\<close>

definition fail_task ::
  "(task_row \<Rightarrow> bool) \<Rightarrow> failure_cause \<Rightarrow> datetime \<Rightarrow> db \<Rightarrow> py_exn + db \<times> nat" where
  "fail_task guard cause now_utc s =
     bindE (failure_details_json cause) (\<lambda>details.
     update_tasks guard
       (\<lambda>r. r\<lparr>tx_state := TS_FAILED, tx_failure := failure_cols cause details,
              tx_revision := tx_revision r + 1, tx_updated_at_utc := now_utc\<rparr>) s)"

definition commit_worker_definitive_failure ::
  "history_entry_id \<Rightarrow> attempt_id \<Rightarrow> worker_session_id \<Rightarrow> int \<Rightarrow> task_execution_id \<Rightarrow> int
    \<Rightarrow> failure_cause \<Rightarrow> datetime \<Rightarrow> db \<Rightarrow> py_exn + db \<times> commit_outcome \<times> workflow_execution_id option" where
  "commit_worker_definitive_failure hid attempt_id worker_session_id expected_attempt_revision task_id
       expected_task_revision cause now_utc s =
     bindE (fail_owned_attempt attempt_id worker_session_id expected_attempt_revision task_id
              cause now_utc s) (\<lambda>(s1, n).
     if n = 0 then Inr (s1, occ_conflict ''OCC conflict or stale attempt'', None)
     else
       let guard = (\<lambda>r. tx_id r = task_id \<and> tx_state r = TS_RUNNING \<and>
                        tx_revision r = expected_task_revision) in
       (case find guard (db_tasks s1) of
          None \<Rightarrow> Inr (s1, occ_conflict ''OCC conflict on task failure'', None)
        | Some row \<Rightarrow>
            bindE (fail_task guard cause now_utc s1) (\<lambda>(s2, m).
            bindE (insert_history (mk_history hid (tx_workflow_id row) (Some task_id) (Some attempt_id)
                     ''TaskExecutionFailed''
                     [(''code'', PyStr (fc_code cause)),
                      (''category'', PyStr (failure_category_str (fc_category cause)))] now_utc) s2) (\<lambda>s3.
            Inr (s3, committed, Some (tx_workflow_id row))))))"

section \<open>The direction of a workflow\<close>

definition commit_workflow_failure_direction ::
  "history_entry_id \<Rightarrow> workflow_execution_id \<Rightarrow> failure_cause \<Rightarrow> datetime \<Rightarrow> db
    \<Rightarrow> py_exn + db \<times> commit_outcome" where
  "commit_workflow_failure_direction hid w cause now_utc s =
     (case get_workflow s w of
        None \<Rightarrow> Inr (s, precondition_failed ''Workflow not found'')
      | Some wf_row \<Rightarrow>
          if wx_state wf_row \<noteq> WF_RUNNING
          then Inr (s, precondition_failed
                 (''Workflow is not RUNNING (current: '' @ workflow_state_str (wx_state wf_row) @ '')''))
          else
            bindE (failure_details_json cause) (\<lambda>details.
            bindE (update_workflows (\<lambda>r. wx_id r = w \<and> wx_state r = WF_RUNNING)
                     (\<lambda>r. r\<lparr>wx_state := WF_FAILING, wx_failure := failure_cols cause details,
                            wx_revision := wx_revision r + 1, wx_updated_at_utc := now_utc\<rparr>) s) (\<lambda>(s1, n).
            if n = 0 then Inr (s1, occ_conflict ''OCC conflict entering FAILING'')
            else
              bindE (insert_history (mk_history hid w None None ''WorkflowExecutionFailing''
                       [(''failure_code'', PyStr (fc_code cause))] now_utc) s1) (\<lambda>s2.
              Inr (s2, committed)))))"

definition commit_workflow_cancellation_direction ::
  "history_entry_id \<Rightarrow> workflow_execution_id \<Rightarrow> datetime \<Rightarrow> db \<Rightarrow> py_exn + db \<times> commit_outcome" where
  "commit_workflow_cancellation_direction hid w now_utc s =
     (case get_workflow s w of
        None \<Rightarrow> Inr (s, precondition_failed ''Workflow not found'')
      | Some wf_row \<Rightarrow>
          if wx_state wf_row \<notin> {WF_INITIALIZING, WF_RUNNING}
          then Inr (s, precondition_failed
                 (''Workflow cannot be cancelled from state '' @ workflow_state_str (wx_state wf_row)))
          else
            bindE (update_workflows (\<lambda>r. wx_id r = w \<and> wx_state r \<in> {WF_INITIALIZING, WF_RUNNING})
                     (\<lambda>r. r\<lparr>wx_state := WF_CANCELLING, wx_revision := wx_revision r + 1,
                            wx_updated_at_utc := now_utc\<rparr>) s) (\<lambda>(s1, n).
            if n = 0 then Inr (s1, occ_conflict ''OCC conflict entering CANCELLING'')
            else
              bindE (insert_history (mk_history hid w None None ''WorkflowCancellationRequested''
                       [(''state'', PyStr ''CANCELLING'')] now_utc) s1) (\<lambda>s2.
              Inr (s2, committed))))"

section \<open>Settlement of a workflow\<close>

definition commit_workflow_success ::
  "history_entry_id \<Rightarrow> workflow_execution_id \<Rightarrow> int \<Rightarrow> pyval \<Rightarrow> datetime \<Rightarrow> db
    \<Rightarrow> py_exn + db \<times> commit_outcome" where
  "commit_workflow_success hid w expected_workflow_revision output now_utc s =
     (case get_workflow s w of
        None \<Rightarrow> Inr (s, precondition_failed ''Workflow not found'')
      | Some wf_row \<Rightarrow>
          if wx_state wf_row \<noteq> WF_RUNNING \<or> wx_revision wf_row \<noteq> expected_workflow_revision
          then Inr (s, occ_conflict
                 (''Workflow state/revision conflict (state='' @ workflow_state_str (wx_state wf_row) @
                  '', rev='' @ int_str (wx_revision wf_row) @ '')''))
          else
            (case get_definition s (wx_definition_id wf_row) of
               None \<Rightarrow> Inr (s, precondition_failed ''Definition not found'')
             | Some d \<Rightarrow>
                 (case dr_validated_iws d of
                    None \<Rightarrow> Inr (s, precondition_failed ''Definition not found'')
                  | Some doc \<Rightarrow>
                      bindE (document_task_ids doc) (\<lambda>expected_task_ids.
                      let succeeded_task_ids = map tx_task_definition_id
                            (filter (\<lambda>t. tx_state t = TS_SUCCEEDED) (tasks_of s w)) in
                      if set expected_task_ids \<noteq> set succeeded_task_ids
                      then Inr (s, precondition_failed ''Not all tasks succeeded'')
                      else
                        bindE (thaw_json output) (\<lambda>output_payload.
                        bindE (update_workflows
                                 (\<lambda>r. wx_id r = w \<and> wx_state r = WF_RUNNING \<and>
                                      wx_revision r = expected_workflow_revision)
                                 (\<lambda>r. r\<lparr>wx_state := WF_SUCCEEDED, wx_has_output := True,
                                        wx_output := jsonb output_payload,
                                        wx_revision := wx_revision r + 1,
                                        wx_updated_at_utc := now_utc\<rparr>) s) (\<lambda>(s1, n).
                        if n = 0 then Inr (s1, occ_conflict ''OCC conflict on workflow success'')
                        else
                          bindE (insert_history (mk_history hid w None None ''WorkflowExecutionSucceeded''
                                   [(''has_output'', PyBool True)] now_utc) s1) (\<lambda>s2.
                          Inr (s2, committed))))))))"

text \<open>
  \<open>commit_workflow_failure\<close> and \<open>commit_workflow_cancellation\<close> differ in the two states,
  the messages and the history entry.
\<close>

definition settle_drained_workflow ::
  "workflow_state \<Rightarrow> workflow_state \<Rightarrow> string \<Rightarrow> string \<Rightarrow> history_entry_id \<Rightarrow> workflow_execution_id
    \<Rightarrow> int \<Rightarrow> datetime \<Rightarrow> db \<Rightarrow> py_exn + db \<times> commit_outcome" where
  "settle_drained_workflow from_state to_state conflict category hid w expected_workflow_revision
       now_utc s =
     (case get_workflow s w of
        None \<Rightarrow> Inr (s, precondition_failed ''Workflow not found'')
      | Some wf_row \<Rightarrow>
          if wx_state wf_row \<noteq> from_state \<or> wx_revision wf_row \<noteq> expected_workflow_revision
          then Inr (s, occ_conflict
                 (''Workflow not in '' @ workflow_state_str from_state @ '' or revision mismatch''))
          else
            (case get_definition s (wx_definition_id wf_row) of
               None \<Rightarrow> Inr (s, precondition_failed ''Definition not found'')
             | Some d \<Rightarrow>
                 (case dr_validated_iws d of
                    None \<Rightarrow> Inr (s, precondition_failed ''Definition not found'')
                  | Some doc \<Rightarrow>
                      bindE (document_task_ids doc) (\<lambda>expected_task_ids.
                      let terminal_task_ids = map tx_task_definition_id
                            (filter (\<lambda>t. ts_terminal (tx_state t)) (tasks_of s w)) in
                      if set expected_task_ids \<noteq> set terminal_task_ids
                      then Inr (s, precondition_failed ''Tasks remain active or missing'')
                      else
                        bindE (update_workflows
                                 (\<lambda>r. wx_id r = w \<and> wx_state r = from_state \<and>
                                      wx_revision r = expected_workflow_revision)
                                 (\<lambda>r. r\<lparr>wx_state := to_state, wx_revision := wx_revision r + 1,
                                        wx_updated_at_utc := now_utc\<rparr>) s) (\<lambda>(s1, n).
                        if n = 0 then Inr (s1, occ_conflict conflict)
                        else
                          bindE (insert_history (mk_history hid w None None category
                                   [(''state'', PyStr (workflow_state_str to_state))] now_utc) s1) (\<lambda>s2.
                          Inr (s2, committed)))))))"

definition commit_workflow_failure ::
  "history_entry_id \<Rightarrow> workflow_execution_id \<Rightarrow> int \<Rightarrow> datetime \<Rightarrow> db \<Rightarrow> py_exn + db \<times> commit_outcome" where
  "commit_workflow_failure =
     settle_drained_workflow WF_FAILING WF_FAILED ''OCC conflict on workflow terminal failure''
       ''WorkflowExecutionFailed''"

definition commit_workflow_cancellation ::
  "history_entry_id \<Rightarrow> workflow_execution_id \<Rightarrow> int \<Rightarrow> datetime \<Rightarrow> db \<Rightarrow> py_exn + db \<times> commit_outcome" where
  "commit_workflow_cancellation =
     settle_drained_workflow WF_CANCELLING WF_CANCELLED ''OCC conflict on workflow terminal cancellation''
       ''WorkflowExecutionCancelled''"

end
