(* ===== verification/Tx_Drain.thy ===== *)
theory Tx_Drain
  imports Tx_Settle
begin

text \<open>
  Draining, internal failures and the retry timer: the last part of
  \<open>src/nexusflow/persistence/transactions.py\<close>, with the scheduler's own update of a
  cancellation deadline (\<open>orchestration/scheduler.py\<close>) and the state change startup recovery
  makes on a populated workflow (\<open>orchestration/recovery.py\<close>).
\<close>

definition commit_drain_task_cancellation ::
  "history_entry_id \<Rightarrow> task_execution_id \<Rightarrow> int \<Rightarrow> datetime \<Rightarrow> db \<Rightarrow> py_exn + db \<times> commit_outcome" where
  "commit_drain_task_cancellation hid task_id expected_task_revision now_utc s =
     (case get_task s task_id of
        None \<Rightarrow> Inr (s, precondition_failed ''Task not eligible for drain cancel'')
      | Some task_row \<Rightarrow>
          if \<not> ts_unstarted (tx_state task_row)
          then Inr (s, precondition_failed ''Task not eligible for drain cancel'')
          else if workflow_state_of s (tx_workflow_id task_row) \<notin> {Some WF_FAILING, Some WF_CANCELLING}
          then Inr (s, precondition_failed ''Owning workflow is not draining'')
          else
            bindE (update_tasks
                     (\<lambda>r. tx_id r = task_id \<and> ts_unstarted (tx_state r) \<and>
                          tx_revision r = expected_task_revision)
                     (\<lambda>r. r\<lparr>tx_state := TS_CANCELLED, tx_retry_ready_at_utc := None,
                            tx_revision := tx_revision r + 1, tx_updated_at_utc := now_utc\<rparr>) s) (\<lambda>(s1, n).
            if n = 0 then Inr (s1, occ_conflict ''OCC conflict cancelling drain task'')
            else
              bindE (insert_history (mk_history hid (tx_workflow_id task_row) (Some task_id) None
                       ''TaskExecutionCancelled'' [(''reason'', PyStr ''Workflow draining'')] now_utc) s1)
                (\<lambda>s2. Inr (s2, committed))))"

text \<open>
  The common shape of the two cancellations of an active attempt: the extra condition on the
  attempt, the messages and the history entry are what differs.
\<close>

definition cancel_active_attempt ::
  "(attempt_row \<Rightarrow> bool) \<Rightarrow> string \<Rightarrow> string \<Rightarrow> string \<Rightarrow> (string \<times> pyval) list
    \<Rightarrow> history_entry_id \<Rightarrow> attempt_id \<Rightarrow> int \<Rightarrow> task_execution_id \<Rightarrow> int \<Rightarrow> datetime \<Rightarrow> db
    \<Rightarrow> py_exn + db \<times> commit_outcome \<times> workflow_execution_id option" where
  "cancel_active_attempt extra attempt_conflict task_conflict category payload hid attempt_id
       expected_attempt_revision task_id expected_task_revision now_utc s =
     (case get_task s task_id of
        None \<Rightarrow> Inr (s, precondition_failed ''Task not found'', None)
      | Some task_row \<Rightarrow>
          let task_wf = tx_workflow_id task_row in
          if workflow_state_of s task_wf \<notin> {Some WF_FAILING, Some WF_CANCELLING}
          then Inr (s, precondition_failed ''Workflow not in drain state'', None)
          else
            bindE (update_attempts
                     (\<lambda>r. ax_id r = attempt_id \<and> extra r \<and> ax_task_id r = task_id \<and>
                          as_active (ax_state r) \<and> ax_revision r = expected_attempt_revision)
                     (\<lambda>r. r\<lparr>ax_state := AS_CANCELLED, ax_revision := ax_revision r + 1,
                            ax_updated_at_utc := now_utc\<rparr>) s) (\<lambda>(s1, n).
            if n = 0 then Inr (s1, occ_conflict attempt_conflict, None)
            else
              bindE (update_tasks
                       (\<lambda>r. tx_id r = task_id \<and> tx_workflow_id r = task_wf \<and>
                            tx_state r = TS_RUNNING \<and> tx_revision r = expected_task_revision)
                       (\<lambda>r. r\<lparr>tx_state := TS_CANCELLED, tx_revision := tx_revision r + 1,
                              tx_updated_at_utc := now_utc\<rparr>) s1) (\<lambda>(s2, m).
              if m = 0 then Inr (s2, occ_conflict task_conflict, None)
              else
                bindE (insert_history (mk_history hid task_wf (Some task_id) (Some attempt_id)
                         category payload now_utc) s2) (\<lambda>s3.
                Inr (s3, committed, Some task_wf)))))"

definition commit_worker_cancellation_ack ::
  "history_entry_id \<Rightarrow> attempt_id \<Rightarrow> worker_session_id \<Rightarrow> int \<Rightarrow> task_execution_id \<Rightarrow> int \<Rightarrow> datetime
    \<Rightarrow> db \<Rightarrow> py_exn + db \<times> commit_outcome \<times> workflow_execution_id option" where
  "commit_worker_cancellation_ack hid attempt_id worker_session_id expected_attempt_revision task_id
       expected_task_revision now_utc =
     cancel_active_attempt (\<lambda>r. ax_worker_session_id r = worker_session_id)
       ''OCC conflict on attempt cancel ack'' ''OCC conflict on task cancel ack''
       ''AttemptCancellationAcknowledged'' [(''worker_session_id'', PyStr (uuid_str worker_session_id))]
       hid attempt_id expected_attempt_revision task_id expected_task_revision now_utc"

definition commit_internal_cancellation_deadline ::
  "history_entry_id \<Rightarrow> attempt_id \<Rightarrow> int \<Rightarrow> task_execution_id \<Rightarrow> int \<Rightarrow> datetime
    \<Rightarrow> db \<Rightarrow> py_exn + db \<times> commit_outcome \<times> workflow_execution_id option" where
  "commit_internal_cancellation_deadline hid attempt_id expected_attempt_revision task_id
       expected_task_revision now_utc =
     cancel_active_attempt
       (\<lambda>r. case ax_cancellation_deadline_utc r of None \<Rightarrow> False | Some t \<Rightarrow> t \<le> now_utc)
       ''OCC conflict on cancel deadline'' ''OCC conflict on task cancel deadline''
       ''AttemptCancellationDeadlineExpired'' [(''expired_at'', PyStr (isoformat now_utc))]
       hid attempt_id expected_attempt_revision task_id expected_task_revision now_utc"

section \<open>Internal failures\<close>

text \<open>The attempt filters the cause's code adds; another code adds none.\<close>

definition internal_attempt_filter ::
  "failure_cause \<Rightarrow> worker_session_id option \<Rightarrow> datetime \<Rightarrow> attempt_row \<Rightarrow> bool" where
  "internal_attempt_filter cause expected_lost_worker_session_id now_utc r =
     (if fc_code cause = ''START_DEADLINE_EXPIRED''
      then ax_state r = AS_CLAIMED \<and> ax_start_deadline_utc r \<le> now_utc
      else if fc_code cause = ''EXECUTION_TIMEOUT''
      then ax_state r = AS_RUNNING \<and>
           (case ax_execution_timeout_utc r of None \<Rightarrow> False | Some t \<Rightarrow> t \<le> now_utc)
      else if fc_code cause = ''WORKER_LOSS''
      then (case expected_lost_worker_session_id of None \<Rightarrow> True | Some ws \<Rightarrow> ax_worker_session_id r = ws) \<and>
           as_active (ax_state r)
      else True)"

text \<open>
  Settling the task: the retry when it may be retried and the budget lasts, the failure
  otherwise. The result is the new state, \<open>None\<close> when neither update matched.
\<close>

definition settle_task_retry_or_fail ::
  "bool \<Rightarrow> datetime option \<Rightarrow> task_execution_id \<Rightarrow> workflow_execution_id \<Rightarrow> int \<Rightarrow> failure_cause
    \<Rightarrow> datetime \<Rightarrow> db \<Rightarrow> py_exn + db \<times> string option" where
  "settle_task_retry_or_fail can_retry retry_ready_at_utc task_id task_wf expected_task_revision cause
       now_utc s =
     bindE (if can_retry
            then update_tasks
                   (\<lambda>r. tx_id r = task_id \<and> tx_workflow_id r = task_wf \<and> tx_state r = TS_RUNNING \<and>
                        tx_next_attempt_ordinal r \<le> tx_max_attempts r \<and>
                        tx_revision r = expected_task_revision)
                   (\<lambda>r. r\<lparr>tx_state := TS_RETRY_WAIT, tx_retry_ready_at_utc := retry_ready_at_utc,
                          tx_revision := tx_revision r + 1, tx_updated_at_utc := now_utc\<rparr>) s
            else Inr (s, 0)) (\<lambda>(s1, n).
     if n > 0 then Inr (s1, Some ''RETRY_WAIT'')
     else
       bindE (fail_task
                (\<lambda>r. tx_id r = task_id \<and> tx_workflow_id r = task_wf \<and> tx_state r = TS_RUNNING \<and>
                     tx_revision r = expected_task_revision) cause now_utc s1) (\<lambda>(s2, m).
       Inr (s2, if m = 0 then None else Some ''FAILED'')))"

definition commit_internal_attempt_failure ::
  "history_entry_id \<Rightarrow> attempt_id \<Rightarrow> int \<Rightarrow> task_execution_id \<Rightarrow> int \<Rightarrow> failure_cause \<Rightarrow> bool
    \<Rightarrow> datetime option \<Rightarrow> worker_session_id option \<Rightarrow> datetime \<Rightarrow> db
    \<Rightarrow> py_exn + db \<times> commit_outcome \<times> workflow_execution_id option \<times> string" where
  "commit_internal_attempt_failure hid attempt_id expected_attempt_revision task_id
       expected_task_revision cause is_retryable retry_ready_at_utc expected_lost_worker_session_id
       now_utc s =
     (case get_task s task_id of
        None \<Rightarrow> Inr (s, precondition_failed ''Task not found'', None, [])
      | Some task_row \<Rightarrow>
          let task_wf = tx_workflow_id task_row; wf_state = workflow_state_of s task_wf in
          bindE (failure_details_json cause) (\<lambda>details.
          bindE (update_attempts
                   (\<lambda>r. ax_id r = attempt_id \<and> ax_task_id r = task_id \<and>
                        ax_revision r = expected_attempt_revision \<and>
                        internal_attempt_filter cause expected_lost_worker_session_id now_utc r)
                   (\<lambda>r. r\<lparr>ax_state := AS_FAILED, ax_failure := failure_cols cause details,
                          ax_revision := ax_revision r + 1, ax_updated_at_utc := now_utc\<rparr>) s) (\<lambda>(s1, n).
          if n = 0 then Inr (s1, occ_conflict ''OCC conflict or stale attempt'', None, [])
          else
            let can_retry = (wf_state = Some WF_RUNNING \<and> is_retryable \<and> retry_ready_at_utc \<noteq> None) in
            bindE (settle_task_retry_or_fail can_retry retry_ready_at_utc task_id task_wf
                     expected_task_revision cause now_utc s1) (\<lambda>(s2, settled).
            case settled of
              None \<Rightarrow> Inr (s2, occ_conflict ''OCC conflict on task failure'', None, [])
            | Some task_new_state \<Rightarrow>
                bindE (insert_history (mk_history hid task_wf (Some task_id) (Some attempt_id)
                         ''InternalAttemptFailureSettled''
                         [(''cause_code'', PyStr (fc_code cause)),
                          (''task_state'', PyStr task_new_state)] now_utc) s2) (\<lambda>s3.
                Inr (s3, committed, Some task_wf, task_new_state))))))"

section \<open>The retry timer and two direct updates\<close>

definition commit_retry_ready ::
  "history_entry_id \<Rightarrow> task_execution_id \<Rightarrow> int \<Rightarrow> workflow_execution_id \<Rightarrow> datetime \<Rightarrow> db
    \<Rightarrow> py_exn + db \<times> commit_outcome" where
  "commit_retry_ready hid task_id expected_task_revision w now_utc s =
     (if workflow_state_of s w \<noteq> Some WF_RUNNING
      then Inr (s, precondition_failed ''Workflow is not RUNNING'')
      else
        bindE (update_tasks
                 (\<lambda>r. tx_id r = task_id \<and> tx_workflow_id r = w \<and> tx_state r = TS_RETRY_WAIT \<and>
                      (case tx_retry_ready_at_utc r of None \<Rightarrow> False | Some t \<Rightarrow> t \<le> now_utc) \<and>
                      tx_revision r = expected_task_revision)
                 (\<lambda>r. r\<lparr>tx_state := TS_RUNNABLE, tx_retry_ready_at_utc := None,
                        tx_revision := tx_revision r + 1, tx_updated_at_utc := now_utc\<rparr>) s) (\<lambda>(s1, n).
        if n = 0 then Inr (s1, occ_conflict ''OCC conflict on retry timer wakeup'')
        else
          bindE (insert_history (mk_history hid w (Some task_id) None ''TaskMarkedRunnable''
                   [(''reason'', PyStr ''RetryTimerExpired'')] now_utc) s1) (\<lambda>s2.
          Inr (s2, committed))))"

text \<open>\<open>drain_workflow\<close> writes the cancellation deadline of an attempt without a revision check.\<close>

definition set_cancellation_deadline :: "attempt_id \<Rightarrow> datetime \<Rightarrow> db \<Rightarrow> py_exn + db" where
  "set_cancellation_deadline attempt_id cancel_deadline s =
     bindE (update_attempts (\<lambda>r. ax_id r = attempt_id)
              (\<lambda>r. r\<lparr>ax_cancellation_deadline_utc := Some cancel_deadline\<rparr>) s) (\<lambda>(s1, n). Inr s1)"

text \<open>
  Recovery's first phase on one \<open>INITIALIZING\<close> workflow: with at least one task row it is moved
  to \<open>RUNNING\<close>, without a membership check and without a history entry.
\<close>

definition recover_initializing :: "workflow_execution_id \<Rightarrow> datetime \<Rightarrow> db \<Rightarrow> py_exn + db \<times> bool" where
  "recover_initializing w now_utc s =
     (if workflow_state_of s w = Some WF_INITIALIZING \<and> tasks_of s w \<noteq> []
      then bindE (update_workflows (\<lambda>r. wx_id r = w)
                    (\<lambda>r. r\<lparr>wx_state := WF_RUNNING, wx_revision := wx_revision r + 1,
                           wx_updated_at_utc := now_utc\<rparr>) s) (\<lambda>(s1, n). Inr (s1, True))
      else Inr (s, False))"

end
