(* ===== verification/Evolution.thy ===== *)
theory Evolution
  imports Tx_Drain
begin

text \<open>
  How rows evolve. Every table with a revision column follows one discipline: a row changes only
  by a legal state transition that adds one to its revision, and a terminal row never changes.
  The discipline is a locale over the row's key, revision, state and covered columns; it is
  interpreted for workflows, tasks and attempts, and every transaction is shown to obey it.
\<close>

section \<open>The state machines\<close>

inductive wf_trans :: "workflow_state \<Rightarrow> workflow_state \<Rightarrow> bool" where
  wf_start: "wf_trans WF_INITIALIZING WF_RUNNING"
| wf_cancel_early: "wf_trans WF_INITIALIZING WF_CANCELLING"
| wf_fail: "wf_trans WF_RUNNING WF_FAILING"
| wf_cancel: "wf_trans WF_RUNNING WF_CANCELLING"
| wf_succeed: "wf_trans WF_RUNNING WF_SUCCEEDED"
| wf_failed: "wf_trans WF_FAILING WF_FAILED"
| wf_cancelled: "wf_trans WF_CANCELLING WF_CANCELLED"

inductive ts_trans :: "task_state \<Rightarrow> task_state \<Rightarrow> bool" where
  ts_ready: "ts_trans TS_PENDING TS_RUNNABLE"
| ts_claim: "ts_trans TS_RUNNABLE TS_RUNNING"
| ts_succeed: "ts_trans TS_RUNNING TS_SUCCEEDED"
| ts_retry: "ts_trans TS_RUNNING TS_RETRY_WAIT"
| ts_fail: "ts_trans TS_RUNNING TS_FAILED"
| ts_cancel_active: "ts_trans TS_RUNNING TS_CANCELLED"
| ts_retry_ready: "ts_trans TS_RETRY_WAIT TS_RUNNABLE"
| ts_drain: "ts_unstarted s \<Longrightarrow> ts_trans s TS_CANCELLED"

inductive as_trans :: "attempt_state \<Rightarrow> attempt_state \<Rightarrow> bool" where
  as_start: "as_trans AS_CLAIMED AS_RUNNING"
| as_succeed: "as_trans AS_RUNNING AS_SUCCEEDED"
| as_fail: "as_active s \<Longrightarrow> as_trans s AS_FAILED"
| as_cancel: "as_active s \<Longrightarrow> as_trans s AS_CANCELLED"

inductive_simps wf_trans_simps [simp]: "wf_trans s t"
inductive_simps ts_trans_simps [simp]: "ts_trans s t"
inductive_simps as_trans_simps [simp]: "as_trans s t"

section \<open>Versioned rows\<close>

text \<open>
  \<open>core\<close> is what the revision covers: rows with the same core have the same revision and
  state. \<open>kept\<close> is what a transition may not touch.
\<close>

locale versioned_rows =
  fixes key :: "'r \<Rightarrow> nat"
    and rev :: "'r \<Rightarrow> int"
    and st :: "'r \<Rightarrow> 's"
    and core :: "'r \<Rightarrow> 'c"
    and trans :: "'s \<Rightarrow> 's \<Rightarrow> bool"
    and terminal :: "'s \<Rightarrow> bool"
    and kept :: "'r \<Rightarrow> 'r \<Rightarrow> bool"
  assumes core_state: "core r = core r' \<Longrightarrow> key r = key r' \<and> rev r = rev r' \<and> st r = st r'"
    and terminal_stuck: "terminal s \<Longrightarrow> \<not> trans s t"
begin

definition row_step :: "'r \<Rightarrow> 'r \<Rightarrow> bool" where
  "row_step r r' \<longleftrightarrow> core r' = core r \<or>
     key r' = key r \<and> trans (st r) (st r') \<and> rev r' = rev r + 1 \<and> kept r r'"

definition evolves :: "'r \<Rightarrow> 'r \<Rightarrow> bool" where
  "evolves = row_step\<^sup>*\<^sup>*"

definition table_evolves :: "'r list \<Rightarrow> 'r list \<Rightarrow> bool" where
  "table_evolves rows rows' \<longleftrightarrow> (\<forall>r \<in> set rows. \<exists>r' \<in> set rows'. evolves r r')"

lemma evolves_refl [simp]: "evolves r r"
  by (simp add: evolves_def)

lemma evolves_trans: "evolves r r' \<Longrightarrow> evolves r' r'' \<Longrightarrow> evolves r r''"
  unfolding evolves_def by (rule rtranclp_trans)

lemma row_step_evolves: "row_step r r' \<Longrightarrow> evolves r r'"
  by (simp add: evolves_def)

lemma evolves_key: "evolves r r' \<Longrightarrow> key r' = key r"
  unfolding evolves_def
  by (induction rule: rtranclp_induct) (auto simp: row_step_def dest: core_state)

lemma evolves_state: "evolves r r' \<Longrightarrow> trans\<^sup>*\<^sup>* (st r) (st r')"
  unfolding evolves_def
proof (induction rule: rtranclp_induct)
  case (step r' r'')
  then show ?case
    by (auto simp: row_step_def dest: core_state intro: rtranclp.rtrancl_into_rtrancl)
qed simp

lemma evolves_revision:
  "evolves r r' \<Longrightarrow> rev r \<le> rev r' \<and> (rev r = rev r' \<longrightarrow> core r = core r')"
  unfolding evolves_def
proof (induction rule: rtranclp_induct)
  case (step r' r'')
  then show ?case
    by (auto simp: row_step_def dest: core_state)
qed simp

lemma evolves_terminal: "evolves r r' \<Longrightarrow> terminal (st r) \<Longrightarrow> core r' = core r"
  unfolding evolves_def
proof (induction rule: rtranclp_induct)
  case (step r' r'')
  then have "core r' = core r" by simp
  moreover have "core r'' = core r'"
    using step.hyps(2) terminal_stuck core_state [OF calculation] step.prems
    by (auto simp: row_step_def)
  ultimately show ?case by simp
qed simp

lemma table_evolves_refl [simp]: "table_evolves rows rows"
  by (auto simp: table_evolves_def intro: evolves_refl)

lemma table_evolves_trans:
  "table_evolves a b \<Longrightarrow> table_evolves b c \<Longrightarrow> table_evolves a c"
  unfolding table_evolves_def by (blast intro: evolves_trans)

lemma table_evolves_update:
  assumes "\<And>r. r \<in> set rows \<Longrightarrow> P r \<Longrightarrow> row_step r (f r)"
  shows "table_evolves rows (update_rows P f rows)"
  unfolding table_evolves_def
proof
  fix r assume r: "r \<in> set rows"
  have "(if P r then f r else r) \<in> set (update_rows P f rows)"
    using r by (auto simp: set_update_rows)
  moreover have "evolves r (if P r then f r else r)"
    using assms [OF r] by (auto intro: row_step_evolves)
  ultimately show "\<exists>r' \<in> set (update_rows P f rows). evolves r r'" by blast
qed

lemma table_evolves_append [simp]: "table_evolves rows (rows @ new)"
  by (auto simp: table_evolves_def intro: evolves_refl)

text \<open>Reading a row, losing the race and coming back: the revision tells.\<close>

lemma stale_revision:
  assumes "table_evolves rows rows'" and "r \<in> set rows" and "distinct (map key rows')"
    and "r' \<in> set rows'" and "key r' = key r"
  shows "evolves r r'"
proof -
  from assms(1,2) obtain q where q: "q \<in> set rows'" "evolves r q" unfolding table_evolves_def by blast
  with assms(5) evolves_key have "key q = key r'" by simp
  with distinct_map_eqD [OF assms(3) q(1) assms(4)] q(2) show ?thesis by simp
qed

end

section \<open>The three tables\<close>

text \<open>The columns of a workflow row no transaction changes.\<close>

definition wf_kept :: "workflow_row \<Rightarrow> workflow_row \<Rightarrow> bool" where
  "wf_kept r r' \<longleftrightarrow> wx_definition_id r' = wx_definition_id r \<and> wx_input r' = wx_input r \<and>
     wx_created_at_utc r' = wx_created_at_utc r"

text \<open>
  A task keeps its identity and its budget; its input is written once, when it leaves
  \<open>PENDING\<close>; its ordinal counter moves by one, and only when it is claimed.
\<close>

definition task_kept :: "task_row \<Rightarrow> task_row \<Rightarrow> bool" where
  "task_kept r r' \<longleftrightarrow> tx_workflow_id r' = tx_workflow_id r \<and>
     tx_task_definition_id r' = tx_task_definition_id r \<and> tx_max_attempts r' = tx_max_attempts r \<and>
     tx_created_at_utc r' = tx_created_at_utc r \<and>
     (tx_state r = TS_PENDING \<or> tx_has_input r' = tx_has_input r \<and> tx_stable_input r' = tx_stable_input r) \<and>
     tx_next_attempt_ordinal r' = tx_next_attempt_ordinal r + (if tx_state r' = TS_RUNNING then 1 else 0)"

text \<open>An attempt keeps its task, ordinal, worker and start deadline.\<close>

definition attempt_kept :: "attempt_row \<Rightarrow> attempt_row \<Rightarrow> bool" where
  "attempt_kept r r' \<longleftrightarrow> ax_task_id r' = ax_task_id r \<and> ax_ordinal r' = ax_ordinal r \<and>
     ax_worker_session_id r' = ax_worker_session_id r \<and>
     ax_start_deadline_utc r' = ax_start_deadline_utc r \<and> ax_created_at_utc r' = ax_created_at_utc r"

text \<open>The revision of an attempt does not cover its cancellation deadline.\<close>

definition attempt_core :: "attempt_row \<Rightarrow> attempt_row" where
  "attempt_core r = r\<lparr>ax_cancellation_deadline_utc := None\<rparr>"

lemma attempt_core_eqD:
  assumes "attempt_core r = attempt_core r'"
  shows "ax_id r = ax_id r'" "ax_revision r = ax_revision r'" "ax_state r = ax_state r'"
    "ax_task_id r = ax_task_id r'" "ax_ordinal r = ax_ordinal r'"
    "ax_worker_session_id r = ax_worker_session_id r'" "ax_failure r = ax_failure r'"
  using arg_cong [OF assms, of ax_id] arg_cong [OF assms, of ax_revision] arg_cong [OF assms, of ax_state]
    arg_cong [OF assms, of ax_task_id] arg_cong [OF assms, of ax_ordinal]
    arg_cong [OF assms, of ax_worker_session_id] arg_cong [OF assms, of ax_failure]
  by (simp_all add: attempt_core_def)

interpretation wf_rows: versioned_rows wx_id wx_revision wx_state id wf_trans
    "\<lambda>s. wf_terminal s" wf_kept
  by unfold_locales auto

interpretation task_rows: versioned_rows tx_id tx_revision tx_state id ts_trans
    "\<lambda>s. ts_terminal s" task_kept
  by unfold_locales auto

interpretation attempt_rows: versioned_rows ax_id ax_revision ax_state attempt_core as_trans
    "\<lambda>s. as_terminal s" attempt_kept
  by unfold_locales (auto dest: attempt_core_eqD)

section \<open>The store\<close>

definition db_evolves :: "db \<Rightarrow> db \<Rightarrow> bool" where
  "db_evolves s s' \<longleftrightarrow>
     (\<exists>new. db_definitions s' = db_definitions s @ new) \<and>
     wf_rows.table_evolves (db_workflows s) (db_workflows s') \<and>
     task_rows.table_evolves (db_tasks s) (db_tasks s') \<and>
     attempt_rows.table_evolves (db_attempts s) (db_attempts s') \<and>
     (\<exists>new. db_history s' = db_history s @ new) \<and>
     (\<exists>new. db_idempotency s' = db_idempotency s @ new)"

lemma db_evolves_refl [simp]: "db_evolves s s"
  by (simp add: db_evolves_def)

lemma db_evolves_trans: "db_evolves s s' \<Longrightarrow> db_evolves s' s'' \<Longrightarrow> db_evolves s s''"
  unfolding db_evolves_def
  by (metis append.assoc attempt_rows.table_evolves_trans task_rows.table_evolves_trans
      wf_rows.table_evolves_trans)

section \<open>Reasoning about transactions\<close>

text \<open>\<open>post m Q\<close>: if the computation returns, its result satisfies \<open>Q\<close>.\<close>

definition post :: "'e + 'a \<Rightarrow> ('a \<Rightarrow> bool) \<Rightarrow> bool" where
  "post m Q \<longleftrightarrow> (\<forall>x. m = Inr x \<longrightarrow> Q x)"

named_theorems wp "weakest preconditions of the statements"

lemma postI: "(\<And>x. m = Inr x \<Longrightarrow> Q x) \<Longrightarrow> post m Q"
  by (simp add: post_def)

lemma postD: "post m Q \<Longrightarrow> m = Inr x \<Longrightarrow> Q x"
  by (simp add: post_def)

lemma post_Inr [wp]: "post (Inr x) Q \<longleftrightarrow> Q x"
  by (simp add: post_def)

lemma post_Inl [wp]: "post (Inl e) Q"
  by (simp add: post_def)

lemma post_bindE [wp]: "post (bindE m f) Q \<longleftrightarrow> post m (\<lambda>x. post (f x) Q)"
  by (cases m) (auto simp: post_def)

lemma post_if [wp]: "post (if c then m else m') Q \<longleftrightarrow> (if c then post m Q else post m' Q)"
  by simp

lemma post_option [wp]:
  "post (case x of None \<Rightarrow> m | Some y \<Rightarrow> f y) Q \<longleftrightarrow> (case x of None \<Rightarrow> post m Q | Some y \<Rightarrow> post (f y) Q)"
  by (cases x) simp_all

lemma post_prod [wp]: "post (case p of (x, y) \<Rightarrow> f x y) Q \<longleftrightarrow> (case p of (x, y) \<Rightarrow> post (f x y) Q)"
  by (cases p) simp

lemma post_update_workflows [wp]:
  "post (update_workflows P f s) Q \<longleftrightarrow> (list_all workflow_row_ok (update_rows P f (db_workflows s)) \<longrightarrow>
     Q (s\<lparr>db_workflows := update_rows P f (db_workflows s)\<rparr>, count_rows P (db_workflows s)))"
  by (auto simp: post_def db_stmt)

lemma post_update_tasks [wp]:
  "post (update_tasks P f s) Q \<longleftrightarrow> (list_all task_row_ok (update_rows P f (db_tasks s)) \<longrightarrow>
     Q (s\<lparr>db_tasks := update_rows P f (db_tasks s)\<rparr>, count_rows P (db_tasks s)))"
  by (auto simp: post_def db_stmt)

lemma post_update_attempts [wp]:
  "post (update_attempts P f s) Q \<longleftrightarrow> (list_all attempt_row_ok (update_rows P f (db_attempts s)) \<and>
     distinct (active_attempt_tasks (update_rows P f (db_attempts s))) \<longrightarrow>
     Q (s\<lparr>db_attempts := update_rows P f (db_attempts s)\<rparr>, count_rows P (db_attempts s)))"
  by (auto simp: post_def db_stmt)

lemma post_insert_history [wp]:
  "post (insert_history r s) Q \<longleftrightarrow> ((hx_id r \<notin> set (map hx_id (db_history s)) \<and>
     hx_workflow_id r \<in> set (map wx_id (db_workflows s)) \<and>
     (case hx_task_id r of None \<Rightarrow> True | Some t \<Rightarrow> t \<in> set (map tx_id (db_tasks s))) \<and>
     (case hx_attempt_id r of None \<Rightarrow> True | Some a \<Rightarrow> a \<in> set (map ax_id (db_attempts s)))) \<longrightarrow>
     Q (s\<lparr>db_history := db_history s @ [r]\<rparr>))"
  unfolding post_def insert_history_Inr by blast

lemma post_insert_attempt [wp]:
  "post (insert_attempt r s) Q \<longleftrightarrow> (ax_id r \<notin> set (map ax_id (db_attempts s)) \<and> attempt_row_ok r \<and>
     ax_task_id r \<in> set (map tx_id (db_tasks s)) \<and>
     attempt_key r \<notin> set (map attempt_key (db_attempts s)) \<and>
     distinct (active_attempt_tasks (db_attempts s @ [r])) \<longrightarrow>
     Q (s\<lparr>db_attempts := db_attempts s @ [r]\<rparr>))"
  unfolding post_def insert_attempt_Inr by blast

lemma post_insert_workflow [wp]:
  "post (insert_workflow r s) Q \<longleftrightarrow> (wx_id r \<notin> set (map wx_id (db_workflows s)) \<and> workflow_row_ok r \<and>
     wx_definition_id r \<in> set (map dr_definition_id (db_definitions s)) \<longrightarrow>
     Q (s\<lparr>db_workflows := db_workflows s @ [r]\<rparr>))"
  unfolding post_def insert_workflow_Inr by blast

lemma post_insert_definition [wp]:
  "post (insert_definition r s) Q \<longleftrightarrow> (dr_definition_id r \<notin> set (map dr_definition_id (db_definitions s)) \<and>
     definition_row_ok r \<longrightarrow> Q (s\<lparr>db_definitions := db_definitions s @ [r]\<rparr>))"
  unfolding post_def insert_definition_Inr by blast

lemma post_mono: "post m P \<Longrightarrow> (\<And>x. m = Inr x \<Longrightarrow> P x \<Longrightarrow> Q x) \<Longrightarrow> post m Q"
  by (simp add: post_def)

lemma post_fst_const [simp]: "post m (\<lambda>x. True)"
  by (simp add: post_def)

end
