(* ===== verification/Tx_Evolution.thy ===== *)
theory Tx_Evolution
  imports Evolution
begin

text \<open>
  Every transaction obeys the discipline of versioned rows: whatever it returns, and whether or
  not it committed, the store has only evolved.
\<close>

abbreviation keeps_evolving :: "db \<Rightarrow> py_exn + db \<times> 'a \<Rightarrow> bool" where
  "keeps_evolving s m \<equiv> post m (\<lambda>r. db_evolves s (fst r))"

lemma post_any: "(\<And>x. Q x) \<Longrightarrow> post m Q"
  by (simp add: post_def)

named_theorems row_simps "the row disciplines, unfolded"

lemmas row_discipline [row_simps] =
  wf_rows.row_step_def task_rows.row_step_def attempt_rows.row_step_def
  wf_kept_def task_kept_def attempt_kept_def db_evolves_def update_rows_none

lemmas table_update_rules =
  wf_rows.table_evolves_update task_rows.table_evolves_update attempt_rows.table_evolves_update

lemma evolves_appends:
  "db_evolves s s1 \<Longrightarrow> db_evolves s (s1\<lparr>db_definitions := db_definitions s1 @ [d]\<rparr>)"
  "db_evolves s s1 \<Longrightarrow> db_evolves s (s1\<lparr>db_history := db_history s1 @ [h]\<rparr>)"
  "db_evolves s s1 \<Longrightarrow> db_evolves s (s1\<lparr>db_workflows := db_workflows s1 @ [r], db_history := db_history s1 @ [h]\<rparr>)"
  by (erule db_evolves_trans, simp add: db_evolves_def)+

lemma claim_idempotency_key_evolves:
  "keeps_evolving s (claim_idempotency_key operation key fp resource now s)"
  by (auto simp: claim_idempotency_key_def insert_idempotency_or_ignore_def wp row_simps
      intro!: post_any split: option.split)

lemma commit_registered_definition_evolves:
  "keeps_evolving s (commit_registered_definition d n spec yaml key fp now s)"
  unfolding commit_registered_definition_def post_bindE
  by (rule post_mono [OF claim_idempotency_key_evolves])
    (auto simp: wp evolves_appends intro!: post_any split: option.split)

lemma commit_workflow_creation_evolves:
  "keeps_evolving s (commit_workflow_creation hid e key fp now s)"
  unfolding commit_workflow_creation_def post_bindE
  by (rule post_mono [OF claim_idempotency_key_evolves])
    (auto simp: wp evolves_appends intro!: post_any split: option.split)

lemma populate_tasks_Inr:
  "foldE (\<lambda>(tid, td). insert_task_or_ignore (new_task_row w now tid td)) tds s = Inr s' \<Longrightarrow>
     \<exists>new. s' = s\<lparr>db_tasks := db_tasks s @ new\<rparr> \<and>
       (\<forall>t \<in> set new. \<exists>(tid, td) \<in> set tds. t = new_task_row w now tid td)"
proof (induction tds arbitrary: s)
  case Nil
  then show ?case by (intro exI [of _ "[]"]) simp
next
  case (Cons p tds)
  obtain tid td where p: "p = (tid, td)" by (cases p)
  from Cons.prems obtain s1 where s1: "insert_task_or_ignore (new_task_row w now tid td) s = Inr s1"
    and rest: "foldE (\<lambda>(tid, td). insert_task_or_ignore (new_task_row w now tid td)) tds s1 = Inr s'"
    by (auto simp: p bindE_eq_Inr)
  from Cons.IH [OF rest] obtain new where new: "s' = s1\<lparr>db_tasks := db_tasks s1 @ new\<rparr>"
    "\<forall>t \<in> set new. \<exists>(tid, td) \<in> set tds. t = new_task_row w now tid td" by blast
  from s1 have "s1 = s \<or> s1 = s\<lparr>db_tasks := db_tasks s @ [new_task_row w now tid td]\<rparr>"
    by (auto simp: insert_task_or_ignore_def bindE_eq_Inr split: if_splits)
  then show ?case
  proof
    assume "s1 = s"
    with new show ?thesis by (intro exI [of _ new]) (auto simp: p)
  next
    assume "s1 = s\<lparr>db_tasks := db_tasks s @ [new_task_row w now tid td]\<rparr>"
    with new show ?thesis
      by (intro exI [of _ "new_task_row w now tid td # new"]) (auto simp: p)
  qed
qed

lemma commit_task_population_evolves:
  "keeps_evolving s (commit_task_population hid w tds now s)"
proof -
  have "post (foldE (\<lambda>(tid, td). insert_task_or_ignore (new_task_row w now tid td)) tds s)
      (\<lambda>s1. post (insert_history h s1) (\<lambda>s2. db_evolves s s2))" for h
    by (rule postI, drule populate_tasks_Inr) (auto simp: wp row_simps)
  then show ?thesis
    by (simp add: commit_task_population_def wp Let_def)
qed

lemma commit_initialization_complete_evolves:
  "keeps_evolving s (commit_initialization_complete hid w rv now s)"
  by (auto simp: commit_initialization_complete_def wp row_simps Let_def
      intro!: post_any table_update_rules split: option.split)

lemma commit_task_readiness_evolves:
  "keeps_evolving s (commit_task_readiness hid t rv w v now s)"
  by (auto simp: commit_task_readiness_def wp row_simps Let_def intro!: post_any table_update_rules)

lemma commit_attempt_ownership_evolves:
  "keeps_evolving s (commit_attempt_ownership hid t rv w ws a dl now s)"
  by (auto simp: commit_attempt_ownership_def wp row_simps Let_def
      intro!: post_any table_update_rules split: option.split)

lemma commit_worker_execution_start_evolves:
  "keeps_evolving s (commit_worker_execution_start hid u a ws rv now s)"
  by (auto simp: commit_worker_execution_start_def wp row_simps Let_def
      intro!: post_any table_update_rules split: option.split)

lemma commit_worker_task_success_evolves:
  "keeps_evolving s (commit_worker_task_success hid a ws arev t trev v now s)"
  by (auto simp: commit_worker_task_success_def wp row_simps Let_def
      intro!: post_any table_update_rules split: option.split)

lemma commit_worker_failure_with_retry_evolves:
  "keeps_evolving s (commit_worker_failure_with_retry hid a ws arev t trev w ready cause now s)"
  by (auto simp: commit_worker_failure_with_retry_def fail_owned_attempt_def wp row_simps Let_def
      intro!: post_any table_update_rules split: option.split)

lemma commit_worker_definitive_failure_evolves:
  "keeps_evolving s (commit_worker_definitive_failure hid a ws arev t trev cause now s)"
  by (auto simp: commit_worker_definitive_failure_def fail_owned_attempt_def fail_task_def wp row_simps
      Let_def intro!: post_any table_update_rules split: option.split)

lemma commit_workflow_failure_direction_evolves:
  "keeps_evolving s (commit_workflow_failure_direction hid w cause now s)"
  by (auto simp: commit_workflow_failure_direction_def wp row_simps Let_def
      intro!: post_any table_update_rules split: option.split)

lemma commit_workflow_cancellation_direction_evolves:
  "keeps_evolving s (commit_workflow_cancellation_direction hid w now s)"
  by (auto simp: commit_workflow_cancellation_direction_def wp row_simps Let_def
      intro!: post_any table_update_rules split: option.split)

lemma commit_workflow_success_evolves:
  "keeps_evolving s (commit_workflow_success hid w rv v now s)"
  by (auto simp: commit_workflow_success_def wp row_simps Let_def
      intro!: post_any table_update_rules split: option.split)

lemma settle_drained_workflow_evolves:
  "wf_trans from_state to_state \<Longrightarrow>
     keeps_evolving s (settle_drained_workflow from_state to_state c cat hid w rv now s)"
  unfolding settle_drained_workflow_def
  by (auto simp del: wf_trans_simps simp: wp row_simps Let_def
      intro!: post_any table_update_rules split: option.split)

lemma commit_workflow_failure_evolves: "keeps_evolving s (commit_workflow_failure hid w rv now s)"
  unfolding commit_workflow_failure_def by (rule settle_drained_workflow_evolves) simp

lemma commit_workflow_cancellation_evolves:
  "keeps_evolving s (commit_workflow_cancellation hid w rv now s)"
  unfolding commit_workflow_cancellation_def by (rule settle_drained_workflow_evolves) simp

lemma commit_drain_task_cancellation_evolves:
  "keeps_evolving s (commit_drain_task_cancellation hid t rv now s)"
  by (auto simp: commit_drain_task_cancellation_def wp row_simps Let_def
      intro!: post_any table_update_rules split: option.split)

lemma cancel_active_attempt_evolves:
  "keeps_evolving s (cancel_active_attempt extra m1 m2 cat payload hid a arev t trev now s)"
  by (auto simp: cancel_active_attempt_def wp row_simps Let_def
      intro!: post_any table_update_rules split: option.split)

lemma commit_worker_cancellation_ack_evolves:
  "keeps_evolving s (commit_worker_cancellation_ack hid a ws arev t trev now s)"
  unfolding commit_worker_cancellation_ack_def by (rule cancel_active_attempt_evolves)

lemma commit_internal_cancellation_deadline_evolves:
  "keeps_evolving s (commit_internal_cancellation_deadline hid a arev t trev now s)"
  unfolding commit_internal_cancellation_deadline_def by (rule cancel_active_attempt_evolves)

lemma commit_retry_ready_evolves:
  "keeps_evolving s (commit_retry_ready hid t rv w now s)"
  by (auto simp: commit_retry_ready_def wp row_simps Let_def intro!: post_any table_update_rules)

text \<open>
  The internal failure filters the attempt's state only for the three causes its callers pass.
\<close>

definition internal_cause :: "failure_cause \<Rightarrow> bool" where
  "internal_cause cause \<longleftrightarrow> fc_code cause \<in> {''START_DEADLINE_EXPIRED'', ''EXECUTION_TIMEOUT'', ''WORKER_LOSS''}"

lemma internal_filter_active:
  "internal_cause cause \<Longrightarrow> internal_attempt_filter cause lost now r \<Longrightarrow> as_active (ax_state r)"
  by (auto simp: internal_cause_def internal_attempt_filter_def split: if_splits)

lemma settle_task_evolves:
  "keeps_evolving s (settle_task_retry_or_fail retry ready t w rv cause now s)"
proof -
  have "keeps_evolving s (fail_task (\<lambda>r. tx_id r = t \<and> tx_workflow_id r = w \<and> tx_state r = TS_RUNNING \<and>
           tx_revision r = rv) cause now s)"
    by (auto simp: fail_task_def wp row_simps intro!: post_any table_update_rules)
  then have fail: "post (fail_task (\<lambda>r. tx_id r = t \<and> tx_workflow_id r = w \<and> tx_state r = TS_RUNNING \<and>
           tx_revision r = rv) cause now s) (\<lambda>(s2, m). db_evolves s s2)"
    by (rule post_mono) auto
  have retry: "db_evolves s (s\<lparr>db_tasks := update_rows
      (\<lambda>r. tx_id r = t \<and> tx_workflow_id r = w \<and> tx_state r = TS_RUNNING \<and>
           tx_next_attempt_ordinal r \<le> tx_max_attempts r \<and> tx_revision r = rv)
      (\<lambda>r. r\<lparr>tx_state := TS_RETRY_WAIT, tx_retry_ready_at_utc := ready,
             tx_revision := tx_revision r + 1, tx_updated_at_utc := now\<rparr>) (db_tasks s)\<rparr>)"
    by (auto simp: row_simps intro!: table_update_rules)
  show ?thesis
    unfolding settle_task_retry_or_fail_def post_bindE post_if
    by (simp add: wp update_rows_none retry fail)
qed

lemma commit_internal_attempt_failure_evolves:
  assumes "internal_cause cause"
  shows "keeps_evolving s (commit_internal_attempt_failure hid a arev t trev cause retryable ready lost now s)"
proof -
  note active = internal_filter_active [OF assms]
  have att: "db_evolves s (s\<lparr>db_attempts := update_rows
      (\<lambda>r. ax_id r = a \<and> ax_task_id r = t \<and> ax_revision r = arev \<and> internal_attempt_filter cause lost now r)
      (\<lambda>r. r\<lparr>ax_state := AS_FAILED, ax_failure := failure_cols cause d, ax_revision := ax_revision r + 1,
             ax_updated_at_utc := now\<rparr>) (db_attempts s)\<rparr>)" for d
    using active by (auto simp: row_simps intro!: table_update_rules)
  have rest: "keeps_evolving s
      (bindE (settle_task_retry_or_fail rt ready t w trev cause now s1) (\<lambda>(s2, settled).
            case settled of
              None \<Rightarrow> Inr (s2, occ_conflict m, None, [])
            | Some ns \<Rightarrow> bindE (insert_history (h ns) s2) (\<lambda>s3. Inr (s3, committed, Some w, ns))))"
    if "db_evolves s s1" for s1 rt w m h
    unfolding post_bindE
    by (rule post_mono [OF settle_task_evolves])
      (auto simp: wp split: option.split intro!: evolves_appends db_evolves_trans [OF that])
  show ?thesis
  proof (cases "get_task s t")
    case None
    then show ?thesis by (simp add: commit_internal_attempt_failure_def wp)
  next
    case (Some task_row)
    show ?thesis
      unfolding commit_internal_attempt_failure_def Some option.case Let_def
      apply (subst post_bindE, rule post_any, subst post_bindE, subst post_update_attempts)
      apply (simp only: prod.case post_if post_Inr fst_conv att split: if_split)
      apply (intro impI conjI TrueI)
      by (rule rest [OF att])
  qed
qed

lemma set_cancellation_deadline_evolves:
  "post (set_cancellation_deadline a dl s) (\<lambda>s'. db_evolves s s')"
  by (auto simp: set_cancellation_deadline_def wp row_simps attempt_core_def intro!: table_update_rules)

lemma recover_initializing_evolves:
  assumes "db_ok s"
  shows "keeps_evolving s (recover_initializing w now s)"
proof -
  have "wx_state r = WF_INITIALIZING"
    if "workflow_state_of s w = Some WF_INITIALIZING" "r \<in> set (db_workflows s)" "wx_id r = w" for r
    using that get_workflow_mem [OF assms that(2)] by (auto simp: workflow_state_of_def)
  then show ?thesis
    by (auto simp: recover_initializing_def wp row_simps intro!: table_update_rules)
qed

end
