(* ===== verification/Lifecycle_Inv.thy ===== *)
theory Lifecycle_Inv
  imports Tx_Evolution
begin

text \<open>
  The lifecycle invariant of the store: what holds between tasks, attempts and workflows at every
  transaction boundary, and the statements that keep it.
\<close>

section \<open>The invariant\<close>

text \<open>
  One task row: its ordinals stay within the budget, an unstarted task still has an attempt left,
  the input is there from \<open>RUNNABLE\<close> on, the output exactly on success.
\<close>

definition task_inv :: "task_row \<Rightarrow> bool" where
  "task_inv t \<longleftrightarrow>
     1 \<le> tx_next_attempt_ordinal t \<and> tx_next_attempt_ordinal t \<le> tx_max_attempts t + 1 \<and>
     (ts_unstarted (tx_state t) \<longrightarrow> tx_next_attempt_ordinal t \<le> tx_max_attempts t) \<and>
     (tx_state t = TS_PENDING \<longrightarrow> \<not> tx_has_input t \<and> tx_next_attempt_ordinal t = 1) \<and>
     (tx_state t \<notin> {TS_PENDING, TS_CANCELLED} \<longrightarrow> tx_has_input t) \<and>
     (tx_has_output t \<longleftrightarrow> tx_state t = TS_SUCCEEDED)"

definition workflow_inv :: "workflow_row \<Rightarrow> bool" where
  "workflow_inv w \<longleftrightarrow> (wx_has_output w \<longleftrightarrow> wx_state w = WF_SUCCEEDED)"

text \<open>What the state of a workflow says of one of its tasks.\<close>

fun task_state_allowed :: "workflow_state \<Rightarrow> task_state \<Rightarrow> bool" where
  "task_state_allowed WF_INITIALIZING ts \<longleftrightarrow> ts = TS_PENDING"
| "task_state_allowed WF_SUCCEEDED ts \<longleftrightarrow> ts = TS_SUCCEEDED"
| "task_state_allowed WF_FAILED ts \<longleftrightarrow> ts_terminal ts"
| "task_state_allowed WF_CANCELLED ts \<longleftrightarrow> ts_terminal ts"
| "task_state_allowed _ ts \<longleftrightarrow> True"

definition workflows_inv :: "db \<Rightarrow> bool" where
  "workflows_inv s \<longleftrightarrow> (\<forall>w \<in> set (db_workflows s). workflow_inv w \<and>
     (\<forall>t \<in> set (db_tasks s). tx_workflow_id t = wx_id w \<longrightarrow> task_state_allowed (wx_state w) (tx_state t)))"

text \<open>
  An attempt has a task whose counter is past its ordinal; while active, the task is running and
  the attempt is its latest.
\<close>

definition attempts_inv :: "db \<Rightarrow> bool" where
  "attempts_inv s \<longleftrightarrow> (\<forall>a \<in> set (db_attempts s). \<exists>t \<in> set (db_tasks s).
     tx_id t = ax_task_id a \<and> ax_ordinal a < tx_next_attempt_ordinal t \<and>
     (as_active (ax_state a) \<longrightarrow> tx_state t = TS_RUNNING \<and> tx_next_attempt_ordinal t = ax_ordinal a + 1))"

text \<open>Every task is a task of its workflow's stored definition.\<close>

definition declared_task :: "db \<Rightarrow> definition_id \<Rightarrow> string \<Rightarrow> bool" where
  "declared_task s d name \<longleftrightarrow> (\<exists>r doc ids. get_definition s d = Some r \<and>
     dr_validated_iws r = Some doc \<and> document_task_ids doc = Inr ids \<and> name \<in> set ids)"

definition membership_inv :: "db \<Rightarrow> bool" where
  "membership_inv s \<longleftrightarrow> (\<forall>w \<in> set (db_workflows s). \<forall>t \<in> set (db_tasks s).
     tx_workflow_id t = wx_id w \<longrightarrow> declared_task s (wx_definition_id w) (tx_task_definition_id t))"

text \<open>A settled workflow has a row for every task its stored definition declares.\<close>

definition covers :: "db \<Rightarrow> workflow_row \<Rightarrow> bool" where
  "covers s w \<longleftrightarrow> (\<forall>name. declared_task s (wx_definition_id w) name \<longrightarrow>
     (wx_id w, name) \<in> set (map task_key (db_tasks s)))"

definition completeness_inv :: "db \<Rightarrow> bool" where
  "completeness_inv s \<longleftrightarrow> (\<forall>w \<in> set (db_workflows s). wf_terminal (wx_state w) \<longrightarrow> covers s w)"

definition lifecycle_ok :: "db \<Rightarrow> bool" where
  "lifecycle_ok s \<longleftrightarrow> db_ok s \<and> (\<forall>t \<in> set (db_tasks s). task_inv t) \<and>
     workflows_inv s \<and> attempts_inv s \<and> membership_inv s \<and> completeness_inv s"

lemma covers_cong:
  "db_definitions s' = db_definitions s \<Longrightarrow> set (map task_key (db_tasks s)) \<subseteq> set (map task_key (db_tasks s')) \<Longrightarrow>
     covers s w \<Longrightarrow> covers s' w"
  unfolding covers_def declared_task_def get_definition_def by auto

lemma completeness_frame:
  "db_definitions s' = db_definitions s \<Longrightarrow> db_workflows s' = db_workflows s \<Longrightarrow>
     set (map task_key (db_tasks s)) \<subseteq> set (map task_key (db_tasks s')) \<Longrightarrow> completeness_inv s \<Longrightarrow> completeness_inv s'"
  unfolding completeness_inv_def using covers_cong by metis

lemma lifecycle_db_ok: "lifecycle_ok s \<Longrightarrow> db_ok s"
  by (simp add: lifecycle_ok_def)

lemma lifecycle_task_inv: "lifecycle_ok s \<Longrightarrow> t \<in> set (db_tasks s) \<Longrightarrow> task_inv t"
  by (simp add: lifecycle_ok_def)

lemma lifecycle_allowed:
  "lifecycle_ok s \<Longrightarrow> w \<in> set (db_workflows s) \<Longrightarrow> t \<in> set (db_tasks s) \<Longrightarrow> tx_workflow_id t = wx_id w \<Longrightarrow>
     task_state_allowed (wx_state w) (tx_state t)"
  by (auto simp: lifecycle_ok_def workflows_inv_def)

lemma lifecycle_ok_empty: "lifecycle_ok empty_db"
  unfolding lifecycle_ok_def workflows_inv_def attempts_inv_def membership_inv_def completeness_inv_def
  using db_ok_empty by (simp add: empty_db_def)

lemma declared_task_cong: "db_definitions s' = db_definitions s \<Longrightarrow> declared_task s' = declared_task s"
  by (intro ext) (simp add: declared_task_def get_definition_def)

lemma declared_task_update [simp]:
  "declared_task (s\<lparr>db_tasks := T\<rparr>) = declared_task s"
  "declared_task (s\<lparr>db_workflows := W\<rparr>) = declared_task s"
  "declared_task (s\<lparr>db_attempts := A\<rparr>) = declared_task s"
  by (rule declared_task_cong, simp)+

lemma active_task_running:
  assumes "lifecycle_ok s" and "a \<in> set (db_attempts s)" and "as_active (ax_state a)"
    and "t \<in> set (db_tasks s)" and "tx_id t = ax_task_id a"
  shows "tx_state t = TS_RUNNING"
proof -
  from assms(1-3) obtain t' where t': "t' \<in> set (db_tasks s)" "tx_id t' = ax_task_id a" "tx_state t' = TS_RUNNING"
    by (auto simp: lifecycle_ok_def attempts_inv_def)
  have "t' = t" by (rule db_ok_keys(2)) (use assms t' in \<open>auto simp: lifecycle_ok_def\<close>)
  with t' show ?thesis by simp
qed

section \<open>Appending\<close>

lemma get_definition_append:
  "dr_definition_id r \<notin> set (map dr_definition_id (db_definitions s)) \<Longrightarrow>
     get_definition s d = Some x \<Longrightarrow> get_definition (s\<lparr>db_definitions := db_definitions s @ [r]\<rparr>) d = Some x"
proof -
  assume "get_definition s d = Some x"
  then have "find (\<lambda>r. dr_definition_id r = d) (db_definitions s @ ys) = Some x" for ys
    unfolding get_definition_def by (induction "db_definitions s") (auto simp: find_Some_iff nth_append)
  then show ?thesis by (simp add: get_definition_def)
qed

lemma insert_definition_lifecycle:
  assumes "lifecycle_ok s" and "insert_definition r s = Inr s'"
  shows "lifecycle_ok s'"
proof -
  have s': "s' = s\<lparr>db_definitions := db_definitions s @ [r]\<rparr>"
    and fresh: "dr_definition_id r \<notin> set (map dr_definition_id (db_definitions s))"
    using assms(2) by (auto simp: db_stmt)
  have "declared_task s' d n" if "declared_task s d n" for d n
    using that get_definition_append [OF fresh] unfolding declared_task_def s' by blast
  moreover have "declared_task s d n" if "declared_task s' d n" "d \<in> set (map dr_definition_id (db_definitions s))" for d n
  proof -
    from that(2) obtain y where "get_definition s d = Some y"
      unfolding get_definition_def by (cases "find (\<lambda>r. dr_definition_id r = d) (db_definitions s)") (auto simp: find_None_iff)
    with get_definition_append [OF fresh this] that(1) show ?thesis unfolding declared_task_def s' by simp
  qed
  then have "completeness_inv s'"
    using assms(1) by (auto simp: lifecycle_ok_def completeness_inv_def covers_def s' db_ok_def)
  ultimately show ?thesis
    using assms insert_definition_ok [OF lifecycle_db_ok [OF assms(1)] assms(2)]
    by (auto simp: lifecycle_ok_def s' workflows_inv_def attempts_inv_def membership_inv_def)
qed

lemma insert_history_lifecycle:
  assumes "lifecycle_ok s" and "insert_history r s = Inr s'"
  shows "lifecycle_ok s'"
proof -
  have s': "s' = s\<lparr>db_history := db_history s @ [r]\<rparr>" using assms(2) by (auto simp: db_stmt)
  with assms insert_history_ok [OF lifecycle_db_ok [OF assms(1)] assms(2)] show ?thesis
    by (simp add: lifecycle_ok_def workflows_inv_def attempts_inv_def membership_inv_def completeness_inv_def covers_def
        declared_task_def get_definition_def)
qed

lemma claim_idempotency_lifecycle:
  assumes "lifecycle_ok s"
  shows "post (claim_idempotency_key op key fp resource now s) (\<lambda>r. lifecycle_ok (fst r))"
proof -
  have ins: "lifecycle_ok s'" if i: "insert_idempotency_or_ignore r s = Inr (s', n)" for r s' n
  proof -
    from i have "s' = s \<or> s' = s\<lparr>db_idempotency := db_idempotency s @ [r]\<rparr>"
      by (auto simp: insert_idempotency_or_ignore_def bindE_eq_Inr split: if_splits)
    with assms insert_idempotency_ok [OF lifecycle_db_ok [OF assms] i] show ?thesis
      by (auto simp: lifecycle_ok_def workflows_inv_def attempts_inv_def membership_inv_def completeness_inv_def covers_def
          declared_task_def get_definition_def)
  qed
  show ?thesis
  proof (cases key)
    case None
    then show ?thesis using assms by (simp add: claim_idempotency_key_def wp)
  next
    case (Some k)
    show ?thesis
      unfolding claim_idempotency_key_def Some option.case post_option post_bindE
      by (cases fp) (auto simp: wp split: option.split intro!: postI dest: ins)
  qed
qed

lemma insert_workflow_lifecycle:
  assumes "lifecycle_ok s" and "insert_workflow r s = Inr s'" and "workflow_inv r"
    and "\<forall>t \<in> set (db_tasks s). tx_workflow_id t \<noteq> wx_id r" and "\<not> wf_terminal (wx_state r)"
  shows "lifecycle_ok s'"
proof -
  have s': "s' = s\<lparr>db_workflows := db_workflows s @ [r]\<rparr>" using assms(2) by (auto simp: db_stmt)
  with assms insert_workflow_ok [OF lifecycle_db_ok [OF assms(1)] assms(2)] show ?thesis
    by (auto simp: lifecycle_ok_def workflows_inv_def attempts_inv_def membership_inv_def completeness_inv_def covers_def
        declared_task_def get_definition_def)
qed

lemma insert_attempt_lifecycle:
  assumes "lifecycle_ok s" and "insert_attempt r s = Inr s'"
    and "t \<in> set (db_tasks s)" "tx_id t = ax_task_id r" "tx_next_attempt_ordinal t = ax_ordinal r + 1"
    and "tx_state t = TS_RUNNING"
  shows "lifecycle_ok s'"
proof -
  have s': "s' = s\<lparr>db_attempts := db_attempts s @ [r]\<rparr>" using assms(2) by (auto simp: db_stmt)
  with assms insert_attempt_ok [OF lifecycle_db_ok [OF assms(1)] assms(2)] show ?thesis
    by (auto simp: lifecycle_ok_def workflows_inv_def attempts_inv_def membership_inv_def completeness_inv_def covers_def
        declared_task_def get_definition_def)
qed

lemma insert_task_lifecycle:
  assumes "lifecycle_ok s" and "insert_task_or_ignore (new_task_row w now tid td) s = Inr s'"
    and "wr \<in> set (db_workflows s)" and "wx_id wr = w" and "wx_state wr = WF_INITIALIZING"
    and "declared_task s (wx_definition_id wr) (tdid_value (td_id td))"
  shows "lifecycle_ok s'"
proof -
  let ?r = "new_task_row w now tid td"
  from assms(2) have row: "task_row_ok ?r"
    and s': "s' = s \<or> s' = s\<lparr>db_tasks := db_tasks s @ [?r]\<rparr>"
    by (auto simp: insert_task_or_ignore_def bindE_eq_Inr split: if_splits)
  have "task_inv ?r" using row by (simp add: task_inv_def new_task_row_def task_row_ok_def)
  moreover have only: "x = wr" if "x \<in> set (db_workflows s)" "wx_id x = w" for x
    by (rule db_ok_keys(1)) (use that assms in \<open>auto simp: lifecycle_ok_def\<close>)
  moreover have "db_ok s'" using insert_task_ok [OF lifecycle_db_ok [OF assms(1)] assms(2)] .
  moreover have "declared_task s' = declared_task s" using s' by (intro declared_task_cong) auto
  moreover have "workflows_inv (s\<lparr>db_tasks := db_tasks s @ [?r]\<rparr>)"
    using assms(1,4,5) only by (auto simp: lifecycle_ok_def workflows_inv_def new_task_row_def)
  moreover have "membership_inv (s\<lparr>db_tasks := db_tasks s @ [?r]\<rparr>)"
    using assms(1,4,6) only
    by (auto simp: lifecycle_ok_def membership_inv_def new_task_row_def)
  moreover have "attempts_inv (s\<lparr>db_tasks := db_tasks s @ [?r]\<rparr>)"
    using assms(1) by (auto simp: lifecycle_ok_def attempts_inv_def)
  ultimately show ?thesis
    using assms(1) s' by (auto simp: lifecycle_ok_def completeness_inv_def covers_def)
qed

section \<open>Updating\<close>

text \<open>
  A conditional update of workflows keeps the invariant when it keeps the row's identity and the
  new state allows the states of the workflow's tasks.
\<close>

definition wf_update_ok :: "db \<Rightarrow> (workflow_row \<Rightarrow> bool) \<Rightarrow> (workflow_row \<Rightarrow> workflow_row) \<Rightarrow> bool" where
  "wf_update_ok s P f \<longleftrightarrow> (\<forall>r. P r \<longrightarrow> wx_id (f r) = wx_id r \<and> wx_definition_id (f r) = wx_definition_id r) \<and>
     (\<forall>r \<in> set (db_workflows s). P r \<longrightarrow> workflow_inv (f r) \<and>
        (\<forall>t \<in> set (db_tasks s). tx_workflow_id t = wx_id r \<longrightarrow>
           task_state_allowed (wx_state (f r)) (tx_state t)) \<and>
        (wf_terminal (wx_state (f r)) \<longrightarrow> covers s r))"

lemma update_workflows_lifecycle:
  assumes "lifecycle_ok s" and u: "update_workflows P f s = Inr (s', n)" and ok: "wf_update_ok s P f"
  shows "lifecycle_ok s'"
proof -
  have s': "s' = s\<lparr>db_workflows := update_rows P f (db_workflows s)\<rparr>" using u by (auto simp: db_stmt)
  have "db_ok s'"
    by (rule update_workflows_ok [OF lifecycle_db_ok [OF assms(1)] u]) (use ok in \<open>auto simp: wf_update_ok_def\<close>)
  moreover have "workflows_inv s'" "membership_inv s'"
    using assms(1) ok by (auto simp: lifecycle_ok_def workflows_inv_def membership_inv_def wf_update_ok_def
        s' mem_update_rows declared_task_def get_definition_def)
  moreover have "completeness_inv s'"
    unfolding completeness_inv_def
  proof (intro ballI impI)
    fix w assume "w \<in> set (db_workflows s')" and t: "wf_terminal (wx_state w)"
    then obtain r where r: "r \<in> set (db_workflows s)" "w = (if P r then f r else r)" by (auto simp: s' mem_update_rows)
    have "covers s r"
      using r t ok assms(1) unfolding wf_update_ok_def lifecycle_ok_def completeness_inv_def by (cases "P r") auto
    moreover have "wx_id w = wx_id r" "wx_definition_id w = wx_definition_id r"
      using r ok by (auto simp: wf_update_ok_def)
    ultimately show "covers s' w" by (simp add: covers_def s')
  qed
  ultimately show ?thesis
    using assms(1) by (auto simp: lifecycle_ok_def s' attempts_inv_def)
qed

text \<open>
  A conditional update of tasks: identity kept, the row's own invariant, counters not lowered,
  no active attempt on a task that stops running, and a state the workflow allows.
\<close>

definition task_update_ok :: "db \<Rightarrow> (task_row \<Rightarrow> bool) \<Rightarrow> (task_row \<Rightarrow> task_row) \<Rightarrow> bool" where
  "task_update_ok s P f \<longleftrightarrow> (\<forall>r. P r \<longrightarrow> tx_id (f r) = tx_id r \<and> task_key (f r) = task_key r) \<and>
     (\<forall>r \<in> set (db_tasks s). P r \<longrightarrow> task_inv (f r) \<and>
        tx_next_attempt_ordinal r \<le> tx_next_attempt_ordinal (f r) \<and>
        (\<forall>a \<in> set (db_attempts s). ax_task_id a = tx_id r \<longrightarrow> \<not> as_active (ax_state a)) \<and>
        (\<forall>w \<in> set (db_workflows s). wx_id w = tx_workflow_id r \<longrightarrow>
           task_state_allowed (wx_state w) (tx_state (f r))))"

lemma update_tasks_lifecycle:
  assumes "lifecycle_ok s" and u: "update_tasks P f s = Inr (s', n)" and ok: "task_update_ok s P f"
  shows "lifecycle_ok s'"
proof -
  have s': "s' = s\<lparr>db_tasks := update_rows P f (db_tasks s)\<rparr>" using u by (auto simp: db_stmt)
  have key: "tx_id (f r) = tx_id r \<and> tx_workflow_id (f r) = tx_workflow_id r \<and>
      tx_task_definition_id (f r) = tx_task_definition_id r" if "P r" for r
    using ok that by (auto simp: task_update_ok_def task_key_def)
  have "db_ok s'"
    by (rule update_tasks_ok [OF lifecycle_db_ok [OF assms(1)] u]) (use ok in \<open>auto simp: task_update_ok_def\<close>)
  moreover have "workflows_inv s'"
    using assms(1) ok key by (auto simp: lifecycle_ok_def workflows_inv_def task_update_ok_def
        s' mem_update_rows)
  moreover have "membership_inv s'"
  proof -
    have same: "declared_task s' = declared_task s" by (rule declared_task_cong) (simp add: s')
    have "\<exists>r \<in> set (db_tasks s). tx_workflow_id t = tx_workflow_id r \<and>
        tx_task_definition_id t = tx_task_definition_id r" if "t \<in> set (db_tasks s')" for t
      using that key by (force simp: s' mem_update_rows)
    then show ?thesis
      using assms(1) unfolding lifecycle_ok_def membership_inv_def same by (simp add: s') metis
  qed
  moreover have "attempts_inv s'"
    unfolding attempts_inv_def
  proof
    fix a assume "a \<in> set (db_attempts s')"
    then have a: "a \<in> set (db_attempts s)" by (simp add: s')
    with assms(1) obtain t where t: "t \<in> set (db_tasks s)" "tx_id t = ax_task_id a"
      "ax_ordinal a < tx_next_attempt_ordinal t" "as_active (ax_state a) \<longrightarrow> tx_state t = TS_RUNNING \<and> tx_next_attempt_ordinal t = ax_ordinal a + 1"
      by (auto simp: lifecycle_ok_def attempts_inv_def)
    show "\<exists>t \<in> set (db_tasks s'). tx_id t = ax_task_id a \<and> ax_ordinal a < tx_next_attempt_ordinal t \<and>
        (as_active (ax_state a) \<longrightarrow> tx_state t = TS_RUNNING \<and> tx_next_attempt_ordinal t = ax_ordinal a + 1)"
    proof (cases "P t")
      case True
      with ok t have "tx_next_attempt_ordinal t \<le> tx_next_attempt_ordinal (f t)"
        and "(\<forall>a \<in> set (db_attempts s). ax_task_id a = tx_id t \<longrightarrow> \<not> as_active (ax_state a))"
        unfolding task_update_ok_def by blast+
      with True t a key [OF True] show ?thesis
        by (intro bexI [of _ "f t"]) (auto simp: s' set_update_rows intro!: rev_image_eqI)
    next
      case False
      with t show ?thesis by (intro bexI [of _ t]) (auto simp: s' set_update_rows intro!: rev_image_eqI)
    qed
  qed
  moreover have "completeness_inv s'"
  proof (rule completeness_frame)
    have "map task_key (db_tasks s') = map task_key (db_tasks s)"
      using key by (auto simp: s' update_rows_def task_key_def)
    then show "set (map task_key (db_tasks s)) \<subseteq> set (map task_key (db_tasks s'))" by simp
  qed (use assms(1) in \<open>simp_all add: s' lifecycle_ok_def\<close>)
  moreover have "\<forall>t \<in> set (db_tasks s'). task_inv t"
    using assms(1) ok by (auto simp: lifecycle_ok_def task_update_ok_def s' mem_update_rows)
  ultimately show ?thesis by (simp add: lifecycle_ok_def)
qed

text \<open>A conditional update of attempts: identity kept, and none becomes active that was not.\<close>

definition attempt_update_ok :: "(attempt_row \<Rightarrow> bool) \<Rightarrow> (attempt_row \<Rightarrow> attempt_row) \<Rightarrow> bool" where
  "attempt_update_ok P f \<longleftrightarrow> (\<forall>r. P r \<longrightarrow> ax_id (f r) = ax_id r \<and> attempt_key (f r) = attempt_key r \<and>
     (as_active (ax_state (f r)) \<longrightarrow> as_active (ax_state r)))"

lemma update_attempts_lifecycle:
  assumes "lifecycle_ok s" and u: "update_attempts P f s = Inr (s', n)" and ok: "attempt_update_ok P f"
  shows "lifecycle_ok s'"
proof -
  have s': "s' = s\<lparr>db_attempts := update_rows P f (db_attempts s)\<rparr>" using u by (auto simp: db_stmt)
  have "db_ok s'"
    by (rule update_attempts_ok [OF lifecycle_db_ok [OF assms(1)] u]) (use ok in \<open>auto simp: attempt_update_ok_def\<close>)
  moreover have "attempts_inv s'"
    unfolding attempts_inv_def
  proof
    fix a assume "a \<in> set (db_attempts s')"
    then obtain b where b: "b \<in> set (db_attempts s)" "a = (if P b then f b else b)"
      by (auto simp: s' mem_update_rows)
    then have "ax_task_id a = ax_task_id b" "ax_ordinal a = ax_ordinal b"
      "as_active (ax_state a) \<longrightarrow> as_active (ax_state b)"
      using ok by (auto simp: attempt_update_ok_def attempt_key_def)
    with b assms(1) show "\<exists>t \<in> set (db_tasks s'). tx_id t = ax_task_id a \<and> ax_ordinal a < tx_next_attempt_ordinal t \<and>
        (as_active (ax_state a) \<longrightarrow> tx_state t = TS_RUNNING \<and> tx_next_attempt_ordinal t = ax_ordinal a + 1)"
      by (fastforce simp: lifecycle_ok_def attempts_inv_def s')
  qed
  ultimately show ?thesis
    using assms(1) by (auto simp: lifecycle_ok_def s' workflows_inv_def membership_inv_def completeness_inv_def covers_def
        declared_task_def get_definition_def)
qed

end
