(* ===== verification/Lifecycle.thy ===== *)
theory Lifecycle
  imports Lifecycle_Inv
begin

text \<open>
  The transactions as a step relation on the store, and the invariant of its reachable states.
  A step is one transaction with any arguments, so the interleavings of clients, workers,
  scheduler, sweeper and recovery are the paths of the relation.
\<close>

abbreviation keeps_lifecycle :: "py_exn + db \<times> 'a \<Rightarrow> bool" where
  "keeps_lifecycle m \<equiv> post m (\<lambda>r. lifecycle_ok (fst r))"

section \<open>Facts the guards give\<close>

lemma workflow_state_unique:
  assumes "lifecycle_ok s" and "workflow_state_of s w = Some st" and "x \<in> set (db_workflows s)" and "wx_id x = w"
  shows "wx_state x = st"
  using get_workflow_mem [OF lifecycle_db_ok [OF assms(1)] assms(3)] assms(2,4)
  by (auto simp: workflow_state_of_def)

lemma idle_task_no_active:
  assumes "lifecycle_ok s" and "r \<in> set (db_tasks s)" and "tx_state r \<noteq> TS_RUNNING"
    and "a \<in> set (db_attempts s)" and "ax_task_id a = tx_id r"
  shows "\<not> as_active (ax_state a)"
  using active_task_running [OF assms(1,4) _ assms(2)] assms(3,5) by auto

text \<open>A task that is claimed, claimable again or waiting has a workflow that admits any state.\<close>

lemma started_task_any_state:
  assumes "lifecycle_ok s" and "r \<in> set (db_tasks s)" and "tx_state r \<in> {TS_RUNNABLE, TS_RUNNING, TS_RETRY_WAIT}"
    and "x \<in> set (db_workflows s)" and "wx_id x = tx_workflow_id r"
  shows "task_state_allowed (wx_state x) any"
proof -
  have "task_state_allowed (wx_state x) (tx_state r)"
    using lifecycle_allowed [OF assms(1,4,2)] assms(5) by simp
  then show ?thesis using assms(3) by (cases "wx_state x") auto
qed

text \<open>After its only active attempt is settled, a task has none.\<close>

lemma settled_no_active:
  assumes "lifecycle_ok s" and "0 < count_rows P (db_attempts s)"
    and P: "\<And>r. P r \<Longrightarrow> ax_task_id r = t \<and> as_active (ax_state r) \<and> ax_task_id (f r) = t \<and> \<not> as_active (ax_state (f r))"
    and a: "a \<in> set (update_rows P f (db_attempts s))" "ax_task_id a = t"
  shows "\<not> as_active (ax_state a)"
proof
  assume active: "as_active (ax_state a)"
  from assms(2) obtain r where r: "r \<in> set (db_attempts s)" "P r" by (auto simp: count_rows_pos)
  from a obtain b where b: "b \<in> set (db_attempts s)" "a = (if P b then f b else b)"
    by (auto simp: mem_update_rows)
  show False
  proof (cases "P b")
    case True
    with b P active show False by auto
  next
    case False
    with b active a have "as_active (ax_state b)" "ax_task_id b = t" by auto
    then have "b = r"
      using single_active_attempt [OF lifecycle_db_ok [OF assms(1)] b(1) r(1)] P [OF r(2)] by auto
    with False r show False by simp
  qed
qed

text \<open>
  When the settled tasks of a workflow are exactly the declared ones, all its tasks are settled.
\<close>

lemma all_tasks_settled:
  assumes inv: "lifecycle_ok s" and w: "get_workflow s w = Some r"
    and d: "get_definition s (wx_definition_id r) = Some d" "dr_validated_iws d = Some doc"
    and ids: "document_task_ids doc = Inr ids"
    and eq: "set ids = set (map tx_task_definition_id (filter Q (tasks_of s w)))"
    and t: "t \<in> set (db_tasks s)" "tx_workflow_id t = w"
  shows "Q t"
proof -
  have r: "r \<in> set (db_workflows s)" "wx_id r = w" using get_workflow_SomeD [OF w] by auto
  have "declared_task s (wx_definition_id r) (tx_task_definition_id t)"
    using inv r t by (auto simp: lifecycle_ok_def membership_inv_def)
  then have "tx_task_definition_id t \<in> set ids" using d ids by (auto simp: declared_task_def)
  then obtain t' where t': "t' \<in> set (db_tasks s)" "Q t'" "tx_workflow_id t' = w"
    "tx_task_definition_id t' = tx_task_definition_id t" unfolding eq by (auto simp: tasks_of_def)
  have "t' = t"
    by (rule db_ok_keys(4) [OF lifecycle_db_ok [OF inv]]) (use t t' in \<open>auto simp: task_key_def\<close>)
  with t' show ?thesis by simp
qed

lemma settled_covers_all:
  assumes "lifecycle_ok s" and "get_workflow s w = Some r" and "get_definition s (wx_definition_id r) = Some d" "dr_validated_iws d = Some doc"
    and "document_task_ids doc = Inr ids" and "set ids = set (map tx_task_definition_id (filter Q (tasks_of s w)))"
  shows "\<forall>x \<in> set (db_workflows s). wx_id x = w \<longrightarrow> covers s x"
proof (intro ballI impI)
  fix x assume "x \<in> set (db_workflows s)" "wx_id x = w"
  with get_workflow_mem [OF lifecycle_db_ok [OF assms(1)]] assms(2) have "x = r" by fastforce
  show "covers s x"
    unfolding covers_def
  proof (intro allI impI)
    fix name assume "declared_task s (wx_definition_id x) name"
    then have "name \<in> set ids" using assms(3-5) by (simp add: declared_task_def \<open>x = r\<close>)
    then have "name \<in> set (map tx_task_definition_id (filter Q (tasks_of s w)))" using assms(6) by simp
    then show "(wx_id x, name) \<in> set (map task_key (db_tasks s))"
      by (auto simp: tasks_of_def task_key_def \<open>wx_id x = w\<close> intro: rev_image_eqI)
  qed
qed

section \<open>The shapes of the transactions\<close>

lemma op_tail_lifecycle:
  assumes "lifecycle_ok s1"
  shows "keeps_lifecycle (if n = 0 then Inr (s1, c) else bindE (insert_history h s1) (\<lambda>s2. Inr (s2, d)))"
  using assms by (auto simp: post_def bindE_eq_Inr dest: insert_history_lifecycle)

lemma workflow_op_lifecycle:
  assumes "lifecycle_ok s" and "wf_update_ok s P f"
  shows "keeps_lifecycle (bindE (update_workflows P f s) (\<lambda>(s1, n). if n = 0 then Inr (s1, c)
           else bindE (insert_history h s1) (\<lambda>s2. Inr (s2, d))))"
  unfolding post_bindE [of "update_workflows P f s"]
proof (rule postI)
  fix x assume x: "update_workflows P f s = Inr x"
  obtain s1 n where sn: "x = (s1, n)" by (cases x)
  have "lifecycle_ok s1" using update_workflows_lifecycle [OF assms(1) x [unfolded sn] assms(2)] .
  then show "keeps_lifecycle (case x of (s1, n) \<Rightarrow> if n = 0 then Inr (s1, c)
           else bindE (insert_history h s1) (\<lambda>s2. Inr (s2, d)))"
    unfolding sn prod.case by (rule op_tail_lifecycle)
qed

lemma task_op_lifecycle:
  assumes "lifecycle_ok s" and "task_update_ok s P f"
  shows "keeps_lifecycle (bindE (update_tasks P f s) (\<lambda>(s1, n). if n = 0 then Inr (s1, c)
           else bindE (insert_history h s1) (\<lambda>s2. Inr (s2, d))))"
  unfolding post_bindE [of "update_tasks P f s"]
proof (rule postI)
  fix x assume x: "update_tasks P f s = Inr x"
  obtain s1 n where sn: "x = (s1, n)" by (cases x)
  have "lifecycle_ok s1" using update_tasks_lifecycle [OF assms(1) x [unfolded sn] assms(2)] .
  then show "keeps_lifecycle (case x of (s1, n) \<Rightarrow> if n = 0 then Inr (s1, c)
           else bindE (insert_history h s1) (\<lambda>s2. Inr (s2, d)))"
    unfolding sn prod.case by (rule op_tail_lifecycle)
qed

text \<open>The transactions that compare with the tasks of the stored definition.\<close>

lemma declared_op_lifecycle:
  assumes "lifecycle_ok s"
    and "\<And>r d doc ids. \<lbrakk>get_workflow s w = Some r; get_definition s (wx_definition_id r) = Some d;
           dr_validated_iws d = Some doc; document_task_ids doc = Inr ids\<rbrakk> \<Longrightarrow> keeps_lifecycle (body r ids)"
  shows "keeps_lifecycle (case get_workflow s w of
        None \<Rightarrow> Inr (s, c1)
      | Some r \<Rightarrow> if cond r then Inr (s, c2 r)
          else (case get_definition s (wx_definition_id r) of
               None \<Rightarrow> Inr (s, c3)
             | Some d \<Rightarrow> (case dr_validated_iws d of
                    None \<Rightarrow> Inr (s, c4)
                  | Some doc \<Rightarrow> bindE (document_task_ids doc) (body r))))"
proof (cases "get_workflow s w")
  case (Some r)
  show ?thesis
  proof (cases "get_definition s (wx_definition_id r)")
    case None
    with Some assms(1) show ?thesis by (simp add: wp)
  next
    case d: (Some d)
    have "post (document_task_ids doc) (\<lambda>ids. keeps_lifecycle (body r ids))" if "dr_validated_iws d = Some doc" for doc
      by (rule postI) (rule assms(2) [OF Some d that])
    with Some d assms(1) show ?thesis by (cases "dr_validated_iws d") (simp_all add: wp)
  qed
qed (use assms in \<open>simp add: wp\<close>)

text \<open>
  Settling an attempt first: what follows may assume that the invariant still holds, that the
  tasks and workflows are untouched, and that the task has no active attempt any more.
\<close>

lemma settle_attempt_lifecycle:
  assumes "lifecycle_ok s"
    and P: "\<And>r. P r \<Longrightarrow> ax_task_id r = t \<and> as_active (ax_state r) \<and> ax_id (f r) = ax_id r \<and>
        attempt_key (f r) = attempt_key r \<and> \<not> as_active (ax_state (f r))"
    and cont: "\<And>s1 n. \<lbrakk>lifecycle_ok s1; db_tasks s1 = db_tasks s; db_workflows s1 = db_workflows s;
        db_definitions s1 = db_definitions s;
        0 < n \<Longrightarrow> \<forall>a \<in> set (db_attempts s1). ax_task_id a = t \<longrightarrow> \<not> as_active (ax_state a)\<rbrakk>
        \<Longrightarrow> post (g (s1, n)) Q"
  shows "post (bindE (update_attempts P f s) g) Q"
  unfolding post_bindE
proof (rule postI)
  fix x assume x: "update_attempts P f s = Inr x"
  obtain s1 n where sn: "x = (s1, n)" by (cases x)
  from x have s1: "s1 = s\<lparr>db_attempts := update_rows P f (db_attempts s)\<rparr>" "n = count_rows P (db_attempts s)"
    by (auto simp: sn db_stmt)
  have "lifecycle_ok s1"
    by (rule update_attempts_lifecycle [OF assms(1) x [unfolded sn]]) (use P in \<open>auto simp: attempt_update_ok_def\<close>)
  moreover have "\<forall>a \<in> set (db_attempts s1). ax_task_id a = t \<longrightarrow> \<not> as_active (ax_state a)" if "0 < n"
  proof (intro ballI impI)
    fix a assume a: "a \<in> set (db_attempts s1)" "ax_task_id a = t"
    show "\<not> as_active (ax_state a)"
      by (rule settled_no_active [where f = f, OF assms(1)]) (use P that a s1 in \<open>auto simp: attempt_key_def\<close>)
  qed
  ultimately show "post (g x) Q" unfolding sn by (intro cont) (auto simp: s1)
qed

text \<open>The task update that follows: from \<open>RUNNING\<close> to a settled state.\<close>

lemma settle_task_update_ok:
  assumes "lifecycle_ok s" and "\<forall>a \<in> set (db_attempts s). ax_task_id a = t \<longrightarrow> \<not> as_active (ax_state a)"
    and "\<And>r. P r \<Longrightarrow> tx_id r = t \<and> tx_state r = TS_RUNNING \<and> tx_id (f r) = tx_id r \<and>
           task_key (f r) = task_key r \<and> tx_next_attempt_ordinal (f r) = tx_next_attempt_ordinal r"
    and "\<And>r. P r \<Longrightarrow> task_inv r \<Longrightarrow> task_inv (f r)"
  shows "task_update_ok s P f"
  using assms lifecycle_task_inv [OF assms(1)] started_task_any_state [OF assms(1)]
  by (auto simp: task_update_ok_def)

section \<open>Every transaction keeps the invariant\<close>

lemma commit_registered_definition_lifecycle:
  assumes "lifecycle_ok s"
  shows "keeps_lifecycle (commit_registered_definition d n spec yaml key fp now s)"
  unfolding commit_registered_definition_def post_bindE
proof (rule post_mono [OF claim_idempotency_lifecycle [OF assms]])
  fix x :: "db \<times> (commit_outcome \<times> uuid) option" assume ok: "lifecycle_ok (fst x)"
  obtain s1 e where x: "x = (s1, e)" by (cases x)
  have "post (insert_definition r s1) lifecycle_ok" for r
    using ok x by (auto intro!: postI dest: insert_definition_lifecycle)
  with ok x show "post (case x of (s1, early) \<Rightarrow> case early of
          Some (outcome, resource) \<Rightarrow> Inr (s1, outcome, resource)
        | None \<Rightarrow> bindE (serialize_validated_spec spec) (\<lambda>doc.
            bindE (insert_definition \<lparr>dr_definition_id = d, dr_workflow_name = n,
                     dr_validated_iws = jsonb doc, dr_raw_yaml = yaml, dr_created_at_utc = now\<rparr> s1)
              (\<lambda>s2. Inr (s2, committed, d)))) (\<lambda>r. lifecycle_ok (fst r))"
    by (auto simp only: prod.case post_option post_bindE post_Inr post_prod fst_conv
        split: option.split intro!: post_any)
qed

lemma commit_workflow_creation_lifecycle:
  assumes "lifecycle_ok s"
  shows "keeps_lifecycle (commit_workflow_creation hid e key fp now s)"
  unfolding commit_workflow_creation_def post_bindE
proof (rule post_mono [OF claim_idempotency_lifecycle [OF assms]])
  fix x :: "db \<times> (commit_outcome \<times> uuid) option" assume ok: "lifecycle_ok (fst x)"
  obtain s1 early where x: "x = (s1, early)" by (cases x)
  have ins: "lifecycle_ok s2" if "insert_workflow r s1 = Inr s2" "wx_state r = WF_INITIALIZING" "\<not> wx_has_output r" for r s2
  proof (rule insert_workflow_lifecycle [OF _ that(1)])
    show "lifecycle_ok s1" using ok x by simp
    show "workflow_inv r" using that by (simp add: workflow_inv_def)
    have "wx_id r \<notin> set (map wx_id (db_workflows s1))" using that(1) by (simp add: db_stmt)
    moreover have "\<forall>t \<in> set (db_tasks s1). tx_workflow_id t \<in> set (map wx_id (db_workflows s1))"
      using ok x by (simp add: lifecycle_ok_def db_ok_def)
    ultimately show "\<forall>t \<in> set (db_tasks s1). tx_workflow_id t \<noteq> wx_id r" by metis
    show "\<not> wf_terminal (wx_state r)" using that by simp
  qed
  show "post (case x of (s1, early) \<Rightarrow> case early of
          Some (outcome, resource) \<Rightarrow> Inr (s1, outcome, resource)
        | None \<Rightarrow> bindE (thaw_json (we_workflow_input e)) (\<lambda>input.
            bindE (insert_workflow
                     \<lparr>wx_id = we_id e, wx_definition_id = we_definition_id e,
                      wx_state = WF_INITIALIZING, wx_revision = 1, wx_input = jsonb input,
                      wx_has_output = False, wx_output = None, wx_failure = no_failure,
                      wx_created_at_utc = now, wx_updated_at_utc = now\<rparr> s1) (\<lambda>s2.
            bindE (insert_history (mk_history hid (we_id e) None None ''WorkflowExecutionCreated''
                     [(''definition_id'', PyStr (uuid_str (we_definition_id e)))] now) s2)
              (\<lambda>s3. Inr (s3, committed, we_id e))))) (\<lambda>r. lifecycle_ok (fst r))"
  proof (cases early)
    case (Some p)
    with ok show ?thesis by (cases p) (simp add: x wp)
  next
    case None
    have fin: "keeps_lifecycle (bindE (insert_history h s2) (\<lambda>s3. Inr (s3, c, i)))"
      if "lifecycle_ok s2" for s2 h i and c :: commit_outcome
      using insert_history_lifecycle [OF that] by (auto simp: post_def bindE_eq_Inr)
    show ?thesis
      unfolding x None prod.case option.case post_bindE [of "thaw_json _"] post_bindE [of "insert_workflow _ _"]
      by (intro post_any [of _ "thaw_json v" for v] postI [of "insert_workflow r q" for r q] fin) (erule ins, simp_all)
  qed
qed

text \<open>Population inserts tasks the stored definition declares, as its callers do.\<close>

lemma populate_lifecycle:
  assumes "foldE (\<lambda>(tid, td). insert_task_or_ignore (new_task_row w now tid td)) tds s = Inr s'"
    and "lifecycle_ok s" and "wr \<in> set (db_workflows s)" and "wx_id wr = w" and "wx_state wr = WF_INITIALIZING"
    and "\<forall>(tid, td) \<in> set tds. declared_task s (wx_definition_id wr) (tdid_value (td_id td))"
  shows "lifecycle_ok s'"
  using assms
proof (induction tds arbitrary: s)
  case (Cons p tds)
  obtain tid td where p: "p = (tid, td)" by (cases p)
  from Cons.prems(1) obtain s1 where s1: "insert_task_or_ignore (new_task_row w now tid td) s = Inr s1"
    and rest: "foldE (\<lambda>(tid, td). insert_task_or_ignore (new_task_row w now tid td)) tds s1 = Inr s'"
    by (auto simp: p bindE_eq_Inr)
  have "declared_task s (wx_definition_id wr) (tdid_value (td_id td))" using Cons.prems(6) p by simp
  with insert_task_lifecycle [OF Cons.prems(2) s1 Cons.prems(3-5)] have "lifecycle_ok s1" .
  moreover have "db_workflows s1 = db_workflows s" "declared_task s1 = declared_task s"
    using s1 by (auto simp: insert_task_or_ignore_def bindE_eq_Inr split: if_splits)
  ultimately show ?case using Cons.IH [OF rest] Cons.prems(3-6) by simp
qed simp

definition population_declared :: "db \<Rightarrow> workflow_execution_id \<Rightarrow> (task_execution_id \<times> task_definition) list \<Rightarrow> bool" where
  "population_declared s w tds \<longleftrightarrow> (\<forall>wr. get_workflow s w = Some wr \<longrightarrow>
     (\<forall>(tid, td) \<in> set tds. declared_task s (wx_definition_id wr) (tdid_value (td_id td))))"

lemma commit_task_population_lifecycle:
  assumes "lifecycle_ok s" and "population_declared s w tds"
  shows "keeps_lifecycle (commit_task_population hid w tds now s)"
proof (cases "workflow_state_of s w = Some WF_INITIALIZING")
  case False
  with assms(1) show ?thesis by (simp add: commit_task_population_def wp)
next
  case True
  then obtain wr where wr: "get_workflow s w = Some wr" "wx_state wr = WF_INITIALIZING"
    by (auto simp: workflow_state_of_def)
  have "lifecycle_ok s1"
    if "foldE (\<lambda>(tid, td). insert_task_or_ignore (new_task_row w now tid td)) tds s = Inr s1" for s1
    by (rule populate_lifecycle [OF that assms(1), of wr])
      (use wr assms(2) get_workflow_SomeD [OF wr(1)] in \<open>auto simp: population_declared_def\<close>)
  with insert_history_lifecycle have "lifecycle_ok s2"
    if "foldE (\<lambda>(tid, td). insert_task_or_ignore (new_task_row w now tid td)) tds s = Inr s1"
      "insert_history h s1 = Inr s2" for s1 s2 h using that by blast
  then show ?thesis
    unfolding commit_task_population_def Let_def True
    by (auto simp: bindE_eq_Inr intro!: postI)
qed

lemma running_update_ok:
  assumes "lifecycle_ok s"
    and "\<And>r. P r \<Longrightarrow> wx_state r \<noteq> WF_SUCCEEDED \<and> wx_id (f r) = wx_id r \<and> wx_definition_id (f r) = wx_definition_id r \<and>
           wx_has_output (f r) = wx_has_output r \<and> wx_state (f r) \<in> {WF_RUNNING, WF_FAILING, WF_CANCELLING}"
  shows "wf_update_ok s P f"
proof -
  have "task_state_allowed (wx_state (f r)) ts" if "P r" for r ts
    using assms(2) [OF that] by (cases "wx_state (f r)") auto
  moreover have "workflow_inv (f r)" if "P r" "r \<in> set (db_workflows s)" for r
    using assms(2) [OF that(1)] that(2) assms(1) by (auto simp: workflow_inv_def lifecycle_ok_def workflows_inv_def)
  moreover have "\<not> wf_terminal (wx_state (f r))" if "P r" for r
    using assms(2) [OF that] by (cases "wx_state (f r)") auto
  ultimately show ?thesis using assms(2) by (auto simp: wf_update_ok_def)
qed

lemma commit_initialization_complete_lifecycle:
  assumes "lifecycle_ok s" shows "keeps_lifecycle (commit_initialization_complete hid w rv now s)"
proof -
  have "wf_update_ok s (\<lambda>r. wx_id r = w \<and> wx_state r = WF_INITIALIZING \<and> wx_revision r = rv)
      (\<lambda>r. r\<lparr>wx_state := WF_RUNNING, wx_revision := wx_revision r + 1, wx_updated_at_utc := now\<rparr>)"
    by (rule running_update_ok [OF assms]) auto
  note op = workflow_op_lifecycle [OF assms this]
  show ?thesis
    unfolding commit_initialization_complete_def
    by (rule declared_op_lifecycle [OF assms])
      (simp only: Let_def post_if post_Inr fst_conv assms op split: if_split, simp)
qed

lemma commit_workflow_failure_direction_lifecycle:
  assumes "lifecycle_ok s" shows "keeps_lifecycle (commit_workflow_failure_direction hid w cause now s)"
proof -
  have "wf_update_ok s (\<lambda>r. wx_id r = w \<and> wx_state r = WF_RUNNING)
      (\<lambda>r. r\<lparr>wx_state := WF_FAILING, wx_failure := failure_cols cause d,
             wx_revision := wx_revision r + 1, wx_updated_at_utc := now\<rparr>)" for d
    by (rule running_update_ok [OF assms]) auto
  note op = workflow_op_lifecycle [OF assms this]
  show ?thesis
    unfolding commit_workflow_failure_direction_def post_option post_if post_Inr fst_conv
      post_bindE [of "failure_details_json _"]
    by (auto simp only: assms op option.case split: option.split if_split intro!: post_any)
qed

lemma commit_workflow_cancellation_direction_lifecycle:
  assumes "lifecycle_ok s" shows "keeps_lifecycle (commit_workflow_cancellation_direction hid w now s)"
proof -
  have "wf_update_ok s (\<lambda>r. wx_id r = w \<and> wx_state r \<in> {WF_INITIALIZING, WF_RUNNING})
      (\<lambda>r. r\<lparr>wx_state := WF_CANCELLING, wx_revision := wx_revision r + 1, wx_updated_at_utc := now\<rparr>)"
    by (rule running_update_ok [OF assms]) auto
  note op = workflow_op_lifecycle [OF assms this]
  show ?thesis
    unfolding commit_workflow_cancellation_direction_def post_option post_if post_Inr fst_conv
    by (auto simp only: assms op option.case split: option.split if_split)
qed

lemma recover_initializing_lifecycle:
  assumes "lifecycle_ok s" shows "keeps_lifecycle (recover_initializing w now s)"
proof (cases "workflow_state_of s w = Some WF_INITIALIZING")
  case True
  have "wf_update_ok s (\<lambda>r. wx_id r = w) (\<lambda>r. r\<lparr>wx_state := WF_RUNNING, wx_revision := wx_revision r + 1,
                           wx_updated_at_utc := now\<rparr>)"
    using workflow_state_unique [OF assms True] assms
    by (auto simp: wf_update_ok_def workflow_inv_def lifecycle_ok_def workflows_inv_def)
  note upd = update_workflows_lifecycle [OF assms _ this]
  then show ?thesis
    unfolding recover_initializing_def post_if post_bindE post_Inr fst_conv
    using assms by (auto intro!: postI dest: upd simp: post_Inr)
next
  case False
  with assms show ?thesis by (simp add: recover_initializing_def wp)
qed

lemma commit_workflow_success_lifecycle:
  assumes "lifecycle_ok s" shows "keeps_lifecycle (commit_workflow_success hid w rv v now s)"
proof -
  have "wf_update_ok s (\<lambda>r. wx_id r = w \<and> wx_state r = WF_RUNNING \<and> wx_revision r = rv)
      (\<lambda>r. r\<lparr>wx_state := WF_SUCCEEDED, wx_has_output := True, wx_output := o1,
             wx_revision := wx_revision r + 1, wx_updated_at_utc := now\<rparr>)"
    if "\<forall>t \<in> set (db_tasks s). tx_workflow_id t = w \<longrightarrow> tx_state t = TS_SUCCEEDED"
      "\<forall>r \<in> set (db_workflows s). wx_id r = w \<longrightarrow> covers s r" for o1
    using that by (auto simp: wf_update_ok_def workflow_inv_def)
  note op = workflow_op_lifecycle [OF assms this]
  have all: "\<forall>t \<in> set (db_tasks s). tx_workflow_id t = w \<longrightarrow> tx_state t = TS_SUCCEEDED"
    if "get_workflow s w = Some r" "get_definition s (wx_definition_id r) = Some d" "dr_validated_iws d = Some doc"
      "document_task_ids doc = Inr ids"
      "set ids = set (map tx_task_definition_id (filter (\<lambda>t. tx_state t = TS_SUCCEEDED) (tasks_of s w)))" for r d doc ids
    using all_tasks_settled [OF assms that] by blast
  note cov = settled_covers_all [OF assms]
  show ?thesis
    unfolding commit_workflow_success_def
    by (rule declared_op_lifecycle [OF assms])
      (simp only: Let_def post_if post_Inr fst_conv post_bindE [of "thaw_json _"] assms split: if_split,
       intro conjI impI TrueI post_any [of _ "thaw_json v"],
       simp only: not_not, rule op, rule all, assumption+, rule cov, assumption+)
qed

lemma settle_drained_workflow_lifecycle:
  assumes "lifecycle_ok s" and "from_state \<in> {WF_FAILING, WF_CANCELLING}" and "to_state \<in> {WF_FAILED, WF_CANCELLED}"
  shows "keeps_lifecycle (settle_drained_workflow from_state to_state c cat hid w rv now s)"
proof -
  have "wf_update_ok s (\<lambda>r. wx_id r = w \<and> wx_state r = from_state \<and> wx_revision r = rv)
      (\<lambda>r. r\<lparr>wx_state := to_state, wx_revision := wx_revision r + 1, wx_updated_at_utc := now\<rparr>)"
    if "\<forall>t \<in> set (db_tasks s). tx_workflow_id t = w \<longrightarrow> ts_terminal (tx_state t)"
      "\<forall>r \<in> set (db_workflows s). wx_id r = w \<longrightarrow> covers s r"
    using that assms by (auto simp: wf_update_ok_def workflow_inv_def lifecycle_ok_def workflows_inv_def)
  note op = workflow_op_lifecycle [OF assms(1) this]
  have all: "\<forall>t \<in> set (db_tasks s). tx_workflow_id t = w \<longrightarrow> ts_terminal (tx_state t)"
    if "get_workflow s w = Some r" "get_definition s (wx_definition_id r) = Some d" "dr_validated_iws d = Some doc"
      "document_task_ids doc = Inr ids"
      "set ids = set (map tx_task_definition_id (filter (\<lambda>t. ts_terminal (tx_state t)) (tasks_of s w)))" for r d doc ids
    using all_tasks_settled [OF assms(1) that] by blast
  note cov = settled_covers_all [OF assms(1)]
  show ?thesis
    unfolding settle_drained_workflow_def
    by (rule declared_op_lifecycle [OF assms(1)])
      (simp only: Let_def post_if post_Inr fst_conv assms(1) split: if_split,
       intro conjI impI TrueI, simp only: not_not, rule op, rule all, assumption+, rule cov, assumption+)
qed

end
