(* ===== verification/Lifecycle_Tasks.thy ===== *)
theory Lifecycle_Tasks
  imports Lifecycle
begin

text \<open>
  The transactions on tasks and attempts keep the lifecycle invariant, the step relation over all
  transactions, and what holds in every store it reaches.
\<close>

text \<open>Rules that follow the text of a transaction and leave its conditions as they stand.\<close>

lemma post_ifI: "(c \<Longrightarrow> post A Q) \<Longrightarrow> (\<not> c \<Longrightarrow> post B Q) \<Longrightarrow> post (if c then A else B) Q"
  by simp

lemma post_optionI:
  "(x = None \<Longrightarrow> post A Q) \<Longrightarrow> (\<And>y. x = Some y \<Longrightarrow> post (f y) Q) \<Longrightarrow> post (case x of None \<Rightarrow> A | Some y \<Rightarrow> f y) Q"
  by (cases x) simp_all

lemma post_step: "(\<And>x. m = Inr x \<Longrightarrow> post (f x) Q) \<Longrightarrow> post (bindE m f) Q"
  by (cases m) (simp_all add: post_def)

lemma post_step2: "(\<And>a b. m = Inr (a, b) \<Longrightarrow> post (f a b) Q) \<Longrightarrow> post (bindE m (\<lambda>(a, b). f a b)) Q"
  by (auto simp: post_def bindE_eq_Inr)

lemma keeps_ret: "lifecycle_ok s \<Longrightarrow> keeps_lifecycle (Inr (s, c))"
  by (simp add: post_Inr)

lemma keeps_history: "lifecycle_ok s \<Longrightarrow> keeps_lifecycle (bindE (insert_history h s) (\<lambda>s2. Inr (s2, c)))"
  by (rule post_step) (simp add: post_Inr insert_history_lifecycle)

lemmas post_text = post_ifI post_optionI post_step2 post_step keeps_ret

section \<open>Tasks\<close>

lemma task_guard_update_ok:
  assumes inv: "lifecycle_ok s"
    and idle: "\<And>r. P r \<Longrightarrow> tx_state r \<noteq> TS_RUNNING"
    and keep: "\<And>r. P r \<Longrightarrow> tx_id (f r) = tx_id r \<and> task_key (f r) = task_key r \<and>
        tx_next_attempt_ordinal r \<le> tx_next_attempt_ordinal (f r)"
    and row: "\<And>r. P r \<Longrightarrow> task_inv r \<Longrightarrow> task_inv (f r)"
    and wf: "\<And>r w. r \<in> set (db_tasks s) \<Longrightarrow> P r \<Longrightarrow> w \<in> set (db_workflows s) \<Longrightarrow> wx_id w = tx_workflow_id r \<Longrightarrow>
        task_state_allowed (wx_state w) (tx_state (f r))"
  shows "task_update_ok s P f"
  unfolding task_update_ok_def
proof (intro conjI allI ballI impI)
  fix r a assume "r \<in> set (db_tasks s)" "P r" "a \<in> set (db_attempts s)" "ax_task_id a = tx_id r"
  with idle_task_no_active [OF inv] idle show "\<not> as_active (ax_state a)" by blast
qed (use keep row wf lifecycle_task_inv [OF inv] in blast)+

lemma commit_task_readiness_lifecycle:
  assumes "lifecycle_ok s" shows "keeps_lifecycle (commit_task_readiness hid t rv w v now s)"
proof (cases "workflow_state_of s w = Some WF_RUNNING")
  case False
  with assms show ?thesis by (simp add: commit_task_readiness_def wp)
next
  case True
  have "task_update_ok s (\<lambda>r. tx_id r = t \<and> tx_workflow_id r = w \<and> tx_state r = TS_PENDING \<and> tx_revision r = rv)
      (\<lambda>r. r\<lparr>tx_state := TS_RUNNABLE, tx_has_input := True, tx_stable_input := jsonb input,
             tx_revision := tx_revision r + 1, tx_updated_at_utc := now\<rparr>)" for input
    by (rule task_guard_update_ok [OF assms])
      (use workflow_state_unique [OF assms True] in \<open>auto simp: task_key_def task_inv_def\<close>)
  note op = task_op_lifecycle [OF assms this]
  show ?thesis
    unfolding commit_task_readiness_def True Let_def post_bindE [of "thaw_json _"] post_if
    by (simp, rule post_any, rule op)
qed

lemma commit_retry_ready_lifecycle:
  assumes "lifecycle_ok s" shows "keeps_lifecycle (commit_retry_ready hid t rv w now s)"
proof -
  have "task_update_ok s (\<lambda>r. tx_id r = t \<and> tx_workflow_id r = w \<and> tx_state r = TS_RETRY_WAIT \<and>
                      (case tx_retry_ready_at_utc r of None \<Rightarrow> False | Some t \<Rightarrow> t \<le> now) \<and> tx_revision r = rv)
      (\<lambda>r. r\<lparr>tx_state := TS_RUNNABLE, tx_retry_ready_at_utc := None,
             tx_revision := tx_revision r + 1, tx_updated_at_utc := now\<rparr>)"
    by (rule task_guard_update_ok [OF assms])
      (auto simp: task_key_def task_inv_def started_task_any_state [OF assms])
  note op = task_op_lifecycle [OF assms this]
  show ?thesis
    unfolding commit_retry_ready_def by (intro post_ifI keeps_ret assms) (rule op)
qed

lemma commit_drain_task_cancellation_lifecycle:
  assumes "lifecycle_ok s" shows "keeps_lifecycle (commit_drain_task_cancellation hid t rv now s)"
proof -
  have "task_update_ok s (\<lambda>r. tx_id r = t \<and> ts_unstarted (tx_state r) \<and> tx_revision r = rv)
      (\<lambda>r. r\<lparr>tx_state := TS_CANCELLED, tx_retry_ready_at_utc := None,
             tx_revision := tx_revision r + 1, tx_updated_at_utc := now\<rparr>)"
    if t: "get_task s t = Some row" and w: "workflow_state_of s (tx_workflow_id row) \<in> {Some WF_FAILING, Some WF_CANCELLING}"
    for row
  proof (rule task_guard_update_ok [OF assms])
    fix r x assume r: "r \<in> set (db_tasks s)" "tx_id r = t \<and> ts_unstarted (tx_state r) \<and> tx_revision r = rv"
      "x \<in> set (db_workflows s)" "wx_id x = tx_workflow_id r"
    have "r = row"
      by (rule db_ok_keys(2) [OF lifecycle_db_ok [OF assms]]) (use r get_task_SomeD [OF t] in auto)
    with w r workflow_state_unique [OF assms _ r(3)] show
      "task_state_allowed (wx_state x) (tx_state (r\<lparr>tx_state := TS_CANCELLED, tx_retry_ready_at_utc := None,
             tx_revision := tx_revision r + 1, tx_updated_at_utc := now\<rparr>))" by auto
  qed (auto simp: task_key_def task_inv_def)
  note op = task_op_lifecycle [OF assms this]
  show ?thesis
  proof (cases "\<exists>row. get_task s t = Some row \<and> ts_unstarted (tx_state row) \<and>
      workflow_state_of s (tx_workflow_id row) \<in> {Some WF_FAILING, Some WF_CANCELLING}")
    case False
    with assms show ?thesis by (auto simp: commit_drain_task_cancellation_def wp split: option.split)
  next
    case True
    then obtain row where row: "get_task s t = Some row" and c1: "\<not> \<not> ts_unstarted (tx_state row)"
      and c2: "\<not> workflow_state_of s (tx_workflow_id row) \<notin> {Some WF_FAILING, Some WF_CANCELLING}" by blast
    show ?thesis
      unfolding commit_drain_task_cancellation_def row option.case if_not_P [OF c1] if_not_P [OF c2]
      by (rule op) (use row c2 in blast)+
  qed
qed

section \<open>Claiming and starting\<close>

lemma commit_attempt_ownership_lifecycle:
  assumes "lifecycle_ok s" shows "keeps_lifecycle (commit_attempt_ownership hid t rv w ws a dl now s)"
proof -
  let ?P = "\<lambda>r. tx_id r = t \<and> tx_workflow_id r = w \<and> tx_state r = TS_RUNNABLE \<and> tx_revision r = rv"
  let ?f = "\<lambda>r. r\<lparr>tx_state := TS_RUNNING, tx_revision := tx_revision r + 1,
                  tx_next_attempt_ordinal := tx_next_attempt_ordinal r + 1, tx_updated_at_utc := now\<rparr>"
  have ok: "task_update_ok s ?P ?f"
    by (rule task_guard_update_ok [OF assms])
      (auto simp: task_key_def task_inv_def started_task_any_state [OF assms])
  have "keeps_lifecycle (bindE (insert_attempt ar s1) (\<lambda>s2. bindE (insert_history h s2) (\<lambda>s3. Inr (s3, c))))"
    if row: "find ?P (db_tasks s) = Some row" and u: "update_tasks ?P ?f s = Inr (s1, n)"
      and ar: "ax_task_id ar = t" "ax_ordinal ar = tx_next_attempt_ordinal row" for row s1 n ar h c
  proof (rule post_step, rule keeps_history)
    fix s2 assume ia: "insert_attempt ar s1 = Inr s2"
    have s1: "lifecycle_ok s1" "db_tasks s1 = update_rows ?P ?f (db_tasks s)"
      using update_tasks_lifecycle [OF assms u ok] u by (auto simp: db_stmt)
    have "row \<in> set (db_tasks s) \<and> ?P row" using row by (rule find_SomeD)
    then have t: "?f row \<in> set (db_tasks s1)" "tx_id (?f row) = t"
      by (auto simp: s1 set_update_rows intro!: rev_image_eqI)
    show "lifecycle_ok s2"
      by (rule insert_attempt_lifecycle [OF s1(1) ia t(1)]) (use t ar in simp_all)
  qed
  note tail = this
  show ?thesis
    unfolding commit_attempt_ownership_def Let_def
    by (intro post_ifI post_optionI post_step2 keeps_ret assms) (erule (1) tail, simp_all)
qed

lemma start_update_ok:
  "attempt_update_ok (\<lambda>r. ax_id r = a \<and> ax_worker_session_id r = ws \<and> ax_state r = AS_CLAIMED \<and>
      ax_start_deadline_utc r \<ge> now \<and> ax_revision r = rv)
    (\<lambda>r. r\<lparr>ax_state := AS_RUNNING, ax_revision := ax_revision r + 1, ax_updated_at_utc := now\<rparr>)"
  by (simp add: attempt_update_ok_def attempt_key_def)

lemma commit_worker_execution_start_lifecycle:
  assumes "lifecycle_ok s" shows "keeps_lifecycle (commit_worker_execution_start hid u a ws rv now s)"
proof -
  note upd = update_attempts_lifecycle [OF assms _ start_update_ok]
  show ?thesis
    unfolding commit_worker_execution_start_def Let_def
    by (intro post_ifI post_optionI post_step2 keeps_ret assms) (rule keeps_history, erule upd)
qed

lemma set_cancellation_deadline_lifecycle:
  assumes "lifecycle_ok s" shows "post (set_cancellation_deadline a dl s) lifecycle_ok"
proof -
  have "attempt_update_ok (\<lambda>r. ax_id r = a) (\<lambda>r. r\<lparr>ax_cancellation_deadline_utc := Some dl\<rparr>)"
    by (simp add: attempt_update_ok_def attempt_key_def)
  note upd = update_attempts_lifecycle [OF assms _ this]
  then show ?thesis
    unfolding set_cancellation_deadline_def by (auto simp: bindE_eq_Inr intro!: postI dest: upd)
qed

section \<open>Settling\<close>

lemma settle_attempt_lifecycle':
  assumes "lifecycle_ok s"
    and "\<And>r. P r \<Longrightarrow> ax_task_id r = t \<and> as_active (ax_state r)"
    and "\<And>r. P r \<Longrightarrow> ax_id (f r) = ax_id r \<and> attempt_key (f r) = attempt_key r \<and> \<not> as_active (ax_state (f r))"
    and "\<And>s1 n. \<lbrakk>lifecycle_ok s1; db_tasks s1 = db_tasks s; db_workflows s1 = db_workflows s;
        0 < n \<Longrightarrow> \<forall>a \<in> set (db_attempts s1). ax_task_id a = t \<longrightarrow> \<not> as_active (ax_state a)\<rbrakk>
        \<Longrightarrow> post (g (s1, n)) Q"
  shows "post (bindE (update_attempts P f s) g) Q"
proof (rule settle_attempt_lifecycle [where t = t and f = f, OF assms(1)])
  show "ax_task_id r = t \<and> as_active (ax_state r) \<and> ax_id (f r) = ax_id r \<and>
        attempt_key (f r) = attempt_key r \<and> \<not> as_active (ax_state (f r))" if "P r" for r
    using assms(2,3) [OF that] by simp
qed (rule assms(4))

text \<open>What follows on the task: any of the four ways a running task is settled.\<close>

lemma settle_success_ok:
  assumes "lifecycle_ok s" and "\<forall>a \<in> set (db_attempts s). ax_task_id a = t \<longrightarrow> \<not> as_active (ax_state a)"
  shows "task_update_ok s (\<lambda>r. tx_id r = t \<and> tx_state r = TS_RUNNING \<and> tx_revision r = rv)
    (\<lambda>r. r\<lparr>tx_state := TS_SUCCEEDED, tx_has_output := True, tx_output := o1,
           tx_revision := tx_revision r + 1, tx_updated_at_utc := now\<rparr>)"
  by (rule settle_task_update_ok [OF assms]) (auto simp: task_key_def task_inv_def)

lemma settle_fail_ok:
  assumes "lifecycle_ok s" and "\<forall>a \<in> set (db_attempts s). ax_task_id a = t \<longrightarrow> \<not> as_active (ax_state a)"
    and "\<And>r. P r \<Longrightarrow> tx_id r = t \<and> tx_state r = TS_RUNNING"
  shows "task_update_ok s P
    (\<lambda>r. r\<lparr>tx_state := TS_FAILED, tx_failure := c, tx_revision := tx_revision r + 1, tx_updated_at_utc := now\<rparr>)"
  by (rule settle_task_update_ok [OF assms(1,2)]) (use assms(3) in \<open>auto simp: task_key_def task_inv_def\<close>)

lemma settle_cancel_ok:
  assumes "lifecycle_ok s" and "\<forall>a \<in> set (db_attempts s). ax_task_id a = t \<longrightarrow> \<not> as_active (ax_state a)"
  shows "task_update_ok s (\<lambda>r. tx_id r = t \<and> tx_workflow_id r = w \<and> tx_state r = TS_RUNNING \<and> tx_revision r = rv)
    (\<lambda>r. r\<lparr>tx_state := TS_CANCELLED, tx_revision := tx_revision r + 1, tx_updated_at_utc := now\<rparr>)"
  by (rule settle_task_update_ok [OF assms]) (auto simp: task_key_def task_inv_def)

lemma settle_retry_ok:
  assumes "lifecycle_ok s" and "\<forall>a \<in> set (db_attempts s). ax_task_id a = t \<longrightarrow> \<not> as_active (ax_state a)"
  shows "task_update_ok s (\<lambda>r. tx_id r = t \<and> tx_workflow_id r = w \<and> tx_state r = TS_RUNNING \<and>
        tx_next_attempt_ordinal r \<le> tx_max_attempts r \<and> tx_revision r = rv)
    (\<lambda>r. r\<lparr>tx_state := TS_RETRY_WAIT, tx_retry_ready_at_utc := ready,
           tx_revision := tx_revision r + 1, tx_updated_at_utc := now\<rparr>)"
  by (rule settle_task_update_ok [OF assms]) (auto simp: task_key_def task_inv_def)

lemma fail_task_lifecycle:
  assumes "lifecycle_ok s" and "\<forall>a \<in> set (db_attempts s). ax_task_id a = t \<longrightarrow> \<not> as_active (ax_state a)"
    and "\<And>r. P r \<Longrightarrow> tx_id r = t \<and> tx_state r = TS_RUNNING"
  shows "post (fail_task P cause now s) (\<lambda>r. lifecycle_ok (fst r))"
  unfolding fail_task_def post_bindE
  by (rule post_any, rule postI)
    (use update_tasks_lifecycle [OF assms(1) _ settle_fail_ok [OF assms(1,2,3)]] in force)

lemma commit_worker_task_success_lifecycle:
  assumes "lifecycle_ok s"
  shows "keeps_lifecycle (commit_worker_task_success hid a ws arv t trv v now s)"
  unfolding commit_worker_task_success_def
proof (rule settle_attempt_lifecycle' [OF assms, where t = t], goal_cases)
  case (3 s1 n)
  note upd = update_tasks_lifecycle [OF 3(1) _ settle_success_ok [OF 3(1) 3(4)]]
  show ?case
    unfolding prod.case Let_def
    by (intro post_ifI post_optionI post_step2 post_step [of "thaw_json _"] keeps_ret 3(1))
      (rule keeps_history, erule upd, simp)
qed (auto simp: attempt_key_def)

lemma fail_owned_attempt_lifecycle:
  assumes "lifecycle_ok s"
    and "\<And>s1 n. \<lbrakk>lifecycle_ok s1; db_tasks s1 = db_tasks s; db_workflows s1 = db_workflows s;
        0 < n \<Longrightarrow> \<forall>a \<in> set (db_attempts s1). ax_task_id a = t \<longrightarrow> \<not> as_active (ax_state a)\<rbrakk>
        \<Longrightarrow> post (g (s1, n)) Q"
  shows "post (bindE (fail_owned_attempt a ws rv t cause now s) g) Q"
  unfolding fail_owned_attempt_def bindE_assoc
  by (rule post_step, rule settle_attempt_lifecycle' [OF assms(1), where t = t])
    (auto simp: attempt_key_def intro: assms(2))

lemma commit_worker_failure_with_retry_lifecycle:
  assumes "lifecycle_ok s"
  shows "keeps_lifecycle (commit_worker_failure_with_retry hid a ws arv t trv w ready cause now s)"
  unfolding commit_worker_failure_with_retry_def
proof (intro post_ifI keeps_ret assms, rule fail_owned_attempt_lifecycle [OF assms])
  fix s1 and n :: nat assume ok: "lifecycle_ok s1"
    and no: "0 < n \<Longrightarrow> \<forall>a \<in> set (db_attempts s1). ax_task_id a = t \<longrightarrow> \<not> as_active (ax_state a)"
  show "keeps_lifecycle (case (s1, n :: nat) of (s1, n) \<Rightarrow>
      if n = 0 then Inr (s1, occ_conflict ''OCC conflict or stale attempt'')
      else bindE (update_tasks
                 (\<lambda>r. tx_id r = t \<and> tx_workflow_id r = w \<and> tx_state r = TS_RUNNING \<and>
                      tx_next_attempt_ordinal r \<le> tx_max_attempts r \<and> tx_revision r = trv)
                 (\<lambda>r. r\<lparr>tx_state := TS_RETRY_WAIT, tx_retry_ready_at_utc := Some ready,
                        tx_revision := tx_revision r + 1, tx_updated_at_utc := now\<rparr>) s1) (\<lambda>(s2, m).
        if m = 0 then Inr (s2, precondition_failed ''OCC conflict or retry budget exhausted'')
        else bindE (insert_history (mk_history hid w (Some t) (Some a) ''TaskExecutionRetrying''
                     [(''retry_ready_at'', PyStr (isoformat ready)), (''code'', PyStr (fc_code cause))] now) s2)
               (\<lambda>s3. Inr (s3, committed))))"
    unfolding prod.case
    by (intro post_ifI keeps_ret ok) (rule task_op_lifecycle [OF ok settle_retry_ok [OF ok no]], simp)
qed

lemma commit_worker_definitive_failure_lifecycle:
  assumes "lifecycle_ok s"
  shows "keeps_lifecycle (commit_worker_definitive_failure hid a ws arv t trv cause now s)"
  unfolding commit_worker_definitive_failure_def
proof (rule fail_owned_attempt_lifecycle [OF assms], goal_cases)
  case (1 s1 n)
  have ft: "lifecycle_ok s2" if "fail_task P cause now s1 = Inr (s2, m)" "0 < n"
    "\<And>r. P r \<Longrightarrow> tx_id r = t \<and> tx_state r = TS_RUNNING" for P s2 m
    using postD [OF fail_task_lifecycle [OF 1(1,4), of P cause now] that(1)] that(2,3) by simp
  show ?case
    unfolding prod.case Let_def
    by (intro post_ifI post_optionI post_step2 keeps_ret 1(1)) (rule keeps_history, erule ft, simp_all)
qed

lemma cancel_active_attempt_lifecycle:
  assumes "lifecycle_ok s"
  shows "keeps_lifecycle (cancel_active_attempt extra m1 m2 cat payload hid a arv t trv now s)"
  unfolding cancel_active_attempt_def Let_def
proof (intro post_optionI post_ifI keeps_ret assms, rule settle_attempt_lifecycle' [OF assms, where t = t], goal_cases)
  case (3 row s1 n)
  show ?case
    unfolding prod.case
    by (intro post_ifI keeps_ret 3) (rule task_op_lifecycle [OF 3(3) settle_cancel_ok [OF 3(3,6)]], simp)
qed (auto simp: attempt_key_def)

lemma commit_worker_cancellation_ack_lifecycle:
  "lifecycle_ok s \<Longrightarrow> keeps_lifecycle (commit_worker_cancellation_ack hid a ws arv t trv now s)"
  unfolding commit_worker_cancellation_ack_def by (rule cancel_active_attempt_lifecycle)

lemma commit_internal_cancellation_deadline_lifecycle:
  "lifecycle_ok s \<Longrightarrow> keeps_lifecycle (commit_internal_cancellation_deadline hid a arv t trv now s)"
  unfolding commit_internal_cancellation_deadline_def by (rule cancel_active_attempt_lifecycle)

lemma settle_task_lifecycle:
  assumes "lifecycle_ok s" and "\<forall>a \<in> set (db_attempts s). ax_task_id a = t \<longrightarrow> \<not> as_active (ax_state a)"
  shows "keeps_lifecycle (settle_task_retry_or_fail retry ready t w rv cause now s)"
proof -
  have fail: "keeps_lifecycle (fail_task (\<lambda>r. tx_id r = t \<and> tx_workflow_id r = w \<and> tx_state r = TS_RUNNING \<and>
      tx_revision r = rv) cause now s1)" if "lifecycle_ok s1" "db_attempts s1 = db_attempts s" for s1
    by (rule fail_task_lifecycle [OF that(1)]) (use assms(2) that(2) in auto)
  show ?thesis
    unfolding settle_task_retry_or_fail_def
  proof (rule post_step2)
    fix s1 and n :: nat
    assume m: "(if retry then update_tasks
                   (\<lambda>r. tx_id r = t \<and> tx_workflow_id r = w \<and> tx_state r = TS_RUNNING \<and>
                        tx_next_attempt_ordinal r \<le> tx_max_attempts r \<and> tx_revision r = rv)
                   (\<lambda>r. r\<lparr>tx_state := TS_RETRY_WAIT, tx_retry_ready_at_utc := ready,
                          tx_revision := tx_revision r + 1, tx_updated_at_utc := now\<rparr>) s
                else Inr (s, 0)) = Inr (s1, n)"
    have s1: "lifecycle_ok s1" "db_attempts s1 = db_attempts s"
      using m assms(1) update_tasks_lifecycle [OF assms(1) _ settle_retry_ok [OF assms]]
      by (auto simp: db_stmt split: if_splits)
    show "keeps_lifecycle (if n > 0 then Inr (s1, Some ''RETRY_WAIT'')
     else bindE (fail_task (\<lambda>r. tx_id r = t \<and> tx_workflow_id r = w \<and> tx_state r = TS_RUNNING \<and>
             tx_revision r = rv) cause now s1) (\<lambda>(s2, m). Inr (s2, if m = 0 then None else Some ''FAILED'')))"
      by (intro post_ifI post_step2 keeps_ret s1) (drule postD [OF fail [OF s1]], simp)
  qed
qed

lemma commit_internal_attempt_failure_lifecycle:
  assumes "lifecycle_ok s" and "internal_cause cause"
  shows "keeps_lifecycle (commit_internal_attempt_failure hid a arv t trv cause retryable ready lost now s)"
  unfolding commit_internal_attempt_failure_def Let_def
proof (intro post_optionI post_step [of "failure_details_json _"] keeps_ret assms(1),
    rule settle_attempt_lifecycle' [OF assms(1), where t = t], goal_cases)
  case (3 row d s1 n)
  have st: "lifecycle_ok s2" if "settle_task_retry_or_fail rt ready t w trv cause now s1 = Inr (s2, ns)" "0 < n" for rt w s2 ns
    using postD [OF settle_task_lifecycle [OF 3(3,6)] that(1)] that(2) by simp
  show ?case
    unfolding prod.case
    by (intro post_ifI post_step2 keeps_ret 3(3))
      (intro post_optionI keeps_ret keeps_history, (erule st, simp)+)
qed (use internal_filter_active [OF assms(2)] in \<open>auto simp: attempt_key_def\<close>)

end
