(* ===== verification/Store_Steps.thy ===== *)
theory Store_Steps
  imports Lifecycle_Tasks
begin

text \<open>
  The store as a state machine. A step is one committed transaction with any arguments, so every
  interleaving of clients, workers, scheduler, sweeper and startup recovery is a path of the
  relation. The premises beyond success are what every caller guarantees: registration is given a
  validated specification and its name, population inserts tasks of the stored definition, readiness
  is given a mapping, and an internal failure carries one of the three internal causes.
\<close>

text \<open>\<open>JsonObject\<close>, the type of a resolved task input: a mapping.\<close>

definition json_object :: "pyval \<Rightarrow> bool" where
  "json_object v = (case v of PyDict es \<Rightarrow> True | PyProxy es \<Rightarrow> True | _ \<Rightarrow> False)"

inductive db_step :: "db \<Rightarrow> db \<Rightarrow> bool" where
  step_register:
    "\<lbrakk>spec_ok spec; commit_registered_definition d (vs_workflow_name spec) spec yaml key fp now s = Inr (s', r1)\<rbrakk> \<Longrightarrow> db_step s s'"
| step_create: "commit_workflow_creation hid e key fp now s = Inr (s', r1) \<Longrightarrow> db_step s s'"
| step_populate:
    "\<lbrakk>population_declared s w tds; commit_task_population hid w tds now s = Inr (s', r2)\<rbrakk> \<Longrightarrow> db_step s s'"
| step_initialized: "commit_initialization_complete hid w rv now s = Inr (s', r2) \<Longrightarrow> db_step s s'"
| step_recover: "recover_initializing w now s = Inr (s', b) \<Longrightarrow> db_step s s'"
| step_ready: "\<lbrakk>json_object v; commit_task_readiness hid t rv w v now s = Inr (s', r2)\<rbrakk> \<Longrightarrow> db_step s s'"
| step_claim: "commit_attempt_ownership hid t rv w ws a dl now s = Inr (s', r3) \<Longrightarrow> db_step s s'"
| step_start: "commit_worker_execution_start hid u a ws rv now s = Inr (s', r2) \<Longrightarrow> db_step s s'"
| step_success: "commit_worker_task_success hid a ws arv t trv v now s = Inr (s', r2) \<Longrightarrow> db_step s s'"
| step_retry:
    "commit_worker_failure_with_retry hid a ws arv t trv w ready cause now s = Inr (s', r2) \<Longrightarrow> db_step s s'"
| step_failure: "commit_worker_definitive_failure hid a ws arv t trv cause now s = Inr (s', r4) \<Longrightarrow> db_step s s'"
| step_failing: "commit_workflow_failure_direction hid w cause now s = Inr (s', r2) \<Longrightarrow> db_step s s'"
| step_cancelling: "commit_workflow_cancellation_direction hid w now s = Inr (s', r2) \<Longrightarrow> db_step s s'"
| step_succeeded: "commit_workflow_success hid w rv v now s = Inr (s', r2) \<Longrightarrow> db_step s s'"
| step_failed: "commit_workflow_failure hid w rv now s = Inr (s', r2) \<Longrightarrow> db_step s s'"
| step_cancelled: "commit_workflow_cancellation hid w rv now s = Inr (s', r2) \<Longrightarrow> db_step s s'"
| step_drain_task: "commit_drain_task_cancellation hid t rv now s = Inr (s', r2) \<Longrightarrow> db_step s s'"
| step_cancel_ack: "commit_worker_cancellation_ack hid a ws arv t trv now s = Inr (s', r4) \<Longrightarrow> db_step s s'"
| step_cancel_deadline: "commit_internal_cancellation_deadline hid a arv t trv now s = Inr (s', r4) \<Longrightarrow> db_step s s'"
| step_set_deadline: "set_cancellation_deadline a dl s = Inr s' \<Longrightarrow> db_step s s'"
| step_internal_failure:
    "\<lbrakk>internal_cause cause;
      commit_internal_attempt_failure hid a arv t trv cause retryable ready lost now s = Inr (s', r5)\<rbrakk>
     \<Longrightarrow> db_step s s'"
| step_retry_ready: "commit_retry_ready hid t rv w now s = Inr (s', r2) \<Longrightarrow> db_step s s'"

inductive reachable :: "db \<Rightarrow> bool" where
  reachable_empty: "reachable empty_db"
| reachable_step: "reachable s \<Longrightarrow> db_step s s' \<Longrightarrow> reachable s'"

text \<open>Elimination rules that follow a successful run of a transaction along its text.\<close>

lemma run_ifE: "(if c then A else B) = Inr y \<Longrightarrow> (c \<Longrightarrow> A = Inr y \<Longrightarrow> P) \<Longrightarrow> (\<not> c \<Longrightarrow> B = Inr y \<Longrightarrow> P) \<Longrightarrow> P"
  by (cases c) simp_all

lemma run_optionE:
  "(case x of None \<Rightarrow> A | Some z \<Rightarrow> f z) = Inr y \<Longrightarrow> (x = None \<Longrightarrow> A = Inr y \<Longrightarrow> P) \<Longrightarrow>
     (\<And>z. x = Some z \<Longrightarrow> f z = Inr y \<Longrightarrow> P) \<Longrightarrow> P"
  by (cases x) simp_all

lemma run_bind2E: "bindE m (\<lambda>(a, b). f a b) = Inr y \<Longrightarrow> (\<And>a b. m = Inr (a, b) \<Longrightarrow> f a b = Inr y \<Longrightarrow> P) \<Longrightarrow> P"
  by (cases m) auto

lemmas run_elims = run_ifE run_optionE run_bind2E bindE_InrE

lemmas keeps_lifecycle_lemmas =
  commit_registered_definition_lifecycle commit_workflow_creation_lifecycle
  commit_initialization_complete_lifecycle recover_initializing_lifecycle
  commit_task_readiness_lifecycle commit_attempt_ownership_lifecycle
  commit_worker_execution_start_lifecycle commit_worker_task_success_lifecycle
  commit_worker_failure_with_retry_lifecycle commit_worker_definitive_failure_lifecycle
  commit_workflow_failure_direction_lifecycle commit_workflow_cancellation_direction_lifecycle
  commit_workflow_success_lifecycle commit_drain_task_cancellation_lifecycle
  commit_worker_cancellation_ack_lifecycle commit_internal_cancellation_deadline_lifecycle
  commit_retry_ready_lifecycle

lemma post_fstD: "post m (\<lambda>r. Q (fst r)) \<Longrightarrow> m = Inr (s', x) \<Longrightarrow> Q s'"
  by (simp add: post_def)

lemma commit_workflow_settled_lifecycle:
  assumes "lifecycle_ok s"
  shows "keeps_lifecycle (commit_workflow_failure hid w rv now s)"
    "keeps_lifecycle (commit_workflow_cancellation hid w rv now s)"
  unfolding commit_workflow_failure_def commit_workflow_cancellation_def
  by (rule settle_drained_workflow_lifecycle [OF assms]; simp)+

theorem db_step_lifecycle:
  assumes "db_step s s'" and "lifecycle_ok s"
  shows "lifecycle_ok s'"
  using assms
proof cases
  case step_populate
  then show ?thesis using commit_task_population_lifecycle [OF assms(2)] by (blast intro: post_fstD)
next
  case step_internal_failure
  then show ?thesis using commit_internal_attempt_failure_lifecycle [OF assms(2)] by (blast intro: post_fstD)
next
  case step_set_deadline
  then show ?thesis using set_cancellation_deadline_lifecycle [OF assms(2)] by (blast intro: postD)
qed (erule post_fstD [rotated], rule keeps_lifecycle_lemmas commit_workflow_settled_lifecycle, rule assms)+

lemma reachable_lifecycle: "reachable s \<Longrightarrow> lifecycle_ok s"
  by (induction rule: reachable.induct) (rule lifecycle_ok_empty, rule db_step_lifecycle)

section \<open>Steps only evolve the rows\<close>

lemmas keeps_evolving_lemmas =
  commit_registered_definition_evolves commit_workflow_creation_evolves commit_task_population_evolves
  commit_initialization_complete_evolves commit_task_readiness_evolves commit_attempt_ownership_evolves
  commit_worker_execution_start_evolves commit_worker_task_success_evolves
  commit_worker_failure_with_retry_evolves commit_worker_definitive_failure_evolves
  commit_workflow_failure_direction_evolves commit_workflow_cancellation_direction_evolves
  commit_workflow_success_evolves commit_workflow_failure_evolves commit_workflow_cancellation_evolves
  commit_drain_task_cancellation_evolves commit_worker_cancellation_ack_evolves
  commit_internal_cancellation_deadline_evolves commit_retry_ready_evolves

theorem db_step_evolves:
  assumes "db_step s s'" and "db_ok s"
  shows "db_evolves s s'"
  using assms(1)
proof cases
  case step_internal_failure
  then show ?thesis using commit_internal_attempt_failure_evolves by (blast intro: post_fstD)
next
  case step_recover
  then show ?thesis using recover_initializing_evolves [OF assms(2)] by (blast intro: post_fstD)
next
  case step_set_deadline
  then show ?thesis using set_cancellation_deadline_evolves by (blast intro: postD)
qed (erule post_fstD [rotated], rule keeps_evolving_lemmas)+

text \<open>Later states of a store.\<close>

abbreviation db_steps :: "db \<Rightarrow> db \<Rightarrow> bool" where
  "db_steps \<equiv> db_step\<^sup>*\<^sup>*"

lemma db_steps_lifecycle: "db_steps s s' \<Longrightarrow> lifecycle_ok s \<Longrightarrow> lifecycle_ok s'"
  by (induction rule: rtranclp_induct) (auto dest: db_step_lifecycle)

lemma db_steps_evolves: "db_steps s s' \<Longrightarrow> lifecycle_ok s \<Longrightarrow> db_evolves s s'"
proof (induction rule: rtranclp_induct)
  case (step s' s'')
  have "db_evolves s' s''"
    using step.hyps(2) lifecycle_db_ok [OF db_steps_lifecycle [OF step.hyps(1) step.prems]] by (rule db_step_evolves)
  with step show ?case by (blast intro: db_evolves_trans)
qed simp

lemma reachable_steps:
  assumes "reachable s" and "db_steps s s'" shows "reachable s'"
  using assms(2,1) by (induction rule: rtranclp_induct) (auto intro: reachable_step)

lemma later_task:
  assumes "reachable s" and "db_steps s s'" and "r \<in> set (db_tasks s)" and "r' \<in> set (db_tasks s')" and "tx_id r' = tx_id r"
  shows "task_rows.evolves r r'"
proof -
  note inv = reachable_lifecycle [OF assms(1)]
  have "db_ok s'" by (rule lifecycle_db_ok [OF db_steps_lifecycle [OF assms(2) inv]])
  then show ?thesis
    using task_rows.stale_revision [OF _ assms(3) _ assms(4,5)] db_steps_evolves [OF assms(2) inv]
    by (simp add: db_evolves_def db_ok_def)
qed

lemma later_workflow:
  assumes "reachable s" and "db_steps s s'" and "r \<in> set (db_workflows s)" and "r' \<in> set (db_workflows s')"
    and "wx_id r' = wx_id r"
  shows "wf_rows.evolves r r'"
proof -
  note inv = reachable_lifecycle [OF assms(1)]
  have "db_ok s'" by (rule lifecycle_db_ok [OF db_steps_lifecycle [OF assms(2) inv]])
  then show ?thesis
    using wf_rows.stale_revision [OF _ assms(3) _ assms(4,5)] db_steps_evolves [OF assms(2) inv]
    by (simp add: db_evolves_def db_ok_def)
qed

lemma later_attempt:
  assumes "reachable s" and "db_steps s s'" and "r \<in> set (db_attempts s)" and "r' \<in> set (db_attempts s')"
    and "ax_id r' = ax_id r"
  shows "attempt_rows.evolves r r'"
proof -
  note inv = reachable_lifecycle [OF assms(1)]
  have "db_ok s'" by (rule lifecycle_db_ok [OF db_steps_lifecycle [OF assms(2) inv]])
  then show ?thesis
    using attempt_rows.stale_revision [OF _ assms(3) _ assms(4,5)] db_steps_evolves [OF assms(2) inv]
    by (simp add: db_evolves_def db_ok_def)
qed

text \<open>The row of a task is still there in a later state.\<close>

lemma task_survives:
  assumes "reachable s" and "db_steps s s'" and "r \<in> set (db_tasks s)"
  shows "\<exists>r' \<in> set (db_tasks s'). tx_id r' = tx_id r \<and> task_rows.evolves r r'"
proof -
  have "task_rows.table_evolves (db_tasks s) (db_tasks s')"
    using db_steps_evolves [OF assms(2) reachable_lifecycle [OF assms(1)]] by (simp add: db_evolves_def)
  then obtain r' where "r' \<in> set (db_tasks s')" "task_rows.evolves r r'"
    using assms(3) by (auto simp: task_rows.table_evolves_def)
  with task_rows.evolves_key show ?thesis by blast
qed

lemma attempt_survives:
  assumes "reachable s" and "db_steps s s'" and "r \<in> set (db_attempts s)"
  shows "\<exists>r' \<in> set (db_attempts s'). ax_id r' = ax_id r \<and> attempt_rows.evolves r r'"
proof -
  have "attempt_rows.table_evolves (db_attempts s) (db_attempts s')"
    using db_steps_evolves [OF assms(2) reachable_lifecycle [OF assms(1)]] by (simp add: db_evolves_def)
  then obtain r' where "r' \<in> set (db_attempts s')" "attempt_rows.evolves r r'"
    using assms(3) by (auto simp: attempt_rows.table_evolves_def)
  with attempt_rows.evolves_key show ?thesis by blast
qed

section \<open>How many attempts a task gets\<close>

lemma attempts_within_budget:
  assumes "lifecycle_ok s" and "t \<in> set (db_tasks s)"
  shows "int (length (filter (\<lambda>a. ax_task_id a = tx_id t) (db_attempts s))) \<le> tx_max_attempts t"
proof -
  let ?as = "filter (\<lambda>a. ax_task_id a = tx_id t) (db_attempts s)"
  have db: "db_ok s" using assms(1) by (rule lifecycle_db_ok)
  have "distinct (map ax_ordinal ?as)"
  proof -
    have "distinct (map attempt_key ?as)" using db by (auto simp: db_ok_def distinct_map_filter)
    moreover have "map attempt_key ?as = map (Pair (tx_id t)) (map ax_ordinal ?as)" by (simp add: attempt_key_def)
    ultimately show ?thesis by (simp only: distinct_map)
  qed
  then have "length ?as = card (set (map ax_ordinal ?as))" by (metis distinct_card length_map)
  also have "\<dots> \<le> card {1..tx_max_attempts t}"
  proof (rule card_mono, simp, rule subsetI)
    fix n assume "n \<in> set (map ax_ordinal ?as)"
    then obtain a where a: "a \<in> set (db_attempts s)" "ax_task_id a = tx_id t" "n = ax_ordinal a" by auto
    with assms(1) obtain t' where t': "t' \<in> set (db_tasks s)" "tx_id t' = tx_id t" "ax_ordinal a < tx_next_attempt_ordinal t'"
      by (auto simp: lifecycle_ok_def attempts_inv_def)
    have "t' = t" by (rule db_ok_keys(2) [OF db]) (use t' assms in auto)
    moreover have "1 \<le> ax_ordinal a" using db a by (auto simp: db_ok_def list_all_iff attempt_row_ok_def)
    ultimately show "n \<in> {1..tx_max_attempts t}"
      using t' a lifecycle_task_inv [OF assms] by (auto simp: task_inv_def)
  qed
  finally show ?thesis using db assms(2) by (auto simp: db_ok_def list_all_iff task_row_ok_def)
qed

end
