(* ===== verification/Sample_Run.thy ===== *)
theory Sample_Run
  imports Store_Steps Definition_Properties
begin

text \<open>
  One concrete execution of the sample workflow, transaction by transaction: the stores the
  witnesses of the properties of the store evaluate on. Identifiers are small numbers: definition
  1, workflow 2, tasks 11 (for \<open>a\<close>) and 12 (for \<open>b\<close>), worker session 31, attempts 21 and 22,
  history entries 101 and on.
\<close>

definition sample_execution :: workflow_execution where
  "sample_execution = \<lparr>we_id = 2, we_definition_id = 1, we_state = WF_INITIALIZING, we_revision = 1,
     we_workflow_input = PyInt 7, we_output = OutputAbsent, we_failure_cause = None,
     we_created_at_utc = None, we_updated_at_utc = None\<rparr>"

definition sample_key :: idempotency_key where "sample_key = IdempotencyKey ''k''"
definition sample_fingerprint :: request_fingerprint where
  "sample_fingerprint = RequestFingerprint (replicate 64 CHR ''0'')"

definition sample_population :: "(task_execution_id \<times> task_definition) list" where
  "sample_population = [(12, sample_task_b), (11, sample_task_a)]"

definition sample_document :: pyval where
  "sample_document = PyDict
     [(PyStr ''workflow_name'', PyStr ''w''),
      (PyStr ''tasks'', PyDict
        [(PyStr ''a'', PyDict
           [(PyStr ''id'', PyStr ''a''), (PyStr ''activity_type'', PyStr ''act''), (PyStr ''dependencies'', PyList []),
            (PyStr ''input_bindings'', PyDict
               [(PyStr ''l'', PyDict [(PyStr ''type'', PyStr ''Literal''), (PyStr ''value'', PyList [PyInt 1])])]),
            (PyStr ''max_attempts'', PyInt 1)]),
         (PyStr ''b'', PyDict
           [(PyStr ''id'', PyStr ''b''), (PyStr ''activity_type'', PyStr ''act''),
            (PyStr ''dependencies'', PyList [PyStr ''a'']),
            (PyStr ''input_bindings'', PyDict
               [(PyStr ''x'', PyDict [(PyStr ''type'', PyStr ''TaskOutput''), (PyStr ''upstream_task_id'', PyStr ''a'')])]),
            (PyStr ''max_attempts'', PyInt 2)])]),
      (PyStr ''output_bindings'', PyDict
        [(PyStr ''out'', PyDict [(PyStr ''type'', PyStr ''WorkflowTaskOutput''), (PyStr ''source_task_id'', PyStr ''b'')])])]"

definition sample_workflow :: "workflow_state \<Rightarrow> int \<Rightarrow> pyval option \<Rightarrow> datetime \<Rightarrow> workflow_row" where
  "sample_workflow st rv out updated = \<lparr>wx_id = 2, wx_definition_id = 1, wx_state = st, wx_revision = rv,
     wx_input = Some (PyInt 7), wx_has_output = (out \<noteq> None), wx_output = out, wx_failure = no_failure,
     wx_created_at_utc = 1, wx_updated_at_utc = updated\<rparr>"

definition sample_task_row ::
  "task_execution_id \<Rightarrow> string \<Rightarrow> int \<Rightarrow> task_state \<Rightarrow> int \<Rightarrow> pyval option \<Rightarrow> pyval option \<Rightarrow> int \<Rightarrow> datetime \<Rightarrow> task_row" where
  "sample_task_row i name budget st rv input out ordinal updated =
     \<lparr>tx_id = i, tx_workflow_id = 2, tx_task_definition_id = name, tx_state = st, tx_revision = rv,
      tx_has_input = (input \<noteq> None), tx_stable_input = input, tx_has_output = (out \<noteq> None), tx_output = out,
      tx_max_attempts = budget, tx_next_attempt_ordinal = ordinal, tx_retry_ready_at_utc = None,
      tx_failure = no_failure, tx_created_at_utc = 2, tx_updated_at_utc = updated\<rparr>"

definition sample_attempt :: "attempt_id \<Rightarrow> task_execution_id \<Rightarrow> attempt_state \<Rightarrow> int \<Rightarrow> datetime \<Rightarrow> datetime \<Rightarrow> attempt_row" where
  "sample_attempt i t st rv made updated =
     \<lparr>ax_id = i, ax_task_id = t, ax_ordinal = 1, ax_worker_session_id = 31, ax_state = st, ax_revision = rv,
      ax_start_deadline_utc = 100, ax_execution_timeout_utc = None, ax_cancellation_deadline_utc = None,
      ax_failure = no_failure, ax_created_at_utc = made, ax_updated_at_utc = updated\<rparr>"

text \<open>The two tasks in a given state: the input and output of each as the run computes them.\<close>

definition row_a :: "task_state \<Rightarrow> int \<Rightarrow> pyval option \<Rightarrow> int \<Rightarrow> datetime \<Rightarrow> task_row" where
  "row_a st rv out ordinal updated = sample_task_row 11 ''a'' 1 st rv
     (if st = TS_PENDING then None else Some (PyDict [(PyStr ''l'', PyList [PyInt 1])])) out ordinal updated"

definition row_b :: "task_state \<Rightarrow> int \<Rightarrow> pyval option \<Rightarrow> int \<Rightarrow> datetime \<Rightarrow> task_row" where
  "row_b st rv out ordinal updated = sample_task_row 12 ''b'' 2 st rv
     (if st = TS_PENDING then None else Some (PyDict [(PyStr ''x'', PyInt 5)])) out ordinal updated"

definition sample_history :: "history_row list" where
  "sample_history =
    [mk_history 101 2 None None ''WorkflowExecutionCreated''
       [(''definition_id'', PyStr ''00000000-0000-0000-0000-000000000001'')] 1,
     mk_history 102 2 None None ''TaskPopulationEstablished'' [(''task_count'', PyInt 2)] 2,
     mk_history 103 2 None None ''WorkflowExecutionStarted'' [(''state'', PyStr ''RUNNING'')] 3,
     mk_history 104 2 (Some 11) None ''TaskMarkedRunnable''
       [(''task_id'', PyStr ''00000000-0000-0000-0000-00000000000b'')] 4,
     mk_history 105 2 (Some 11) (Some 21) ''TaskClaimedByWorker''
       [(''worker_session_id'', PyStr ''00000000-0000-0000-0000-00000000001f''), (''attempt_ordinal'', PyInt 1)] 5,
     mk_history 106 2 (Some 11) (Some 21) ''AttemptExecutionStarted'' [(''state'', PyStr ''RUNNING'')] 6,
     mk_history 107 2 (Some 11) (Some 21) ''TaskExecutionSucceeded'' [(''has_output'', PyBool True)] 7,
     mk_history 108 2 (Some 12) None ''TaskMarkedRunnable''
       [(''task_id'', PyStr ''00000000-0000-0000-0000-00000000000c'')] 8,
     mk_history 109 2 (Some 12) (Some 22) ''TaskClaimedByWorker''
       [(''worker_session_id'', PyStr ''00000000-0000-0000-0000-00000000001f''), (''attempt_ordinal'', PyInt 1)] 9,
     mk_history 110 2 (Some 12) (Some 22) ''AttemptExecutionStarted'' [(''state'', PyStr ''RUNNING'')] 10,
     mk_history 111 2 (Some 12) (Some 22) ''TaskExecutionSucceeded'' [(''has_output'', PyBool True)] 11,
     mk_history 112 2 None None ''WorkflowExecutionSucceeded'' [(''has_output'', PyBool True)] 12]"

definition sample_store :: "workflow_row list \<Rightarrow> task_row list \<Rightarrow> attempt_row list \<Rightarrow> nat \<Rightarrow> db" where
  "sample_store ws ts as n =
     \<lparr>db_definitions = [\<lparr>dr_definition_id = 1, dr_workflow_name = ''w'', dr_validated_iws = Some sample_document,
                          dr_raw_yaml = None, dr_created_at_utc = 0\<rparr>],
      db_workflows = ws, db_tasks = ts, db_attempts = as, db_history = take n sample_history,
      db_idempotency = [\<lparr>ix_operation_type = ''REGISTER_DEFINITION'', ix_idempotency_key = ''k'',
        ix_request_fingerprint = replicate 64 CHR ''0'', ix_resource_id = 1, ix_created_at_utc = 0\<rparr>]\<rparr>"

definition db_registered :: db where
  "db_registered = sample_store []
     []
     [] 0"

definition db_created :: db where
  "db_created = sample_store [sample_workflow WF_INITIALIZING 1 None 1]
     []
     [] 1"

definition db_populated :: db where
  "db_populated = sample_store [sample_workflow WF_INITIALIZING 1 None 1]
     [row_b TS_PENDING 1 None 1 2, row_a TS_PENDING 1 None 1 2]
     [] 2"

definition db_running :: db where
  "db_running = sample_store [sample_workflow WF_RUNNING 2 None 3]
     [row_b TS_PENDING 1 None 1 2, row_a TS_PENDING 1 None 1 2]
     [] 3"

definition db_ready :: db where
  "db_ready = sample_store [sample_workflow WF_RUNNING 2 None 3]
     [row_b TS_PENDING 1 None 1 2, row_a TS_RUNNABLE 2 None 1 4]
     [] 4"

definition db_claimed :: db where
  "db_claimed = sample_store [sample_workflow WF_RUNNING 2 None 3]
     [row_b TS_PENDING 1 None 1 2, row_a TS_RUNNING 3 None 2 5]
     [sample_attempt 21 11 AS_CLAIMED 1 5 5] 5"

definition db_started :: db where
  "db_started = sample_store [sample_workflow WF_RUNNING 2 None 3]
     [row_b TS_PENDING 1 None 1 2, row_a TS_RUNNING 3 None 2 5]
     [sample_attempt 21 11 AS_RUNNING 2 5 6] 6"

definition db_a_done :: db where
  "db_a_done = sample_store [sample_workflow WF_RUNNING 2 None 3]
     [row_b TS_PENDING 1 None 1 2, row_a TS_SUCCEEDED 4 (Some (PyInt 5)) 2 7]
     [sample_attempt 21 11 AS_SUCCEEDED 3 5 7] 7"

definition db_b_ready :: db where
  "db_b_ready = sample_store [sample_workflow WF_RUNNING 2 None 3]
     [row_b TS_RUNNABLE 2 None 1 8, row_a TS_SUCCEEDED 4 (Some (PyInt 5)) 2 7]
     [sample_attempt 21 11 AS_SUCCEEDED 3 5 7] 8"

definition db_b_claimed :: db where
  "db_b_claimed = sample_store [sample_workflow WF_RUNNING 2 None 3]
     [row_b TS_RUNNING 3 None 2 9, row_a TS_SUCCEEDED 4 (Some (PyInt 5)) 2 7]
     [sample_attempt 21 11 AS_SUCCEEDED 3 5 7, sample_attempt 22 12 AS_CLAIMED 1 9 9] 9"

definition db_b_started :: db where
  "db_b_started = sample_store [sample_workflow WF_RUNNING 2 None 3]
     [row_b TS_RUNNING 3 None 2 9, row_a TS_SUCCEEDED 4 (Some (PyInt 5)) 2 7]
     [sample_attempt 21 11 AS_SUCCEEDED 3 5 7, sample_attempt 22 12 AS_RUNNING 2 9 10] 10"

definition db_b_done :: db where
  "db_b_done = sample_store [sample_workflow WF_RUNNING 2 None 3]
     [row_b TS_SUCCEEDED 4 (Some (PyInt 6)) 2 11, row_a TS_SUCCEEDED 4 (Some (PyInt 5)) 2 7]
     [sample_attempt 21 11 AS_SUCCEEDED 3 5 7, sample_attempt 22 12 AS_SUCCEEDED 3 9 11] 11"

definition db_succeeded :: db where
  "db_succeeded = sample_store [sample_workflow WF_SUCCEEDED 3 (Some (PyDict [(PyStr ''out'', PyInt 6)])) 12]
     [row_b TS_SUCCEEDED 4 (Some (PyInt 6)) 2 11, row_a TS_SUCCEEDED 4 (Some (PyInt 5)) 2 7]
     [sample_attempt 21 11 AS_SUCCEEDED 3 5 7, sample_attempt 22 12 AS_SUCCEEDED 3 9 11] 12"

lemma run_registered:
  "commit_registered_definition 1 ''w'' sample_spec None (Some sample_key) (Some sample_fingerprint) 0 empty_db = Inr (db_registered, committed, 1)"
  by code_simp
lemma run_created: "commit_workflow_creation 101 sample_execution None None 1 db_registered = Inr (db_created, committed, 2)"
  by code_simp
lemma run_populated: "commit_task_population 102 2 sample_population 2 db_created = Inr (db_populated, committed)"
  by code_simp
lemma run_running: "commit_initialization_complete 103 2 1 3 db_populated = Inr (db_running, committed)"
  by code_simp
lemma run_ready:
  "commit_task_readiness 104 11 1 2 (PyProxy [(PyStr ''l'', PyTuple [PyInt 1])]) 4 db_running = Inr (db_ready, committed)"
  by code_simp
lemma run_claimed: "commit_attempt_ownership 105 11 2 2 31 21 100 5 db_ready = Inr (db_claimed, committed, Some 1)"
  by code_simp
lemma run_started: "commit_worker_execution_start 106 0 21 31 1 6 db_claimed = Inr (db_started, committed)"
  by code_simp
lemma run_a_done: "commit_worker_task_success 107 21 31 2 11 3 (PyInt 5) 7 db_started = Inr (db_a_done, committed)"
  by code_simp
lemma run_b_ready: "commit_task_readiness 108 12 1 2 (PyProxy [(PyStr ''x'', PyInt 5)]) 8 db_a_done = Inr (db_b_ready, committed)"
  by code_simp
lemma run_b_claimed: "commit_attempt_ownership 109 12 2 2 31 22 100 9 db_b_ready = Inr (db_b_claimed, committed, Some 1)"
  by code_simp
lemma run_b_started: "commit_worker_execution_start 110 0 22 31 1 10 db_b_claimed = Inr (db_b_started, committed)"
  by code_simp
lemma run_b_done: "commit_worker_task_success 111 22 31 2 12 3 (PyInt 6) 11 db_b_started = Inr (db_b_done, committed)"
  by code_simp
lemma run_succeeded:
  "commit_workflow_success 112 2 2 (PyProxy [(PyStr ''out'', PyInt 6)]) 12 db_b_done = Inr (db_succeeded, committed)"
  by code_simp


section \<open>Every store of the run is reachable\<close>

lemma sample_population_declared: "population_declared db_created 2 sample_population"
proof -
  have "get_workflow db_created 2 = Some (sample_workflow WF_INITIALIZING 1 None 1)" by code_simp
  moreover have "declared_task db_created 1 ''a'' \<and> declared_task db_created 1 ''b''"
  proof -
    have "document_task_ids sample_document = Inr [''a'', ''b'']" by code_simp
    then show ?thesis
      by (auto simp: declared_task_def get_definition_def db_created_def sample_store_def)
  qed
  ultimately show ?thesis
    by (auto simp: population_declared_def sample_population_def sample_task_a_def sample_task_b_def sample_workflow_def)
qed

lemma sample_name: "vs_workflow_name sample_spec = ''w''"
  by (simp add: sample_spec_def)

lemma reachable_registered: "reachable db_registered"
  by (rule reachable_step [OF reachable_empty]) (rule step_register [OF sample_spec_ok run_registered [folded sample_name]])
lemma reachable_created: "reachable db_created"
  by (rule reachable_step [OF reachable_registered]) (rule step_create, rule run_created)
lemma reachable_populated: "reachable db_populated"
  by (rule reachable_step [OF reachable_created]) (rule step_populate [OF sample_population_declared run_populated])
lemma reachable_running: "reachable db_running"
  by (rule reachable_step [OF reachable_populated]) (rule step_initialized, rule run_running)
lemma reachable_ready: "reachable db_ready"
  by (rule reachable_step [OF reachable_running]) (rule step_ready [OF _ run_ready], simp add: json_object_def)
lemma reachable_claimed: "reachable db_claimed"
  by (rule reachable_step [OF reachable_ready]) (rule step_claim, rule run_claimed)

lemma steps_started: "db_steps db_claimed db_started"
  by (rule r_into_rtranclp) (rule step_start, rule run_started)
lemma reachable_started: "reachable db_started"
  by (rule reachable_steps [OF reachable_claimed steps_started])
lemma steps_a_done: "db_steps db_started db_a_done"
  by (rule r_into_rtranclp) (rule step_success, rule run_a_done)
lemma reachable_a_done: "reachable db_a_done"
  by (rule reachable_steps [OF reachable_started steps_a_done])

lemma steps_b_done: "db_steps db_a_done db_b_done"
proof -
  have "db_step db_a_done db_b_ready" by (rule step_ready [OF _ run_b_ready]) (simp add: json_object_def)
  moreover have "db_step db_b_ready db_b_claimed" by (rule step_claim, rule run_b_claimed)
  moreover have "db_step db_b_claimed db_b_started" by (rule step_start, rule run_b_started)
  moreover have "db_step db_b_started db_b_done" by (rule step_success, rule run_b_done)
  ultimately show ?thesis by (rule converse_rtranclp_into_rtranclp [OF _ converse_rtranclp_into_rtranclp
    [OF _ converse_rtranclp_into_rtranclp [OF _ r_into_rtranclp]]])
qed

lemma reachable_b_done: "reachable db_b_done"
  by (rule reachable_steps [OF reachable_a_done steps_b_done])
lemma steps_succeeded: "db_steps db_b_done db_succeeded"
  by (rule r_into_rtranclp) (rule step_succeeded, rule run_succeeded)
lemma reachable_succeeded: "reachable db_succeeded"
  by (rule reachable_steps [OF reachable_b_done steps_succeeded])

end
