(* ===== verification/Store_Properties.thy ===== *)
theory Store_Properties
  imports Sample_Run
begin

text \<open>
  What holds of every store the transactions can reach, whatever the interleaving of clients,
  workers, scheduler, sweeps and recovery (\<open>persistence/transactions.py\<close> on the schema of
  \<open>persistence/orm.py\<close>).
\<close>

section \<open>Invariants of the reachable stores\<close>

text \<open>
  C1. Every reachable store is consistent: the schema's keys, references and checks hold; task
  ordinals stay within the attempt budget; outputs exist exactly on success; an active attempt
  belongs to a running task; the tasks of a workflow agree with its state; and every task is one
  its workflow's stored definition declares.
\<close>

theorem reachable_stores_consistent:
  assumes "reachable s" shows "lifecycle_ok s"
  by (rule reachable_lifecycle [OF assms])

theorem reachable_stores_consistent_witness: "lifecycle_ok db_succeeded \<and> db_attempts db_succeeded \<noteq> []"
proof
  show "lifecycle_ok db_succeeded" by (rule reachable_stores_consistent [OF reachable_succeeded])
qed (simp add: db_succeeded_def sample_store_def)

text \<open>C3. A task never has two active attempts, and while it has one it is running.\<close>

theorem single_active_attempt_per_task:
  assumes "reachable s" and "a \<in> set (db_attempts s)" and "b \<in> set (db_attempts s)"
    and "as_active (ax_state a)" and "as_active (ax_state b)" and "ax_task_id a = ax_task_id b"
  shows "a = b \<and> (\<exists>t \<in> set (db_tasks s). tx_id t = ax_task_id a \<and> tx_state t = TS_RUNNING)"
proof
  note inv = reachable_lifecycle [OF assms(1)]
  show "a = b" using single_active_attempt [OF lifecycle_db_ok [OF inv]] assms by blast
  show "\<exists>t \<in> set (db_tasks s). tx_id t = ax_task_id a \<and> tx_state t = TS_RUNNING"
    using inv assms(2,4) by (auto simp: lifecycle_ok_def attempts_inv_def)
qed

theorem single_active_attempt_per_task_witness:
  "\<exists>t \<in> set (db_tasks db_started). tx_id t = 11 \<and> tx_state t = TS_RUNNING"
proof -
  let ?a = "sample_attempt 21 11 AS_RUNNING 2 5 6"
  have m: "?a \<in> set (db_attempts db_started)" and act: "as_active (ax_state ?a)"
    by (simp_all add: db_started_def sample_store_def sample_attempt_def)
  have "ax_task_id ?a = 11" by (simp add: sample_attempt_def)
  with single_active_attempt_per_task [OF reachable_started m m act act refl] show ?thesis by auto
qed

text \<open>C4. A task never gets more attempts than its definition allows.\<close>

theorem attempts_never_exceed_budget:
  assumes "reachable s" and "t \<in> set (db_tasks s)"
  shows "int (length (filter (\<lambda>a. ax_task_id a = tx_id t) (db_attempts s))) \<le> tx_max_attempts t"
  by (rule attempts_within_budget [OF reachable_lifecycle [OF assms(1)] assms(2)])

theorem attempts_never_exceed_budget_witness:
  "length (filter (\<lambda>a. ax_task_id a = 12) (db_attempts db_succeeded)) \<le> 2"
proof -
  have "row_b TS_SUCCEEDED 4 (Some (PyInt 6)) 2 11 \<in> set (db_tasks db_succeeded)"
    by (simp add: db_succeeded_def sample_store_def)
  from attempts_never_exceed_budget [OF reachable_succeeded this] show ?thesis
    by (simp add: row_b_def sample_task_row_def)
qed

text \<open>
  C5. A settled workflow has only settled tasks and no active attempt left, and a workflow that
  succeeded has only succeeded tasks.
\<close>

theorem settled_workflow_is_quiet:
  assumes "reachable s" and "w \<in> set (db_workflows s)" and "wf_terminal (wx_state w)"
    and "t \<in> set (db_tasks s)" and "tx_workflow_id t = wx_id w"
  shows "ts_terminal (tx_state t) \<and> (wx_state w = WF_SUCCEEDED \<longrightarrow> tx_state t = TS_SUCCEEDED) \<and>
     (\<forall>a \<in> set (db_attempts s). ax_task_id a = tx_id t \<longrightarrow> as_terminal (ax_state a))"
proof -
  note inv = reachable_lifecycle [OF assms(1)]
  have "task_state_allowed (wx_state w) (tx_state t)" using lifecycle_allowed [OF inv assms(2,4)] assms(5) by simp
  with assms(3) have t: "ts_terminal (tx_state t)" "wx_state w = WF_SUCCEEDED \<longrightarrow> tx_state t = TS_SUCCEEDED" by auto
  have "as_terminal (ax_state a)" if "a \<in> set (db_attempts s)" "ax_task_id a = tx_id t" for a
    using idle_task_no_active [OF inv assms(4) _ that] t(1) by (cases "ax_state a") auto
  with t show ?thesis by blast
qed

theorem settled_workflow_is_quiet_witness:
  "list_all (\<lambda>t. tx_state t = TS_SUCCEEDED) (db_tasks db_succeeded) \<and> length (db_tasks db_succeeded) = 2"
  unfolding list_all_iff
proof (intro conjI ballI)
  fix t assume t: "t \<in> set (db_tasks db_succeeded)"
  let ?w = "sample_workflow WF_SUCCEEDED 3 (Some (PyDict [(PyStr ''out'', PyInt 6)])) 12"
  have w: "?w \<in> set (db_workflows db_succeeded)" by (simp add: db_succeeded_def sample_store_def)
  have "tx_workflow_id t = wx_id ?w"
    using t by (auto simp: db_succeeded_def sample_store_def sample_workflow_def row_a_def row_b_def sample_task_row_def)
  from settled_workflow_is_quiet [OF reachable_succeeded w _ t this] show "tx_state t = TS_SUCCEEDED"
    by (simp add: sample_workflow_def)
qed (simp add: db_succeeded_def sample_store_def)

section \<open>How stores evolve\<close>

text \<open>
  C28. Transactions refine the versioned state machines: from a reachable store, every later store
  keeps every row, moved only along the legal transitions of its state machine with one added to
  the revision per move; definitions, history and idempotency records are append-only.
\<close>

theorem stores_only_evolve:
  assumes "reachable s" and "db_steps s s'"
  shows "(\<exists>new. db_definitions s' = db_definitions s @ new) \<and> (\<exists>new. db_history s' = db_history s @ new) \<and>
     (\<exists>new. db_idempotency s' = db_idempotency s @ new) \<and>
     wf_rows.table_evolves (db_workflows s) (db_workflows s') \<and>
     task_rows.table_evolves (db_tasks s) (db_tasks s') \<and>
     attempt_rows.table_evolves (db_attempts s) (db_attempts s')"
  using db_steps_evolves [OF assms(2) reachable_lifecycle [OF assms(1)]] by (simp add: db_evolves_def)

theorem stores_only_evolve_witness:
  "task_rows.table_evolves (db_tasks db_started) (db_tasks db_a_done) \<and> db_tasks db_started \<noteq> db_tasks db_a_done"
  using stores_only_evolve [OF reachable_started steps_a_done]
  by (auto simp: db_started_def db_a_done_def sample_store_def row_a_def sample_task_row_def)

text \<open>A settled task or workflow never changes again, and a settled attempt keeps all its revision covers.\<close>

theorem settled_rows_are_frozen:
  assumes "reachable s" and "db_steps s s'"
  shows "(\<forall>r \<in> set (db_tasks s). ts_terminal (tx_state r) \<longrightarrow> r \<in> set (db_tasks s')) \<and>
     (\<forall>w \<in> set (db_workflows s). wf_terminal (wx_state w) \<longrightarrow> w \<in> set (db_workflows s')) \<and>
     (\<forall>a \<in> set (db_attempts s). as_terminal (ax_state a) \<longrightarrow>
        (\<exists>b \<in> set (db_attempts s'). attempt_core b = attempt_core a))"
proof (intro conjI ballI impI)
  have e: "task_rows.table_evolves (db_tasks s) (db_tasks s')" "wf_rows.table_evolves (db_workflows s) (db_workflows s')"
    "attempt_rows.table_evolves (db_attempts s) (db_attempts s')"
    using db_steps_evolves [OF assms(2) reachable_lifecycle [OF assms(1)]] by (simp_all add: db_evolves_def)
  show "r \<in> set (db_tasks s')" if "r \<in> set (db_tasks s)" "ts_terminal (tx_state r)" for r
    using e(1) that task_rows.evolves_terminal unfolding task_rows.table_evolves_def by fastforce
  show "w \<in> set (db_workflows s')" if "w \<in> set (db_workflows s)" "wf_terminal (wx_state w)" for w
    using e(2) that wf_rows.evolves_terminal unfolding wf_rows.table_evolves_def by fastforce
  show "\<exists>b \<in> set (db_attempts s'). attempt_core b = attempt_core a"
    if "a \<in> set (db_attempts s)" "as_terminal (ax_state a)" for a
    using e(3) that attempt_rows.evolves_terminal unfolding attempt_rows.table_evolves_def by blast
qed

theorem settled_rows_are_frozen_witness:
  "row_a TS_SUCCEEDED 4 (Some (PyInt 5)) 2 7 \<in> set (db_tasks db_b_done)"
  using settled_rows_are_frozen [OF reachable_a_done steps_b_done]
  by (simp add: db_a_done_def sample_store_def row_a_def sample_task_row_def)

text \<open>
  Optimistic concurrency is sound: a later row of a task with the revision read earlier is
  the row read earlier, and otherwise its revision is greater.
\<close>

theorem revision_identifies_task_row:
  assumes "reachable s" and "db_steps s s'" and "r \<in> set (db_tasks s)" and "r' \<in> set (db_tasks s')"
    and "tx_id r' = tx_id r"
  shows "r' = r \<or> tx_revision r < tx_revision r'"
proof -
  have "task_rows.evolves r r'" by (rule later_task [OF assms])
  from task_rows.evolves_revision [OF this] show ?thesis by auto
qed

theorem revision_identifies_task_row_witness:
  "tx_revision (row_a TS_RUNNING 3 None 2 5) < tx_revision (row_a TS_SUCCEEDED 4 (Some (PyInt 5)) 2 7)"
proof -
  have "row_a TS_RUNNING 3 None 2 5 \<in> set (db_tasks db_started)"
    "row_a TS_SUCCEEDED 4 (Some (PyInt 5)) 2 7 \<in> set (db_tasks db_a_done)"
    by (simp_all add: db_started_def db_a_done_def sample_store_def)
  from revision_identifies_task_row [OF reachable_started steps_a_done this] show ?thesis
    by (auto simp: row_a_def sample_task_row_def)
qed

end
