(* ===== verification/Static_Tables.thy ===== *)
theory Static_Tables
  imports Store_Steps
begin

text \<open>
  What only two transactions change: definitions are written by registration alone, and the keys
  of the task table by population alone, which admits only workflows that are still
  \<open>INITIALIZING\<close>. Two invariants follow: every stored document names its tasks, and a workflow
  that left \<open>INITIALIZING\<close> never gets another task.
\<close>

definition static_tables :: "db \<Rightarrow> definition_row list \<times> (workflow_execution_id \<times> string) list" where
  "static_tables s = (db_definitions s, map task_key (db_tasks s))"

abbreviation keeps_static :: "definition_row list \<times> (workflow_execution_id \<times> string) list \<Rightarrow> py_exn + db \<times> 'a \<Rightarrow> bool" where
  "keeps_static K m \<equiv> post m (\<lambda>r. static_tables (fst r) = K)"

section \<open>Statements\<close>

lemma static_ret: "static_tables s = K \<Longrightarrow> keeps_static K (Inr (s, c))"
  by (simp add: post_Inr)

lemma static_workflows:
  "static_tables s = K \<Longrightarrow> (\<And>s1 n. static_tables s1 = K \<Longrightarrow> post (g s1 n) Q) \<Longrightarrow>
     post (bindE (update_workflows P f s) (\<lambda>(s1, n). g s1 n)) Q"
  by (rule post_step2) (auto simp: db_stmt static_tables_def)

lemma static_attempts:
  "static_tables s = K \<Longrightarrow> (\<And>s1 n. static_tables s1 = K \<Longrightarrow> post (g s1 n) Q) \<Longrightarrow>
     post (bindE (update_attempts P f s) (\<lambda>(s1, n). g s1 n)) Q"
  by (rule post_step2) (auto simp: db_stmt static_tables_def)

lemma static_update_tasks:
  "update_tasks P f s = Inr (s1, n) \<Longrightarrow> (\<And>r. task_key (f r) = task_key r) \<Longrightarrow> static_tables s1 = static_tables s"
  by (simp add: db_stmt static_tables_def map_key_update_rows)

lemma static_tasks:
  "static_tables s = K \<Longrightarrow> (\<And>r. task_key (f r) = task_key r) \<Longrightarrow>
     (\<And>s1 n. static_tables s1 = K \<Longrightarrow> post (g s1 n) Q) \<Longrightarrow>
     post (bindE (update_tasks P f s) (\<lambda>(s1, n). g s1 n)) Q"
  by (rule post_step2) (use static_update_tasks in metis)

lemma static_history:
  "static_tables s = K \<Longrightarrow> (\<And>s1. static_tables s1 = K \<Longrightarrow> post (g s1) Q) \<Longrightarrow> post (bindE (insert_history h s) g) Q"
  by (rule post_step) (auto simp: db_stmt static_tables_def)

lemma static_new_attempt:
  "static_tables s = K \<Longrightarrow> (\<And>s1. static_tables s1 = K \<Longrightarrow> post (g s1) Q) \<Longrightarrow> post (bindE (insert_attempt r s) g) Q"
  by (rule post_step) (auto simp: db_stmt static_tables_def)

lemma static_new_workflow:
  "static_tables s = K \<Longrightarrow> (\<And>s1. static_tables s1 = K \<Longrightarrow> post (g s1) Q) \<Longrightarrow> post (bindE (insert_workflow r s) g) Q"
  by (rule post_step) (auto simp: db_stmt static_tables_def)

lemma claim_key_static: "claim_idempotency_key op key fp res now s = Inr (s1, e) \<Longrightarrow> static_tables s1 = static_tables s"
  by (auto simp: claim_idempotency_key_def insert_idempotency_or_ignore_def bindE_eq_Inr static_tables_def
      split: option.splits if_splits)

lemma static_idempotency:
  "static_tables s = K \<Longrightarrow> (\<And>s1 e. static_tables s1 = K \<Longrightarrow> post (g s1 e) Q) \<Longrightarrow>
     post (bindE (claim_idempotency_key op key fp res now s) (\<lambda>(s1, e). g s1 e)) Q"
  by (rule post_step2) (auto dest: claim_key_static)

lemmas static_rules = post_ifI post_optionI static_ret static_workflows static_attempts static_tasks static_history
  static_new_attempt static_new_workflow static_idempotency

lemmas static_opaque = post_step [of "thaw_json _"] post_step [of "failure_details_json _"]
  post_step [of "document_task_ids _"]

section \<open>Transactions\<close>

lemma static_setup:
  "keeps_static (static_tables s) (commit_workflow_creation hid e key fp now s)"
  "keeps_static (static_tables s) (commit_initialization_complete hid w rv now s)"
  "keeps_static (static_tables s) (recover_initializing w now s)"
  "keeps_static (static_tables s) (commit_task_readiness hid t rv w v now s)"
  "keeps_static (static_tables s) (commit_attempt_ownership hid t rv w ws a dl now s)"
  "keeps_static (static_tables s) (commit_worker_execution_start hid u a ws rv now s)"
  unfolding commit_workflow_creation_def commit_initialization_complete_def recover_initializing_def
    commit_task_readiness_def commit_attempt_ownership_def commit_worker_execution_start_def Let_def
  by (auto simp: task_key_def split del: if_split intro!: static_rules static_opaque split: prod.split)

lemma static_settle:
  "keeps_static (static_tables s) (commit_worker_task_success hid a ws arv t trv v now s)"
  "keeps_static (static_tables s) (commit_worker_failure_with_retry hid a ws arv t trv w ready cause now s)"
  "keeps_static (static_tables s) (commit_worker_definitive_failure hid a ws arv t trv cause now s)"
  "keeps_static (static_tables s) (commit_workflow_failure_direction hid w cause now s)"
  "keeps_static (static_tables s) (commit_workflow_cancellation_direction hid w now s)"
  "keeps_static (static_tables s) (commit_workflow_success hid w rv v now s)"
  unfolding commit_worker_task_success_def commit_worker_failure_with_retry_def commit_worker_definitive_failure_def
    commit_workflow_failure_direction_def commit_workflow_cancellation_direction_def commit_workflow_success_def
    fail_owned_attempt_def fail_task_def bindE_assoc Let_def
  by (auto simp: task_key_def split del: if_split intro!: static_rules static_opaque)

lemma static_settle_task:
  "static_tables s = K \<Longrightarrow> keeps_static K (settle_task_retry_or_fail rt ready t w rv cause now s)"
  unfolding settle_task_retry_or_fail_def fail_task_def bindE_assoc
  by (cases rt; simp; auto simp: task_key_def split del: if_split intro!: static_rules static_opaque)

lemma static_settled:
  "static_tables s = K \<Longrightarrow> (\<And>s1 x. static_tables s1 = K \<Longrightarrow> post (g s1 x) Q) \<Longrightarrow>
     post (bindE (settle_task_retry_or_fail rt ready t w rv cause now s) (\<lambda>(s1, x). g s1 x)) Q"
  by (rule post_step2) (use postD [OF static_settle_task [of s K]] in fastforce)

lemma static_drain:
  "keeps_static (static_tables s) (settle_drained_workflow st st' c cat hid w rv now s)"
  "keeps_static (static_tables s) (commit_drain_task_cancellation hid t rv now s)"
  "keeps_static (static_tables s) (cancel_active_attempt extra m1 m2 cat payload hid a arv t trv now s)"
  "keeps_static (static_tables s) (commit_retry_ready hid t rv w now s)"
  "post (set_cancellation_deadline a dl s) (\<lambda>s'. static_tables s' = static_tables s)"
  unfolding settle_drained_workflow_def commit_drain_task_cancellation_def cancel_active_attempt_def
    commit_retry_ready_def Let_def
      apply (auto simp: task_key_def split del: if_split intro!: static_rules static_opaque)[4]
  by (auto simp: set_cancellation_deadline_def bindE_eq_Inr db_stmt static_tables_def intro!: postI)

lemma static_internal_failure:
  "keeps_static (static_tables s) (commit_internal_attempt_failure hid a arv t trv cause rt ready lost now s)"
  unfolding commit_internal_attempt_failure_def Let_def
  by (intro static_rules static_opaque static_settled refl; (assumption | rule refl)?)

section \<open>Registration and population\<close>

lemma registration_tables:
  assumes "commit_registered_definition d n spec yaml key fp now s = Inr (s', r)"
  shows "map task_key (db_tasks s') = map task_key (db_tasks s) \<and> (db_definitions s' = db_definitions s \<or>
     n \<noteq> [] \<and>
     (\<exists>doc. serialize_validated_spec spec = Inr doc \<and> db_definitions s' = db_definitions s @
        [\<lparr>dr_definition_id = d, dr_workflow_name = n, dr_validated_iws = jsonb doc, dr_raw_yaml = yaml, dr_created_at_utc = now\<rparr>]))"
  using assms unfolding commit_registered_definition_def
  by (elim run_bind2E) (auto simp: bindE_eq_Inr db_stmt static_tables_def definition_row_ok_def split: option.splits dest!: claim_key_static)

lemma population_tables:
  assumes "commit_task_population hid w tds now s = Inr (s', r)"
  shows "db_definitions s' = db_definitions s \<and>
     (map task_key (db_tasks s') = map task_key (db_tasks s) \<or>
      workflow_state_of s w = Some WF_INITIALIZING \<and>
      set (map task_key (db_tasks s')) \<subseteq> set (map task_key (db_tasks s)) \<union> {w} \<times> UNIV)"
proof (cases "workflow_state_of s w = Some WF_INITIALIZING")
  case True
  with assms obtain s1 h where run: "foldE (\<lambda>(tid, td). insert_task_or_ignore (new_task_row w now tid td)) tds s = Inr s1"
    and s': "insert_history h s1 = Inr s'"
    by (auto simp: commit_task_population_def Let_def bindE_eq_Inr)
  from populate_tasks_Inr [OF run] obtain new where "s1 = s\<lparr>db_tasks := db_tasks s @ new\<rparr>"
    "\<forall>t \<in> set new. \<exists>(tid, td) \<in> set tds. t = new_task_row w now tid td" by blast
  with s' True show ?thesis by (fastforce simp: db_stmt new_task_row_def task_key_def)
next
  case False
  with assms show ?thesis by (simp add: commit_task_population_def)
qed


section \<open>Every stored document is a serialised valid specification\<close>

definition documents_ok :: "db \<Rightarrow> bool" where
  "documents_ok s \<longleftrightarrow> (\<forall>d \<in> set (db_definitions s). \<exists>spec. spec_ok spec \<and> vs_workflow_name spec \<noteq> [] \<and>
     dr_validated_iws d = Some (spec_json spec))"

text \<open>A step that is neither a registration nor a population keeps both tables' keys.\<close>

lemma static_run: "m = Inr (s', x) \<Longrightarrow> keeps_static K m \<Longrightarrow> static_tables s' = K"
  by (simp add: post_def)

lemma db_step_tables:
  assumes "db_step s s'"
  shows "(db_definitions s' = db_definitions s \<or> (\<exists>d spec. spec_ok spec \<and> vs_workflow_name spec \<noteq> [] \<and> dr_validated_iws d = Some (spec_json spec) \<and>
       db_definitions s' = db_definitions s @ [d])) \<and>
     (\<forall>k \<in> set (map task_key (db_tasks s')). k \<in> set (map task_key (db_tasks s)) \<or>
       workflow_state_of s (fst k) = Some WF_INITIALIZING)"
  (is "?Q s'")
proof -
  have kept: "?Q s'" if "static_tables s' = static_tables s"
    using that unfolding static_tables_def prod.inject by (simp del: set_map)
  from assms show ?thesis
  proof cases
    case step_register
    have "jsonb (spec_json spec) = Some (spec_json spec)" for spec by (simp add: jsonb_def spec_json_def)
    with registration_tables [OF step_register(2)] serialize_spec_json [OF step_register(1)] step_register(1)
    show ?thesis by auto
  next
    case step_populate
    from population_tables [OF step_populate(2)] show ?thesis by (auto simp del: set_map)
  next
    case step_set_deadline
    from postD [OF static_drain(5) this] show ?thesis by (rule kept)
  qed (unfold commit_workflow_failure_def commit_workflow_cancellation_def commit_worker_cancellation_ack_def
      commit_internal_cancellation_deadline_def,
      (erule static_run [THEN kept], rule static_setup static_settle static_drain(1-4) static_internal_failure)+)
qed

lemma documents_reachable: "reachable s \<Longrightarrow> documents_ok s"
proof (induction rule: reachable.induct)
  case reachable_empty
  show ?case by (simp add: documents_ok_def empty_db_def)
next
  case (reachable_step s s')
  then show ?case using db_step_tables [OF reachable_step(2)] by (auto simp: documents_ok_def)
qed

lemma document_task_ids_spec:
  "document_task_ids (spec_json spec) = Inr (map tdid_value (sort (dict_keys (vs_tasks spec))))"
proof -
  have "mapE (\<lambda>k. case k of PyStr t \<Rightarrow> Inr t | _ \<Rightarrow> Inl TypeError) (map (\<lambda>t. PyStr (tdid_value t)) ts) =
      (Inr (map tdid_value ts) :: py_exn + string list)" for ts
    by (induction ts) auto
  moreover have "dict_keys (map (\<lambda>(t, td). (PyStr (tdid_value t), task_json t td)) d) =
      map (\<lambda>t. PyStr (tdid_value t)) (dict_keys d)" for d
    by (simp add: comp_def split_def)
  ultimately show ?thesis by (simp add: document_task_ids_def spec_json_def dict_keys_canon del: map_map)
qed

text \<open>The specification a workflow runs.\<close>

lemma workflow_spec:
  assumes "reachable s" and "w \<in> set (db_workflows s)"
  obtains d spec where "get_definition s (wx_definition_id w) = Some d" and "spec_ok spec"
    and "vs_workflow_name spec \<noteq> []" and "dr_validated_iws d = Some (spec_json spec)"
    and "\<And>name. declared_task s (wx_definition_id w) name \<longleftrightarrow> name \<in> tdid_value ` set (dict_keys (vs_tasks spec))"
proof -
  have "wx_definition_id w \<in> set (map dr_definition_id (db_definitions s))"
    using lifecycle_db_ok [OF reachable_lifecycle [OF assms(1)]] assms(2) by (auto simp: db_ok_def)
  then obtain d where d: "get_definition s (wx_definition_id w) = Some d"
    unfolding get_definition_def by (cases "find (\<lambda>r. dr_definition_id r = wx_definition_id w) (db_definitions s)") (auto simp: find_None_iff)
  with get_definition_SomeD documents_reachable [OF assms(1)] obtain spec where
    "spec_ok spec" "vs_workflow_name spec \<noteq> []" "dr_validated_iws d = Some (spec_json spec)" unfolding documents_ok_def by blast
  moreover from this(3) d have "declared_task s (wx_definition_id w) name \<longleftrightarrow> name \<in> tdid_value ` set (dict_keys (vs_tasks spec))" for name
    by (simp add: declared_task_def document_task_ids_spec)
  ultimately show thesis using that d by blast
qed

section \<open>A task that was never populated\<close>

text \<open>A workflow past \<open>INITIALIZING\<close> without a row for a declared task.\<close>

definition task_missing :: "workflow_execution_id \<Rightarrow> string \<Rightarrow> db \<Rightarrow> bool" where
  "task_missing w name s \<longleftrightarrow> (\<exists>r. get_workflow s w = Some r \<and> wx_state r \<noteq> WF_INITIALIZING \<and>
     declared_task s (wx_definition_id r) name) \<and> (w, name) \<notin> set (map task_key (db_tasks s))"

lemma declared_task_append:
  "db_definitions s' = db_definitions s @ ds \<Longrightarrow> declared_task s d name \<Longrightarrow> declared_task s' d name"
proof -
  assume "db_definitions s' = db_definitions s @ ds" "declared_task s d name"
  moreover have "find P xs = Some x \<Longrightarrow> find P (xs @ ys) = Some x" for P :: "definition_row \<Rightarrow> bool" and xs x ys
    by (induction xs) auto
  ultimately show ?thesis by (fastforce simp: declared_task_def get_definition_def)
qed

lemma never_initializing_again:
  "wf_trans\<^sup>*\<^sup>* a b \<Longrightarrow> a \<noteq> WF_INITIALIZING \<Longrightarrow> b \<noteq> WF_INITIALIZING"
  by (induction rule: rtranclp_induct) auto

lemma workflow_survives:
  assumes "reachable s" and "db_steps s s'" and "get_workflow s w = Some r"
  obtains r' where "get_workflow s' w = Some r'" and "wf_rows.evolves r r'" and "wx_definition_id r' = wx_definition_id r"
proof -
  have "wf_rows.table_evolves (db_workflows s) (db_workflows s')"
    using db_steps_evolves [OF assms(2) reachable_lifecycle [OF assms(1)]] by (simp add: db_evolves_def)
  then obtain r' where r': "r' \<in> set (db_workflows s')" "wf_rows.evolves r r'"
    using get_workflow_SomeD [OF assms(3)] unfolding wf_rows.table_evolves_def by blast
  have "wx_definition_id r' = wx_definition_id r"
    using r'(2) unfolding wf_rows.evolves_def
    by (induction rule: rtranclp_induct) (auto simp: wf_rows.row_step_def wf_kept_def)
  moreover have "get_workflow s' w = Some r'"
    using get_workflow_mem [OF lifecycle_db_ok [OF reachable_lifecycle [OF reachable_steps [OF assms(1,2)]]] r'(1)]
      wf_rows.evolves_key [OF r'(2)] get_workflow_SomeD [OF assms(3)] by simp
  ultimately show thesis using that r'(2) by blast
qed

lemma task_missing_step:
  assumes "db_step s s'" and "reachable s" and "task_missing w name s"
  shows "task_missing w name s'"
proof -
  from assms(3) obtain r where r: "get_workflow s w = Some r" "wx_state r \<noteq> WF_INITIALIZING"
    "declared_task s (wx_definition_id r) name" by (auto simp: task_missing_def)
  have steps: "db_steps s s'" using assms(1) by blast
  from workflow_survives [OF assms(2) steps r(1)] obtain r' where r': "get_workflow s' w = Some r'"
    "wf_rows.evolves r r'" "wx_definition_id r' = wx_definition_id r" .
  have "wx_state r' \<noteq> WF_INITIALIZING" using never_initializing_again [OF wf_rows.evolves_state [OF r'(2)] r(2)] .
  moreover obtain ds where "db_definitions s' = db_definitions s @ ds"
    using db_steps_evolves [OF steps reachable_lifecycle [OF assms(2)]] by (auto simp: db_evolves_def)
  with r(3) have "declared_task s' (wx_definition_id r') name" using declared_task_append r'(3) by metis
  moreover have "(w, name) \<notin> set (map task_key (db_tasks s'))"
  proof
    assume "(w, name) \<in> set (map task_key (db_tasks s'))"
    then have "(w, name) \<in> set (map task_key (db_tasks s)) \<or> workflow_state_of s w = Some WF_INITIALIZING"
      using db_step_tables [OF assms(1)] by (metis fst_conv)
    with assms(3) r show False by (simp add: task_missing_def workflow_state_of_def)
  qed
  ultimately show ?thesis using r'(1) by (auto simp: task_missing_def)
qed

lemma task_missing_forever:
  assumes "db_steps s s'" and "reachable s" and "task_missing w name s"
  shows "task_missing w name s'"
  using assms
proof (induction rule: rtranclp_induct)
  case (step s' s'')
  then show ?case using task_missing_step reachable_steps by blast
qed

end
