(* ===== verification/Transaction_Properties.thy ===== *)
theory Transaction_Properties
  imports Sample_Run
begin

text \<open>
  What single transactions of \<open>persistence/transactions.py\<close> promise their callers: when they
  commit, what a repeated or competing call gets, and what they leave behind when they do not
  commit.
\<close>

lemmas outcome_defs = committed_def committed_with_def precondition_failed_def occ_conflict_def

lemma committed_status [simp]:
  "co_status committed = COMMITTED" "co_status (committed_with m) = COMMITTED"
  "co_status (precondition_failed m) = PRECONDITION_FAILED" "co_status (occ_conflict m) = OCC_CONFLICT"
  by (simp_all add: outcome_defs)

section \<open>Claiming\<close>

abbreviation claimable :: "task_execution_id \<Rightarrow> workflow_execution_id \<Rightarrow> int \<Rightarrow> task_row \<Rightarrow> bool" where
  "claimable t w rv r \<equiv> tx_id r = t \<and> tx_workflow_id r = w \<and> tx_state r = TS_RUNNABLE \<and> tx_revision r = rv"

abbreviation claimed_row :: "datetime \<Rightarrow> task_row \<Rightarrow> task_row" where
  "claimed_row now r \<equiv> r\<lparr>tx_state := TS_RUNNING, tx_revision := tx_revision r + 1,
     tx_next_attempt_ordinal := tx_next_attempt_ordinal r + 1, tx_updated_at_utc := now\<rparr>"

abbreviation claim_attempt :: "attempt_id \<Rightarrow> task_row \<Rightarrow> worker_session_id \<Rightarrow> datetime \<Rightarrow> datetime \<Rightarrow> attempt_row" where
  "claim_attempt a r ws dl now \<equiv>
     \<lparr>ax_id = a, ax_task_id = tx_id r, ax_ordinal = tx_next_attempt_ordinal r, ax_worker_session_id = ws,
      ax_state = AS_CLAIMED, ax_revision = 1, ax_start_deadline_utc = dl, ax_execution_timeout_utc = None,
      ax_cancellation_deadline_utc = None, ax_failure = no_failure, ax_created_at_utc = now, ax_updated_at_utc = now\<rparr>"

abbreviation claim_history where
  "claim_history hid w t a ws r now \<equiv> mk_history hid w (Some t) (Some a) ''TaskClaimedByWorker''
     [(''worker_session_id'', PyStr (uuid_str ws)), (''attempt_ordinal'', PyInt (tx_next_attempt_ordinal r))] now"

lemma claim_committed:
  assumes "commit_attempt_ownership hid t rv w ws a dl now s = Inr (s', out, ord)" and "co_status out = COMMITTED"
  obtains r where "workflow_state_of s w = Some WF_RUNNING" and "find (claimable t w rv) (db_tasks s) = Some r"
    and "out = committed" and "ord = Some (tx_next_attempt_ordinal r)"
    and "a \<notin> set (map ax_id (db_attempts s))" and "hid \<notin> set (map hx_id (db_history s))"
    and "s' = s\<lparr>db_tasks := update_rows (claimable t w rv) (claimed_row now) (db_tasks s),
             db_attempts := db_attempts s @ [claim_attempt a r ws dl now],
             db_history := db_history s @ [claim_history hid w t a ws r now]\<rparr>"
proof -
  from assms(1) show thesis
    unfolding commit_attempt_ownership_def Let_def
  proof (elim run_elims, goal_cases)
    case (4 r s1 n s2 s3)
    have t: "tx_id r = t" using find_SomeD [OF 4(3)] by simp
    have s1: "s1 = s\<lparr>db_tasks := update_rows (claimable t w rv) (claimed_row now) (db_tasks s)\<rparr>"
      using 4(4) by (simp only: db_stmt)
    have s2: "a \<notin> set (map ax_id (db_attempts s1))" "s2 = s1\<lparr>db_attempts := db_attempts s1 @ [claim_attempt a r ws dl now]\<rparr>"
      using 4(5) by (simp_all only: db_stmt t add_diff_cancel_right' attempt_row.select_convs simp_thms)
    have s3: "hid \<notin> set (map hx_id (db_history s2))" "s3 = s2\<lparr>db_history := db_history s2 @ [claim_history hid w t a ws r now]\<rparr>"
      using 4(6) by (simp_all add: db_stmt mk_history_def)
    have res: "out = committed" "ord = Some (tx_next_attempt_ordinal r)" "s' = s3"
      using 4(7) by (simp_all only: sum.inject prod.inject add_diff_cancel_right')
    have fresh: "a \<notin> set (map ax_id (db_attempts s))" "hid \<notin> set (map hx_id (db_history s))"
      using s2(1) s3(1) by (simp_all add: s1 s2(2))
    have run: "workflow_state_of s w = Some WF_RUNNING" using 4(1) by blast
    have final: "s' = s\<lparr>db_tasks := update_rows (claimable t w rv) (claimed_row now) (db_tasks s),
               db_attempts := db_attempts s @ [claim_attempt a r ws dl now],
               db_history := db_history s @ [claim_history hid w t a ws r now]\<rparr>"
      unfolding res(3) s3(2) s2(2) s1 by simp
    show ?thesis by (rule that [OF run 4(3) res(1,2) fresh final])
  qed (use assms(2) in auto)
qed

lemma claim_committed_rows:
  assumes "commit_attempt_ownership hid t rv w ws a dl now s = Inr (s', out, ord)" and "co_status out = COMMITTED"
  obtains r r' where "r \<in> set (db_tasks s)" and "claimable t w rv r"
    and "r' \<in> set (db_tasks s')" and "tx_id r' = t" and "tx_revision r' = rv + 1"
proof -
  obtain r where r: "find (claimable t w rv) (db_tasks s) = Some r"
    and s': "db_tasks s' = update_rows (claimable t w rv) (claimed_row now) (db_tasks s)"
    by (rule claim_committed [OF assms]) simp
  have m: "r \<in> set (db_tasks s) \<and> claimable t w rv r" using r by (rule find_SomeD)
  then have "claimed_row now r \<in> set (db_tasks s')" unfolding s' set_update_rows by (intro rev_image_eqI [of r]) auto
  with m that show ?thesis by auto
qed

text \<open>
  C18. Claiming is exclusive: once a claim of a task at some revision has committed, no later claim
  at that revision commits, whoever makes it and whatever happened in between.
\<close>

theorem claim_is_exclusive:
  assumes "reachable s" and "commit_attempt_ownership hid t rv w ws a dl now s = Inr (s1, out, ord)"
    and "co_status out = COMMITTED" and "db_steps s1 s2"
    and "commit_attempt_ownership hid' t rv w' ws' a' dl' now' s2 = Inr (s3, out', ord')"
  shows "co_status out' \<noteq> COMMITTED"
proof
  assume c: "co_status out' = COMMITTED"
  from claim_committed_rows [OF assms(2,3)] obtain r1 where r1: "r1 \<in> set (db_tasks s1)" "tx_id r1 = t" "tx_revision r1 = rv + 1" .
  from claim_committed_rows [OF assms(5) c] obtain r2 where r2: "r2 \<in> set (db_tasks s2)" "claimable t w' rv r2" .
  have "reachable s1" using assms(1) step_claim [OF assms(2)] by (rule reachable_step)
  from later_task [OF this assms(4) r1(1) r2(1)] have "task_rows.evolves r1 r2" using r1 r2 by simp
  from task_rows.evolves_revision [OF this] show False using r1 r2 by simp
qed

theorem claim_is_exclusive_witness:
  "co_status (occ_conflict ''OCC conflict claiming task'') \<noteq> COMMITTED \<and>
   commit_attempt_ownership 120 11 2 2 32 41 100 8 db_a_done =
     Inr (db_a_done, occ_conflict ''OCC conflict claiming task'', None)"
proof
  show second: "commit_attempt_ownership 120 11 2 2 32 41 100 8 db_a_done =
     Inr (db_a_done, occ_conflict ''OCC conflict claiming task'', None)" by code_simp
  have "db_steps db_claimed db_a_done" by (rule rtranclp_trans [OF steps_started steps_a_done])
  from claim_is_exclusive [OF reachable_ready run_claimed _ this second]
  show "co_status (occ_conflict ''OCC conflict claiming task'') \<noteq> COMMITTED" by simp
qed

lemma claimed_rows_ok:
  "list_all task_row_ok (db_tasks s) \<Longrightarrow> list_all task_row_ok (update_rows (claimable t w rv) (claimed_row now) (db_tasks s))"
  by (fastforce simp: list_all_iff mem_update_rows task_row_ok_def)

text \<open>What inserting the claimed attempt needs holds in every consistent store.\<close>

lemma claim_attempt_insertable:
  assumes "lifecycle_ok s" and "r \<in> set (db_tasks s)" and "tx_state r = TS_RUNNABLE" and "a \<notin> set (map ax_id (db_attempts s))"
  shows "attempt_row_ok (claim_attempt a r ws dl now) \<and>
     attempt_key (claim_attempt a r ws dl now) \<notin> set (map attempt_key (db_attempts s)) \<and>
     distinct (active_attempt_tasks (db_attempts s @ [claim_attempt a r ws dl now]))"
proof (intro conjI)
  note db = lifecycle_db_ok [OF assms(1)]
  show "attempt_row_ok (claim_attempt a r ws dl now)"
    using lifecycle_task_inv [OF assms(1,2)] by (simp add: attempt_row_ok_def task_inv_def)
  show "attempt_key (claim_attempt a r ws dl now) \<notin> set (map attempt_key (db_attempts s))"
  proof
    assume "attempt_key (claim_attempt a r ws dl now) \<in> set (map attempt_key (db_attempts s))"
    then obtain b where b: "b \<in> set (db_attempts s)" "ax_task_id b = tx_id r" "ax_ordinal b = tx_next_attempt_ordinal r"
      by (auto simp: attempt_key_def)
    with assms(1) obtain t where t: "t \<in> set (db_tasks s)" "tx_id t = tx_id r" "ax_ordinal b < tx_next_attempt_ordinal t"
      by (auto simp: lifecycle_ok_def attempts_inv_def)
    have "t = r" by (rule db_ok_keys(2) [OF db t(1) assms(2) t(2)])
    with t b show False by simp
  qed
  have "tx_id r \<notin> set (active_attempt_tasks (db_attempts s))"
    using idle_task_no_active [OF assms(1,2)] assms(3) by (auto simp: active_attempt_tasks_def)
  then show "distinct (active_attempt_tasks (db_attempts s @ [claim_attempt a r ws dl now]))"
    using db by (auto simp: db_ok_def active_attempt_tasks_def)
qed

text \<open>
  C19. When a claim succeeds: over a reachable store it commits exactly when the workflow runs, the
  task is runnable at the given revision, and the new identifiers are unused; the attempt it
  creates is the next of the task.
\<close>

theorem claim_commits_iff:
  assumes "reachable s"
  shows "(\<exists>s' ord. commit_attempt_ownership hid t rv w ws a dl now s = Inr (s', committed, ord)) \<longleftrightarrow>
     workflow_state_of s w = Some WF_RUNNING \<and>
     (\<exists>r \<in> set (db_tasks s). tx_id r = t \<and> tx_workflow_id r = w \<and> tx_state r = TS_RUNNABLE \<and> tx_revision r = rv) \<and>
     a \<notin> set (map ax_id (db_attempts s)) \<and> hid \<notin> set (map hx_id (db_history s))"
proof -
  note inv = reachable_lifecycle [OF assms] and db = lifecycle_db_ok [OF reachable_lifecycle [OF assms]]
  show ?thesis (is "?L \<longleftrightarrow> ?R")
  proof
    assume ?L
    then obtain s' ord where "commit_attempt_ownership hid t rv w ws a dl now s = Inr (s', committed, ord)" by blast
    then show ?R by (rule claim_committed) (use find_SomeD in \<open>fastforce+\<close>)
  next
    assume R: ?R
    then obtain r where r: "r \<in> set (db_tasks s)" "claimable t w rv r" by blast
    have f: "find (claimable t w rv) (db_tasks s) = Some r"
      by (rule find_unique) (use r db_ok_keys(2) [OF db] in auto)
    have idle: "\<not> list_ex (\<lambda>a. ax_task_id a = t \<and> as_active (ax_state a)) (db_attempts s)"
      using idle_task_no_active [OF inv r(1)] r(2) by (auto simp: list_ex_iff)
    let ?s1 = "s\<lparr>db_tasks := update_rows (claimable t w rv) (claimed_row now) (db_tasks s)\<rparr>"
    have u: "update_tasks (claimable t w rv) (claimed_row now) s = Inr (?s1, count_rows (claimable t w rv) (db_tasks s))"
      using claimed_rows_ok [of s] db by (simp add: db_stmt db_ok_def)
    let ?s2 = "?s1\<lparr>db_attempts := db_attempts s @ [claim_attempt a r ws dl now]\<rparr>"
    have i: "insert_attempt (claim_attempt a r ws dl now) ?s1 = Inr ?s2"
      using claim_attempt_insertable [OF inv r(1) _ _ , of a ws dl now] R r
      by (auto simp: insert_attempt_Inr map_key_update_rows)
    have keys: "map tx_id (update_rows (claimable t w rv) (claimed_row now) (db_tasks s)) = map tx_id (db_tasks s)"
      by (rule map_key_update_rows) simp
    have "w \<in> set (map wx_id (db_workflows s))" using db r by (auto simp: db_ok_def)
    then have h: "insert_history (claim_history hid w t a ws r now) ?s2 =
        Inr (?s2\<lparr>db_history := db_history s @ [claim_history hid w t a ws r now]\<rparr>)"
      using R r by (auto simp: insert_history_Inr mk_history_def keys simp del: set_map) auto
    show ?L
      using R f idle u i h r by (auto simp: commit_attempt_ownership_def Let_def)
  qed
qed

theorem claim_commits_iff_witness:
  "\<exists>s' ord. commit_attempt_ownership 105 11 2 2 31 21 100 5 db_ready = Inr (s', committed, ord)"
  unfolding claim_commits_iff [OF reachable_ready] by code_simp

section \<open>Settling twice\<close>

abbreviation success_attempt :: "attempt_id \<Rightarrow> worker_session_id \<Rightarrow> task_execution_id \<Rightarrow> int \<Rightarrow> attempt_row \<Rightarrow> bool" where
  "success_attempt a ws t arv r \<equiv> ax_id r = a \<and> ax_worker_session_id r = ws \<and> ax_task_id r = t \<and>
     ax_state r = AS_RUNNING \<and> ax_revision r = arv"

abbreviation running_task :: "task_execution_id \<Rightarrow> int \<Rightarrow> task_row \<Rightarrow> bool" where
  "running_task t rv r \<equiv> tx_id r = t \<and> tx_state r = TS_RUNNING \<and> tx_revision r = rv"

lemma mem_update_rowsI: "r \<in> set rows \<Longrightarrow> P r \<Longrightarrow> f r \<in> set (update_rows P f rows)"
  by (auto simp: mem_update_rows)

lemma success_committed:
  assumes "commit_worker_task_success hid a ws arv t trv v now s = Inr (s', committed)"
  obtains p ar tr where "thaw_json v = Inr p" and "success_attempt a ws t arv ar" and "ar \<in> set (db_attempts s)"
    and "ar\<lparr>ax_state := AS_SUCCEEDED, ax_revision := ax_revision ar + 1, ax_updated_at_utc := now\<rparr> \<in> set (db_attempts s')"
    and "running_task t trv tr" and "tr \<in> set (db_tasks s)"
    and "tr\<lparr>tx_state := TS_SUCCEEDED, tx_has_output := True, tx_output := jsonb p,
           tx_revision := tx_revision tr + 1, tx_updated_at_utc := now\<rparr> \<in> set (db_tasks s')"
proof -
  let ?f = "\<lambda>r. r\<lparr>ax_state := AS_SUCCEEDED, ax_revision := ax_revision r + 1, ax_updated_at_utc := now\<rparr>"
  let ?g = "\<lambda>p r. r\<lparr>tx_state := TS_SUCCEEDED, tx_has_output := True, tx_output := jsonb p,
           tx_revision := tx_revision r + 1, tx_updated_at_utc := now\<rparr>"
  from assms obtain s1 n where u: "update_attempts (success_attempt a ws t arv) ?f s = Inr (s1, n)" and "0 < n"
    and rest: "bindE (thaw_json v) (\<lambda>p. case find (running_task t trv) (db_tasks s1) of
          None \<Rightarrow> Inr (s1, occ_conflict ''Task state/revision conflict'')
        | Some row \<Rightarrow> bindE (update_tasks (running_task t trv) (?g p) s1) (\<lambda>(s2, m).
            bindE (insert_history (mk_history hid (tx_workflow_id row) (Some t) (Some a)
                     ''TaskExecutionSucceeded'' [(''has_output'', PyBool True)] now) s2) (\<lambda>s3.
            Inr (s3, committed)))) = Inr (s', committed)"
    unfolding commit_worker_task_success_def Let_def
    by (elim run_elims) (simp_all add: outcome_defs)
  from u have s1: "s1 = s\<lparr>db_attempts := update_rows (success_attempt a ws t arv) ?f (db_attempts s)\<rparr>"
    and n: "n = count_rows (success_attempt a ws t arv) (db_attempts s)" by (simp_all only: db_stmt)
  from n \<open>0 < n\<close> obtain ar where ar: "ar \<in> set (db_attempts s)" "success_attempt a ws t arv ar"
    by (auto simp only: count_rows_pos)
  from rest obtain p tr s2 m where p: "thaw_json v = Inr p" and tr: "find (running_task t trv) (db_tasks s1) = Some tr"
    and u2: "update_tasks (running_task t trv) (?g p) s1 = Inr (s2, m)" and h: "db_attempts s' = db_attempts s2 \<and> db_tasks s' = db_tasks s2"
    by (elim run_elims) (auto simp: outcome_defs db_stmt)
  have s2: "s2 = s1\<lparr>db_tasks := update_rows (running_task t trv) (?g p) (db_tasks s1)\<rparr>" using u2 by (simp only: db_stmt)
  have trs: "tr \<in> set (db_tasks s) \<and> running_task t trv tr" using find_SomeD [OF tr] by (simp add: s1)
  have A: "?f ar \<in> set (db_attempts s')"
    using mem_update_rowsI [of ar "db_attempts s" "success_attempt a ws t arv" ?f] ar
    by (simp add: h s2 s1)
  have "?g p tr \<in> set (db_tasks s')"
    using mem_update_rowsI [of tr "db_tasks s" "running_task t trv" "?g p"] trs by (simp add: h s2 s1)
  with that [OF p ar(2,1) A] trs show thesis by blast
qed

lemma evolves_attempt_succeeded:
  assumes "reachable s" and "db_steps s s'" and "a \<in> set (db_attempts s)" and "as_terminal (ax_state a)"
  obtains b where "get_attempt s' (ax_id a) = Some b" and "attempt_core b = attempt_core a"
proof -
  from attempt_survives [OF assms(1-3)] obtain b where b: "b \<in> set (db_attempts s')" "attempt_rows.evolves a b"
    and i: "ax_id b = ax_id a" by blast
  have "db_ok s'" using lifecycle_db_ok [OF reachable_lifecycle [OF reachable_steps [OF assms(1,2)]]] .
  from get_attempt_mem [OF this b(1)] i have "get_attempt s' (ax_id a) = Some b" by simp
  with that attempt_rows.evolves_terminal [OF b(2) assms(4)] show thesis by blast
qed

lemma evolves_task_terminal:
  assumes "reachable s" and "db_steps s s'" and "r \<in> set (db_tasks s)" and "ts_terminal (tx_state r)"
  shows "get_task s' (tx_id r) = Some r"
proof -
  from task_survives [OF assms(1-3)] obtain b where b: "b \<in> set (db_tasks s')" "task_rows.evolves r b" by blast
  have "b = r" using task_rows.evolves_terminal [OF b(2) assms(4)] by simp
  moreover have "db_ok s'" using lifecycle_db_ok [OF reachable_lifecycle [OF reachable_steps [OF assms(1,2)]]] .
  ultimately show ?thesis using get_task_mem b(1) by blast
qed

lemma update_attempts_none:
  assumes "db_ok s" and "\<And>r. r \<in> set (db_attempts s) \<Longrightarrow> \<not> P r"
  shows "update_attempts P f s = Inr (s, 0)"
proof -
  have c: "count_rows P (db_attempts s) = 0" using assms(2) count_rows_pos by (metis gr0I)
  show ?thesis
    using assms(1) c by (simp add: update_attempts_Inr update_rows_none [OF c] db_ok_def)
qed

text \<open>
  C26. Reporting success is idempotent: when a worker's success callback has committed, repeating it
  at any later time, with whatever revisions, is accepted again and changes nothing.
\<close>

theorem success_callback_idempotent:
  assumes "reachable s" and "commit_worker_task_success hid a ws arv t trv v now s = Inr (s1, committed)"
    and "frozen v" and "db_steps s1 s2"
  shows "commit_worker_task_success hid' a ws' arv' t trv' v now' s2 =
     Inr (s2, committed_with ''Duplicate callback matches'')"
proof -
  have r1: "reachable s1" using assms(1) step_success [OF assms(2)] by (rule reachable_step)
  have db: "db_ok s2" using lifecycle_db_ok [OF reachable_lifecycle [OF reachable_steps [OF r1 assms(4)]]] .
  obtain p ar tr where p: "thaw_json v = Inr p" and ar: "ax_id ar = a"
    and ar': "ar\<lparr>ax_state := AS_SUCCEEDED, ax_revision := ax_revision ar + 1, ax_updated_at_utc := now\<rparr> \<in> set (db_attempts s1)"
    and tr: "tx_id tr = t"
    and tr': "tr\<lparr>tx_state := TS_SUCCEEDED, tx_has_output := True, tx_output := jsonb p,
           tx_revision := tx_revision tr + 1, tx_updated_at_utc := now\<rparr> \<in> set (db_tasks s1)"
    by (rule success_committed [OF assms(2)]) blast
  obtain b where b: "get_attempt s2 a = Some b" "ax_state b = AS_SUCCEEDED"
    by (rule evolves_attempt_succeeded [OF r1 assms(4) ar']) (use ar in \<open>auto dest: attempt_core_eqD\<close>)
  have t: "get_task s2 t = Some (tr\<lparr>tx_state := TS_SUCCEEDED, tx_has_output := True, tx_output := jsonb p,
           tx_revision := tx_revision tr + 1, tx_updated_at_utc := now\<rparr>)"
    using evolves_task_terminal [OF r1 assms(4) tr'] tr by simp
  have none: "\<not> success_attempt a ws' t arv' r" if "r \<in> set (db_attempts s2)" for r
    using get_attempt_mem [OF db that] b by auto
  have "py_eq p (column_value (jsonb p))"
    using py_eq_refl native_unfreeze [OF assms(3)] thaw_frozen [OF assms(3)] p
    by (auto simp: jsonb_def column_value_def)
  with b t p show ?thesis
    by (simp add: commit_worker_task_success_def update_attempts_none [OF db none])
qed

theorem success_callback_idempotent_witness:
  "commit_worker_task_success 130 21 31 2 11 3 (PyInt 5) 20 db_b_done =
     Inr (db_b_done, committed_with ''Duplicate callback matches'')"
  by (rule success_callback_idempotent [OF reachable_started run_a_done _ steps_b_done]) simp

section \<open>Idempotency keys\<close>

lemma claim_key_recorded:
  assumes "\<exists>x \<in> set (db_idempotency s). idempotency_key_of x = (op, idem_value k) \<and>
       ix_request_fingerprint x = fp_digest fp \<and> ix_resource_id x = res"
    and "db_ok s" and "op \<in> {''REGISTER_DEFINITION'', ''START_EXECUTION''}" and "length (fp_digest fp') = 64"
  shows "claim_idempotency_key op (Some k) (Some fp') new now s =
     Inr (s, Some (if fp_digest fp' = fp_digest fp then (committed_with ''Idempotent match'', res)
                   else (precondition_failed ''Conflicting idempotency key'', new)))"
proof -
  from assms(1) obtain x where x: "x \<in> set (db_idempotency s)" "idempotency_key_of x = (op, idem_value k)"
    "ix_request_fingerprint x = fp_digest fp" "ix_resource_id x = res" by blast
  have "find (\<lambda>r. ix_operation_type r = op \<and> ix_idempotency_key r = idem_value k) (db_idempotency s) = Some x"
  proof (rule find_unique [OF x(1)])
    fix y assume y: "y \<in> set (db_idempotency s)" "ix_operation_type y = op \<and> ix_idempotency_key y = idem_value k"
    have "distinct (map idempotency_key_of (db_idempotency s))" using assms(2) by (simp add: db_ok_def)
    from distinct_map_eqD [OF this y(1) x(1)] show "y = x" using x(2) y(2) by (simp add: idempotency_key_of_def)
  qed (use x(2) in \<open>simp add: idempotency_key_of_def\<close>)
  moreover have "(op, idem_value k) \<in> set (map idempotency_key_of (db_idempotency s))" using x(1,2) by force
  ultimately show ?thesis
    using assms(3,4) x(3,4)
    by (auto simp: claim_idempotency_key_def insert_idempotency_or_ignore_def idempotency_row_ok_def
        idempotency_key_of_def require_def)
qed

lemma claim_key_records:
  assumes "claim_idempotency_key op (Some k) (Some fp) new now s = Inr (s', early)"
  shows "case early of
      None \<Rightarrow> \<exists>x \<in> set (db_idempotency s'). idempotency_key_of x = (op, idem_value k) \<and>
         ix_request_fingerprint x = fp_digest fp \<and> ix_resource_id x = new
    | Some (out, res) \<Rightarrow> co_status out = COMMITTED \<longrightarrow> (\<exists>x \<in> set (db_idempotency s').
         idempotency_key_of x = (op, idem_value k) \<and> ix_request_fingerprint x = fp_digest fp \<and> ix_resource_id x = res)"
proof -
  have find: "x \<in> set xs \<and> ix_operation_type x = op \<and> ix_idempotency_key x = idem_value k"
    if "find (\<lambda>r. ix_operation_type r = op \<and> ix_idempotency_key r = idem_value k) xs = Some x" for x xs
    using find_SomeD [OF that] by simp
  show ?thesis
    using assms unfolding claim_idempotency_key_def insert_idempotency_or_ignore_def option.case
    by (elim run_elims) (auto simp: idempotency_key_of_def dest!: find split: if_splits)
qed

text \<open>
  Registration is idempotent on its key: after a committed registration, a later one with the
  same key writes nothing; it returns the registered definition when the fingerprint is the same
  and is refused when it is not.
\<close>

theorem registration_idempotent:
  assumes "reachable s" and "spec_ok spec"
    and "commit_registered_definition d (vs_workflow_name spec) spec yaml (Some k) (Some fp) now s = Inr (s1, out, d1)"
    and "co_status out = COMMITTED" and "db_steps s1 s2" and "length (fp_digest fp') = 64"
  shows "commit_registered_definition d' n' spec' yaml' (Some k) (Some fp') now' s2 =
     Inr (s2, if fp_digest fp' = fp_digest fp then (committed_with ''Idempotent match'', d1)
              else (precondition_failed ''Conflicting idempotency key'', d'))"
proof -
  have r1: "reachable s1" using assms(1) step_register [OF assms(2,3)] by (rule reachable_step)
  have db: "db_ok s2" using lifecycle_db_ok [OF reachable_lifecycle [OF reachable_steps [OF r1 assms(5)]]] .
  from assms(3) obtain s0 early where c: "claim_idempotency_key ''REGISTER_DEFINITION'' (Some k) (Some fp) d now s = Inr (s0, early)"
    and rest: "(case early of Some (outcome, resource) \<Rightarrow> Inr (s0, outcome, resource)
        | None \<Rightarrow> bindE (serialize_validated_spec spec) (\<lambda>doc.
            bindE (insert_definition \<lparr>dr_definition_id = d, dr_workflow_name = vs_workflow_name spec, dr_validated_iws = jsonb doc,
                     dr_raw_yaml = yaml, dr_created_at_utc = now\<rparr> s0) (\<lambda>s2. Inr (s2, committed, d)))) = Inr (s1, out, d1)"
    unfolding commit_registered_definition_def by (rule run_bind2E) blast
  have rec1: "\<exists>x \<in> set (db_idempotency s1). idempotency_key_of x = (''REGISTER_DEFINITION'', idem_value k) \<and>
       ix_request_fingerprint x = fp_digest fp \<and> ix_resource_id x = d1"
    using claim_key_records [OF c] rest assms(4)
    by (cases early) (auto simp: bindE_eq_Inr db_stmt)
  moreover have "set (db_idempotency s1) \<subseteq> set (db_idempotency s2)"
    using db_steps_evolves [OF assms(5) reachable_lifecycle [OF r1]] by (auto simp: db_evolves_def)
  ultimately have rec: "\<exists>x \<in> set (db_idempotency s2). idempotency_key_of x = (''REGISTER_DEFINITION'', idem_value k) \<and>
       ix_request_fingerprint x = fp_digest fp \<and> ix_resource_id x = d1" by blast
  show ?thesis
    using claim_key_recorded [OF rec db _ assms(6)] by (simp add: commit_registered_definition_def)
qed

theorem registration_idempotent_witness:
  "commit_registered_definition 9 ''other'' sample_spec None (Some sample_key) (Some sample_fingerprint) 40 db_registered =
     Inr (db_registered, committed_with ''Idempotent match'', 1)"
  using registration_idempotent [OF reachable_empty sample_spec_ok run_registered [folded sample_name] _ rtranclp.rtrancl_refl,
      of sample_fingerprint 9 "''other''" sample_spec None 40]
  by (simp add: sample_fingerprint_def)

end
