(* ===== verification/Workflow_Properties.thy ===== *)
theory Workflow_Properties
  imports Static_Tables Transaction_Properties
begin

text \<open>
  What a settled workflow promises about its tasks, which workflows can never settle, and which
  outputs can never be committed.
\<close>

section \<open>Completeness\<close>

text \<open>
  C6. A settled workflow is complete: its task rows are exactly the tasks of the specification
  stored for it, one row each, and all of them are settled (on success: all succeeded).
\<close>

theorem settled_workflow_is_complete:
  assumes "reachable s" and "w \<in> set (db_workflows s)" and "wf_terminal (wx_state w)"
  shows "\<exists>d spec. get_definition s (wx_definition_id w) = Some d \<and> spec_ok spec \<and>
     dr_validated_iws d = Some (spec_json spec) \<and>
     distinct (map tx_task_definition_id (tasks_of s (wx_id w))) \<and>
     set (map tx_task_definition_id (tasks_of s (wx_id w))) = tdid_value ` set (dict_keys (vs_tasks spec)) \<and>
     (\<forall>t \<in> set (tasks_of s (wx_id w)). if wx_state w = WF_SUCCEEDED then tx_state t = TS_SUCCEEDED else ts_terminal (tx_state t))"
proof -
  note inv = reachable_lifecycle [OF assms(1)] and db = lifecycle_db_ok [OF reachable_lifecycle [OF assms(1)]]
  obtain d spec where d: "get_definition s (wx_definition_id w) = Some d" "spec_ok spec"
    "vs_workflow_name spec \<noteq> []" "dr_validated_iws d = Some (spec_json spec)"
    and declared: "\<And>name. declared_task s (wx_definition_id w) name \<longleftrightarrow> name \<in> tdid_value ` set (dict_keys (vs_tasks spec))"
    by (rule workflow_spec [OF assms(1,2)]) (rule that)
  have "distinct (map tx_task_definition_id (tasks_of s (wx_id w)))"
  proof -
    have "distinct (map task_key (tasks_of s (wx_id w)))"
      using db by (simp add: db_ok_def tasks_of_def distinct_map_filter)
    moreover have "map task_key (tasks_of s (wx_id w)) = map (Pair (wx_id w)) (map tx_task_definition_id (tasks_of s (wx_id w)))"
      by (simp add: tasks_of_def task_key_def)
    ultimately show ?thesis by (simp only: distinct_map)
  qed
  moreover have "set (map tx_task_definition_id (tasks_of s (wx_id w))) = tdid_value ` set (dict_keys (vs_tasks spec))"
  proof -
    have *: "{name. declared_task s (wx_definition_id w) name} = tdid_value ` set (dict_keys (vs_tasks spec))"
      using declared by blast
    have "covers s w" using inv assms(2,3) unfolding lifecycle_ok_def completeness_inv_def by blast
    moreover have "membership_inv s" using inv by (simp add: lifecycle_ok_def)
    ultimately show ?thesis
      unfolding * [symmetric] using assms(2) by (force simp: covers_def membership_inv_def tasks_of_def task_key_def)
  qed
  moreover have "if wx_state w = WF_SUCCEEDED then tx_state t = TS_SUCCEEDED else ts_terminal (tx_state t)"
    if "t \<in> set (tasks_of s (wx_id w))" for t
    using lifecycle_allowed [OF inv assms(2), of t] that assms(3) by (auto simp: tasks_of_def)
  ultimately show ?thesis using d by blast
qed

theorem settled_workflow_is_complete_witness:
  "set (map tx_task_definition_id (tasks_of db_succeeded 2)) = {''a'', ''b''} \<and> wf_terminal WF_SUCCEEDED"
proof -
  let ?w = "sample_workflow WF_SUCCEEDED 3 (Some (PyDict [(PyStr ''out'', PyInt 6)])) 12"
  have w: "?w \<in> set (db_workflows db_succeeded)" "wf_terminal (wx_state ?w)" "wx_id ?w = 2" "wx_definition_id ?w = 1"
    by (simp_all add: db_succeeded_def sample_store_def sample_workflow_def)
  have doc: "get_definition db_succeeded 1 = Some d \<Longrightarrow> dr_validated_iws d = Some sample_document" for d
    by (auto simp: get_definition_def db_succeeded_def sample_store_def)
  from settled_workflow_is_complete [OF reachable_succeeded w(1,2)] obtain d spec where
    d: "get_definition db_succeeded 1 = Some d" "dr_validated_iws d = Some (spec_json spec)"
    and s: "set (map tx_task_definition_id (tasks_of db_succeeded 2)) = tdid_value ` set (dict_keys (vs_tasks spec))"
    unfolding w(3,4) by blast
  have "spec_json spec = sample_document" using doc [OF d(1)] d(2) by simp
  moreover have "document_task_ids sample_document = Inr [''a'', ''b'']" by code_simp
  ultimately have "map tdid_value (sort (dict_keys (vs_tasks spec))) = [''a'', ''b'']"
    using document_task_ids_spec [of spec] by simp
  then have "tdid_value ` set (dict_keys (vs_tasks spec)) = {''a'', ''b''}"
    by (metis list.set(1,2) list.set_map set_sort)
  with s show ?thesis by simp
qed

text \<open>
  C25. A workflow that left \<open>INITIALIZING\<close> without a row for some declared task (a cancellation
  before population, or startup recovery of a partial population) can never settle: no sequence
  of transactions adds the row, and every settlement requires it.
\<close>

theorem unpopulated_workflow_never_settles:
  assumes "reachable s" and "get_workflow s w = Some r" and "wx_state r \<noteq> WF_INITIALIZING"
    and "declared_task s (wx_definition_id r) name" and "list_all (\<lambda>t. task_key t \<noteq> (w, name)) (db_tasks s)"
    and "db_steps s s'" and "get_workflow s' w = Some r'"
  shows "\<not> wf_terminal (wx_state r')"
proof
  assume ended: "wf_terminal (wx_state r')"
  have "task_missing w name s" using assms(2-5) by (auto simp: task_missing_def list_all_iff)
  then have "task_missing w name s'" by (rule task_missing_forever [OF assms(6,1)])
  then obtain miss: "(w, name) \<notin> set (map task_key (db_tasks s'))" and decl: "declared_task s' (wx_definition_id r') name"
    using assms(7) by (auto simp: task_missing_def)
  have "r' \<in> set (db_workflows s')" "wx_id r' = w" using get_workflow_SomeD [OF assms(7)] by auto
  with reachable_lifecycle [OF reachable_steps [OF assms(1,6)]] ended have "covers s' r'"
    unfolding lifecycle_ok_def completeness_inv_def by blast
  with decl miss \<open>wx_id r' = w\<close> show False by (simp add: covers_def)
qed

text \<open>The sample workflow, cancelled between creation and population.\<close>

definition db_cancelled_early :: db where
  "db_cancelled_early = (sample_store [sample_workflow WF_CANCELLING 2 None 3] [] [] 1)
     \<lparr>db_history := take 1 sample_history @ [mk_history 150 2 None None ''WorkflowCancellationRequested''
        [(''state'', PyStr ''CANCELLING'')] 3]\<rparr>"

lemma run_cancelled_early: "commit_workflow_cancellation_direction 150 2 3 db_created = Inr (db_cancelled_early, committed)"
  by code_simp

theorem unpopulated_workflow_never_settles_witness:
  "\<not> wf_terminal (wx_state (sample_workflow WF_CANCELLING 2 None 3)) \<and>
   commit_workflow_cancellation 151 2 2 9 db_cancelled_early =
     Inr (db_cancelled_early, precondition_failed ''Tasks remain active or missing'')"
proof
  have r: "reachable db_cancelled_early"
    by (rule reachable_step [OF reachable_created]) (rule step_cancelling, rule run_cancelled_early)
  have g: "get_workflow db_cancelled_early 2 = Some (sample_workflow WF_CANCELLING 2 None 3)" by code_simp
  have "document_task_ids sample_document = Inr [''a'', ''b'']" by code_simp
  then have d: "declared_task db_cancelled_early (wx_definition_id (sample_workflow WF_CANCELLING 2 None 3)) ''a''"
    by (auto simp: declared_task_def get_definition_def db_cancelled_early_def sample_store_def sample_workflow_def)
  show "\<not> wf_terminal (wx_state (sample_workflow WF_CANCELLING 2 None 3))"
    by (rule unpopulated_workflow_never_settles [OF r g _ d _ rtranclp.rtrancl_refl g])
      (simp_all add: sample_workflow_def db_cancelled_early_def sample_store_def)
qed code_simp

section \<open>Outputs\<close>

lemma updated_workflow_row_ok:
  "update_workflows P f s = Inr (s1, n) \<Longrightarrow> n \<noteq> 0 \<Longrightarrow> \<exists>r. P r \<and> workflow_row_ok (f r)"
  using count_rows_pos [of P "db_workflows s"] by (fastforce simp: db_stmt list_all_iff mem_update_rows)

lemma updated_task_row_ok:
  "update_tasks P f s = Inr (s1, n) \<Longrightarrow> find P (db_tasks s) = Some r \<Longrightarrow> task_row_ok (f r)"
  by (fastforce simp: db_stmt list_all_iff mem_update_rows dest!: find_SomeD)


end
