(* ===== verification/Readiness.thy ===== *)
theory Readiness
  imports Workflow_Spec Domain_Enums
begin

text \<open>
  The readiness evaluator and the resolution of bindings, \<open>src/nexusflow/domain/readiness.py\<close>.
\<close>

datatype readiness_reason =
    READY | WORKFLOW_NOT_RUNNING | TASK_NOT_PENDING | DEPENDENCIES_INCOMPLETE
  | DEPENDENCY_NOT_SUCCEEDED | OUTPUT_NOT_AVAILABLE | INPUT_RESOLUTION_CORRUPT

record dependency_state_snapshot =
  ds_task_definition_id :: task_definition_id
  ds_state :: task_state
  ds_has_output :: bool
  ds_output_value :: pyval

record task_readiness_snapshot =
  rs_workflow_id :: workflow_execution_id
  rs_workflow_state :: workflow_state
  rs_workflow_input :: pyval
  rs_task_id :: task_execution_id
  rs_task_definition_id :: task_definition_id
  rs_task_state :: task_state
  rs_task_revision :: int
  rs_task_definition :: task_definition
  rs_upstream_dependencies :: "(task_definition_id, dependency_state_snapshot) dict"

record readiness_decision =
  rd_ready :: bool
  rd_resolved_input :: "pyval option"
  rd_reason :: readiness_reason
  rd_diagnostic_message :: string

definition not_ready :: "readiness_reason \<Rightarrow> string \<Rightarrow> readiness_decision" where
  "not_ready r msg = \<lparr>rd_ready = False, rd_resolved_input = None, rd_reason = r,
                      rd_diagnostic_message = msg\<rparr>"

text \<open>The loop over the declared dependencies: the first one that is not met decides.\<close>

fun check_dependencies ::
  "(task_definition_id, dependency_state_snapshot) dict \<Rightarrow> task_definition_id list
    \<Rightarrow> readiness_decision option" where
  "check_dependencies upstream [] = None"
| "check_dependencies upstream (dep_id # deps) =
     (case map_of upstream dep_id of
        None \<Rightarrow> Some (not_ready DEPENDENCIES_INCOMPLETE
          (''Direct dependency '' @ tdid_value dep_id @ '' has no state recorded.''))
      | Some dep_state \<Rightarrow>
          if ds_state dep_state \<noteq> TS_SUCCEEDED then Some (not_ready DEPENDENCY_NOT_SUCCEEDED
            (''Dependency '' @ tdid_value dep_id @ '' is in state '' @ task_state_str (ds_state dep_state)
             @ '', not SUCCEEDED.''))
          else if \<not> ds_has_output dep_state then Some (not_ready OUTPUT_NOT_AVAILABLE
            (''Dependency '' @ tdid_value dep_id @ '' succeeded but authoritative output is missing.''))
          else check_dependencies upstream deps)"

text \<open>The loop over the input bindings, filling the dictionary of resolved values.\<close>

fun resolve_bindings ::
  "task_readiness_snapshot \<Rightarrow> (string \<times> input_binding) list \<Rightarrow> (pyval, pyval) dict
    \<Rightarrow> readiness_decision + (pyval, pyval) dict" where
  "resolve_bindings snap [] resolved = Inr resolved"
| "resolve_bindings snap ((param_name, binding) # bs) resolved =
     (case binding of
        LiteralBinding v \<Rightarrow> resolve_bindings snap bs (dict_set (PyStr param_name) v resolved)
      | WorkflowInputBinding \<Rightarrow>
          resolve_bindings snap bs (dict_set (PyStr param_name) (rs_workflow_input snap) resolved)
      | TaskOutputBinding upstream_task_id \<Rightarrow>
          (case map_of (rs_upstream_dependencies snap) upstream_task_id of
             None \<Rightarrow> Inl (not_ready INPUT_RESOLUTION_CORRUPT
               (''TaskOutput source '' @ tdid_value upstream_task_id @ '' output unreadable.''))
           | Some src_dep \<Rightarrow>
               if \<not> ds_has_output src_dep then Inl (not_ready INPUT_RESOLUTION_CORRUPT
                 (''TaskOutput source '' @ tdid_value upstream_task_id @ '' output unreadable.''))
               else resolve_bindings snap bs
                      (dict_set (PyStr param_name) (ds_output_value src_dep) resolved)))"

definition evaluate_task_readiness :: "task_readiness_snapshot \<Rightarrow> readiness_decision" where
  "evaluate_task_readiness snap =
     (if rs_workflow_state snap \<noteq> WF_RUNNING then not_ready WORKFLOW_NOT_RUNNING
        (''Workflow is in state '' @ workflow_state_str (rs_workflow_state snap) @ '', not RUNNING.'')
      else if rs_task_state snap \<noteq> TS_PENDING then not_ready TASK_NOT_PENDING
        (''Task is in state '' @ task_state_str (rs_task_state snap) @ '', not PENDING.'')
      else case check_dependencies (rs_upstream_dependencies snap)
                  (td_dependencies (rs_task_definition snap)) of
        Some d \<Rightarrow> d
      | None \<Rightarrow>
          (case resolve_bindings snap (td_input_bindings (rs_task_definition snap)) [] of
             Inl d \<Rightarrow> d
           | Inr resolved_map \<Rightarrow>
               \<lparr>rd_ready = True, rd_resolved_input = Some (PyProxy resolved_map), rd_reason = READY,
                rd_diagnostic_message =
                  ''All direct dependencies succeeded and input resolved successfully.''\<rparr>))"

text \<open>
  \<open>resolve_workflow_outputs\<close>: \<open>None\<close> without bindings, otherwise one value per named
  output; a missing source raises \<open>KeyError\<close>, another kind of binding \<open>TypeError\<close>.
\<close>

fun resolve_output_entries ::
  "(string \<times> workflow_output_binding) list \<Rightarrow> (task_definition_id, pyval) dict
    \<Rightarrow> (pyval, pyval) dict \<Rightarrow> py_exn + (pyval, pyval) dict" where
  "resolve_output_entries [] task_outputs result = Inr result"
| "resolve_output_entries ((name, binding) # bs) task_outputs result =
     (case binding of
        OutTask b \<Rightarrow>
          (case map_of task_outputs (source_task_id b) of
             None \<Rightarrow> Inl KeyError
           | Some v \<Rightarrow> resolve_output_entries bs task_outputs (dict_set (PyStr name) v result))
      | _ \<Rightarrow> Inl TypeError)"

definition resolve_workflow_outputs ::
  "(string, workflow_output_binding) dict \<Rightarrow> (task_definition_id, pyval) dict \<Rightarrow> py_exn + pyval" where
  "resolve_workflow_outputs output_bindings task_outputs =
     (if output_bindings = [] then Inr PyNone
      else bindE (resolve_output_entries output_bindings task_outputs []) (\<lambda>r. Inr (PyProxy r)))"

section \<open>When a task is ready\<close>

text \<open>A dependency is met when its row is there, \<open>SUCCEEDED\<close>, with its output.\<close>

definition dependency_met ::
  "(task_definition_id, dependency_state_snapshot) dict \<Rightarrow> task_definition_id \<Rightarrow> bool" where
  "dependency_met upstream d =
     (case map_of upstream d of None \<Rightarrow> False
      | Some s \<Rightarrow> ds_state s = TS_SUCCEEDED \<and> ds_has_output s)"

text \<open>The value a binding resolves to.\<close>

definition binding_value :: "task_readiness_snapshot \<Rightarrow> input_binding \<Rightarrow> pyval option" where
  "binding_value snap b =
     (case b of
        LiteralBinding v \<Rightarrow> Some v
      | WorkflowInputBinding \<Rightarrow> Some (rs_workflow_input snap)
      | TaskOutputBinding u \<Rightarrow>
          (case map_of (rs_upstream_dependencies snap) u of
             None \<Rightarrow> None | Some s \<Rightarrow> if ds_has_output s then Some (ds_output_value s) else None))"

lemma not_ready_simps [simp]:
  "rd_ready (not_ready r m) = False" "rd_resolved_input (not_ready r m) = None"
  "rd_reason (not_ready r m) = r"
  by (simp_all add: not_ready_def)

lemma check_dependencies_None_iff:
  "check_dependencies upstream deps = None \<longleftrightarrow> (\<forall>d \<in> set deps. dependency_met upstream d)"
  by (induction deps) (auto simp: dependency_met_def split: option.splits)

lemma check_dependencies_Some:
  "check_dependencies upstream deps = Some r \<Longrightarrow> \<not> rd_ready r \<and> rd_resolved_input r = None \<and>
     rd_reason r \<in> {DEPENDENCIES_INCOMPLETE, DEPENDENCY_NOT_SUCCEEDED, OUTPUT_NOT_AVAILABLE}"
  by (induction deps) (auto split: option.splits if_splits)

lemma resolve_bindings_Cons:
  "binding_value snap b = Some v \<Longrightarrow>
     resolve_bindings snap ((p, b) # bs) acc = resolve_bindings snap bs (dict_set (PyStr p) v acc)"
  "binding_value snap b = None \<Longrightarrow>
     \<exists>m. resolve_bindings snap ((p, b) # bs) acc = Inl (not_ready INPUT_RESOLUTION_CORRUPT m)"
  by (auto simp: binding_value_def split: input_binding.splits option.splits if_splits)

lemma resolve_bindings_Inl:
  "resolve_bindings snap bs acc = Inl r \<Longrightarrow> \<not> rd_ready r \<and> rd_reason r = INPUT_RESOLUTION_CORRUPT \<and>
     (\<exists>b \<in> snd ` set bs. binding_value snap b = None)"
proof (induction bs arbitrary: acc)
  case (Cons pb bs)
  obtain p b where pb: "pb = (p, b)" by (cases pb)
  show ?case
  proof (cases "binding_value snap b")
    case None
    from resolve_bindings_Cons(2) [OF this, of p bs acc] Cons.prems None show ?thesis by (auto simp: pb)
  next
    case (Some v)
    with Cons.prems have "resolve_bindings snap bs (dict_set (PyStr p) v acc) = Inl r"
      by (simp only: pb resolve_bindings_Cons(1))
    from Cons.IH [OF this] show ?thesis by auto
  qed
qed simp

lemma resolve_bindings_Inl_input: "resolve_bindings snap bs acc = Inl r \<Longrightarrow> rd_resolved_input r = None"
  by (induction snap bs acc rule: resolve_bindings.induct) (auto split: input_binding.splits option.splits if_splits)

lemma resolve_bindings_step:
  "resolve_bindings snap ((p, b) # bs) acc = Inr m \<longleftrightarrow>
     (\<exists>v. binding_value snap b = Some v \<and> resolve_bindings snap bs (dict_set (PyStr p) v acc) = Inr m)"
proof (cases "binding_value snap b")
  case None
  from resolve_bindings_Cons(2) [OF this, of p bs acc] None show ?thesis by auto
next
  case (Some v)
  then show ?thesis by (simp only: resolve_bindings_Cons(1) option.inject) blast
qed

lemma resolve_bindings_Inr:
  assumes "resolve_bindings snap bs acc = Inr m" and "dict_ok (map (\<lambda>(p, b). (PyStr p, b)) bs)"
    and "dict_ok acc"
  shows "dict_ok m" and "dom (map_of m) = dom (map_of acc) \<union> (\<lambda>(p, b). PyStr p) ` set bs"
    and "(p, b) \<in> set bs \<Longrightarrow> map_of m (PyStr p) = binding_value snap b \<and> binding_value snap b \<noteq> None"
    and "(\<And>b. (p, b) \<notin> set bs) \<Longrightarrow> map_of m (PyStr p) = map_of acc (PyStr p)"
  using assms
proof (induction bs arbitrary: acc)
  case (Cons pb bs)
  obtain p' b' where pb: "pb = (p', b')" by (cases pb)
  {
    case 1
    from 1(1) obtain v where "binding_value snap b' = Some v"
      "resolve_bindings snap bs (dict_set (PyStr p') v acc) = Inr m"
      unfolding pb resolve_bindings_step by blast
    with Cons.IH(1) 1(2,3) pb show ?case by simp
  next
    case 2
    from 2(1) obtain v where "binding_value snap b' = Some v"
      "resolve_bindings snap bs (dict_set (PyStr p') v acc) = Inr m"
      unfolding pb resolve_bindings_step by blast
    with Cons.IH(2) 2(2,3) pb show ?case by auto
  next
    case 3
    from 3(2) obtain v where v: "binding_value snap b' = Some v"
      and r: "resolve_bindings snap bs (dict_set (PyStr p') v acc) = Inr m"
      unfolding pb resolve_bindings_step by blast
    have ok: "dict_ok (map (\<lambda>(p, b). (PyStr p, b)) bs)" "dict_ok (dict_set (PyStr p') v acc)"
      using 3(3,4) pb by simp_all
    show ?case
    proof (cases "(p, b) \<in> set bs")
      case True
      with Cons.IH(3) r ok show ?thesis by blast
    next
      case False
      with 3(1) pb have eq: "p = p'" "b = b'" by auto
      have "(p, c) \<notin> set bs" for c using 3(3) pb eq by force
      with Cons.IH(4) r ok eq v show ?thesis by simp
    qed
  next
    case 4
    from 4(2) obtain v where v: "binding_value snap b' = Some v"
      and r: "resolve_bindings snap bs (dict_set (PyStr p') v acc) = Inr m"
      unfolding pb resolve_bindings_step by blast
    have ok: "dict_ok (map (\<lambda>(p, b). (PyStr p, b)) bs)" "dict_ok (dict_set (PyStr p') v acc)"
      using 4(3,4) pb by simp_all
    have "p \<noteq> p'" and "(p, c) \<notin> set bs" for c using 4(1) pb by auto
    with Cons.IH(4) r ok show ?case by simp
  }
qed auto

lemma resolve_bindings_total:
  "(\<And>p b. (p, b) \<in> set bs \<Longrightarrow> binding_value snap b \<noteq> None) \<Longrightarrow> \<exists>m. resolve_bindings snap bs acc = Inr m"
proof (induction bs arbitrary: acc)
  case (Cons pb bs)
  obtain p b where pb: "pb = (p, b)" by (cases pb)
  have "binding_value snap b \<noteq> None" using Cons.prems [of p b] pb by simp
  then obtain v where v: "binding_value snap b = Some v" by blast
  have "\<exists>m. resolve_bindings snap bs (dict_set (PyStr p) v acc) = Inr m"
    by (rule Cons.IH) (use Cons.prems in auto)
  with v show ?case unfolding pb resolve_bindings_step by blast
qed simp

lemma readiness_ready_iff:
  "rd_ready (evaluate_task_readiness snap) \<longleftrightarrow>
     rs_workflow_state snap = WF_RUNNING \<and> rs_task_state snap = TS_PENDING \<and>
     (\<forall>d \<in> set (td_dependencies (rs_task_definition snap)).
        dependency_met (rs_upstream_dependencies snap) d) \<and>
     (\<forall>(p, b) \<in> set (td_input_bindings (rs_task_definition snap)). binding_value snap b \<noteq> None)"
proof (cases "check_dependencies (rs_upstream_dependencies snap) (td_dependencies (rs_task_definition snap))")
  case None
  then have met: "\<forall>d \<in> set (td_dependencies (rs_task_definition snap)).
      dependency_met (rs_upstream_dependencies snap) d"
    by (simp add: check_dependencies_None_iff)
  show ?thesis
  proof (cases "resolve_bindings snap (td_input_bindings (rs_task_definition snap)) []")
    case (Inl r)
    from resolve_bindings_Inl [OF Inl] obtain p b
      where r: "\<not> rd_ready r" and "(p, b) \<in> set (td_input_bindings (rs_task_definition snap))"
        and "binding_value snap b = None" by auto
    then have "\<not> (\<forall>(p, b) \<in> set (td_input_bindings (rs_task_definition snap)). binding_value snap b \<noteq> None)"
      by fastforce
    then show ?thesis using None Inl r by (simp add: evaluate_task_readiness_def)
  next
    case (Inr m)
    have "binding_value snap b \<noteq> None" if "(p, b) \<in> set bs" "resolve_bindings snap bs acc = Inr m" for p b bs acc
      using that by (induction bs arbitrary: acc) (auto simp: resolve_bindings_step simp del: resolve_bindings.simps(2))
    then have "\<forall>(p, b) \<in> set (td_input_bindings (rs_task_definition snap)). binding_value snap b \<noteq> None"
      using Inr by blast
    with None Inr met show ?thesis by (simp add: evaluate_task_readiness_def)
  qed
next
  case (Some r)
  then have "\<not> (\<forall>d \<in> set (td_dependencies (rs_task_definition snap)).
      dependency_met (rs_upstream_dependencies snap) d)"
    by (simp flip: check_dependencies_None_iff)
  with check_dependencies_Some [OF Some] Some
  show ?thesis by (simp add: evaluate_task_readiness_def)
qed

lemma dict_ok_PyStr_keys: "dict_ok (map (\<lambda>(p, b). (PyStr p, b)) bs) = dict_ok bs"
proof -
  have "map fst (map (\<lambda>(p, b). (PyStr p, b)) bs) = map PyStr (map fst bs)"
    by (simp add: comp_def split_def)
  then show ?thesis by (simp only: distinct_map) (auto simp: inj_on_def)
qed

lemma readiness_resolved:
  assumes "rd_ready (evaluate_task_readiness snap)"
    and "dict_ok (td_input_bindings (rs_task_definition snap))"
  shows "\<exists>m. rd_resolved_input (evaluate_task_readiness snap) = Some (PyProxy m) \<and> dict_ok m \<and>
     dom (map_of m) = PyStr ` fst ` set (td_input_bindings (rs_task_definition snap)) \<and>
     (\<forall>(p, b) \<in> set (td_input_bindings (rs_task_definition snap)). map_of m (PyStr p) = binding_value snap b)"
proof -
  let ?bs = "td_input_bindings (rs_task_definition snap)"
  from assms(1) have run: "rs_workflow_state snap = WF_RUNNING" "rs_task_state snap = TS_PENDING"
    and none: "check_dependencies (rs_upstream_dependencies snap) (td_dependencies (rs_task_definition snap)) = None"
    and bs: "\<forall>(p, b) \<in> set ?bs. binding_value snap b \<noteq> None"
    by (auto simp: readiness_ready_iff check_dependencies_None_iff)
  from bs obtain m where m: "resolve_bindings snap ?bs [] = Inr m"
    using resolve_bindings_total [of ?bs snap "[]"] by blast
  have ok: "dict_ok (map (\<lambda>(p, b). (PyStr p, b)) ?bs)" by (simp only: dict_ok_PyStr_keys assms(2))
  have "(\<lambda>(p, b). PyStr p) ` set ?bs = PyStr ` fst ` set ?bs" by force
  with resolve_bindings_Inr [OF m ok] m run none show ?thesis
    by (intro exI [of _ m]) (auto simp: evaluate_task_readiness_def)
qed

end
