(* ===== verification/Domain_Properties.thy ===== *)
theory Domain_Properties
  imports Readiness Transaction_Properties
begin

text \<open>
  Properties of the pure domain logic: readiness (\<open>domain/readiness.py\<close>), the failure policy
  (\<open>domain/failure.py\<close>), and the entity transitions (\<open>domain/execution.py\<close>), which the durable
  transactions refine.
\<close>

section \<open>Readiness\<close>

definition sample_snapshot :: task_readiness_snapshot where
  "sample_snapshot = \<lparr>rs_workflow_id = 2, rs_workflow_state = WF_RUNNING, rs_workflow_input = PyInt 7, rs_task_id = 12,
     rs_task_definition_id = TaskDefinitionId ''b'', rs_task_state = TS_PENDING, rs_task_revision = 1,
     rs_task_definition = sample_task_b,
     rs_upstream_dependencies = [(TaskDefinitionId ''a'', \<lparr>ds_task_definition_id = TaskDefinitionId ''a'',
       ds_state = TS_SUCCEEDED, ds_has_output = True, ds_output_value = PyInt 5\<rparr>)]\<rparr>"

text \<open>
  C38. A task is ready exactly when its workflow runs, it is pending, every declared dependency has
  succeeded with its output, and every input binding has a value.
\<close>

theorem task_ready_iff:
  "rd_ready (evaluate_task_readiness snap) \<longleftrightarrow>
     rs_workflow_state snap = WF_RUNNING \<and> rs_task_state snap = TS_PENDING \<and>
     list_all (dependency_met (rs_upstream_dependencies snap)) (td_dependencies (rs_task_definition snap)) \<and>
     list_all (\<lambda>(p, b). binding_value snap b \<noteq> None) (td_input_bindings (rs_task_definition snap))"
  unfolding readiness_ready_iff list_all_iff by blast

text \<open>
  The input of a ready task is exact: one entry per input binding and no other, each the
  literal, the workflow input or the output of the named upstream task.
\<close>

theorem ready_task_input_exact:
  assumes "rd_ready (evaluate_task_readiness snap)" and "dict_ok (td_input_bindings (rs_task_definition snap))"
  shows "\<exists>m. rd_resolved_input (evaluate_task_readiness snap) = Some (PyProxy m) \<and> dict_ok m \<and>
     set (dict_keys m) = PyStr ` set (dict_keys (td_input_bindings (rs_task_definition snap))) \<and>
     list_all (\<lambda>(p, b). map_of m (PyStr p) = binding_value snap b) (td_input_bindings (rs_task_definition snap))"
proof -
  from readiness_resolved [OF assms] obtain m where m: "rd_resolved_input (evaluate_task_readiness snap) = Some (PyProxy m)"
    "dict_ok m" "dom (map_of m) = PyStr ` fst ` set (td_input_bindings (rs_task_definition snap))"
    "\<forall>(p, b) \<in> set (td_input_bindings (rs_task_definition snap)). map_of m (PyStr p) = binding_value snap b" by blast
  then show ?thesis by (intro exI [of _ m]) (simp add: list_all_iff dom_map_of_conv_image_fst)
qed

theorem ready_task_input_exact_witness:
  "\<exists>m. rd_resolved_input (evaluate_task_readiness sample_snapshot) = Some (PyProxy m) \<and> map_of m (PyStr ''x'') = Some (PyInt 5)"
proof -
  have "rd_ready (evaluate_task_readiness sample_snapshot)" by code_simp
  moreover have "dict_ok (td_input_bindings (rs_task_definition sample_snapshot))" by code_simp
  ultimately obtain m where "rd_resolved_input (evaluate_task_readiness sample_snapshot) = Some (PyProxy m)"
    "list_all (\<lambda>(p, b). map_of m (PyStr p) = binding_value sample_snapshot b) (td_input_bindings (rs_task_definition sample_snapshot))"
    using ready_task_input_exact by blast
  then show ?thesis
    by (auto simp: sample_snapshot_def sample_task_b_def binding_value_def)
qed

section \<open>The failure policy\<close>

text \<open>
  A worker's failure is retried exactly when the workflow runs, the budget lasts and the
  classification is a transient, availability or deadline one (or a domain failure whose code
  asks for a retry); a code that mentions a timeout is always classified as transient, never as
  time based, and the message kept is at most 4096 characters.
\<close>

theorem failure_policy_exact:
  "(evaluate_retry_eligibility n m (snd (classify_worker_failure rep)) st \<longleftrightarrow> st = ''RUNNING'' \<and> n \<le> m \<and>
     (fc_category (fst (classify_worker_failure rep)) \<in> {SYSTEM_TRANSIENT, WORKER_AVAILABILITY, TIME_BASED} \<or>
      fc_category (fst (classify_worker_failure rep)) = DOMAIN_EXECUTION \<and>
      py_contains ''RETRY'' (py_upper (fc_code (fst (classify_worker_failure rep)))))) \<and>
   (fc_category (fst (classify_worker_failure rep)) = TIME_BASED \<and>
      py_contains ''TIMEOUT'' (py_upper (fc_code (fst (classify_worker_failure rep)))) \<longleftrightarrow> False) \<and>
   length (fc_message (fst (classify_worker_failure rep))) \<le> 4096"
proof -
  obtain u where u: "fc_category (fst (classify_worker_failure rep)) = fst (classify_code u)"
    "snd (classify_worker_failure rep) = snd (classify_code u)"
    "py_upper (fc_code (fst (classify_worker_failure rep))) = u"
    by (auto simp: classify_worker_failure_def Let_def split_def)
  have len: "length (fc_message (fst (classify_worker_failure rep))) \<le> 4096"
    by (simp add: classify_worker_failure_def Let_def split_def)
  show ?thesis
    unfolding u eligibility_iff classify_retryable_iff using classify_time_based [of u] len by auto
qed

section \<open>The durable transactions refine the entity transitions\<close>

definition failure_cause_of :: "failure_columns \<Rightarrow> failure_cause option" where
  "failure_cause_of f = (case (failure_category_col f, failure_code_col f, failure_message_col f) of
     (Some c, Some k, Some m) \<Rightarrow>
       (case mk_FailureCategory c of
          Inr cat \<Rightarrow> Some \<lparr>fc_category = cat, fc_code = k, fc_message = m, fc_details = failure_details_col f\<rparr>
        | Inl _ \<Rightarrow> None)
   | _ \<Rightarrow> None)"

definition task_entity :: "task_row \<Rightarrow> task_execution" where
  "task_entity r = \<lparr>te_id = tx_id r, te_workflow_execution_id = tx_workflow_id r,
     te_task_definition_id = TaskDefinitionId (tx_task_definition_id r), te_state = tx_state r,
     te_revision = tx_revision r, te_stable_input = tx_stable_input r,
     te_output = (if tx_has_output r then OutputCommitted (column_value (tx_output r)) else OutputAbsent),
     te_max_attempts = tx_max_attempts r, te_next_attempt_ordinal = tx_next_attempt_ordinal r,
     te_retry_ready_at_utc = tx_retry_ready_at_utc r, te_terminal_failure_cause = failure_cause_of (tx_failure r)\<rparr>"

definition attempt_entity :: "attempt_row \<Rightarrow> execution_attempt" where
  "attempt_entity r = \<lparr>ea_id = ax_id r, ea_task_execution_id = ax_task_id r, ea_attempt_ordinal = ax_ordinal r,
     ea_worker_session_id = ax_worker_session_id r, ea_state = ax_state r, ea_revision = ax_revision r,
     ea_start_deadline_utc = ax_start_deadline_utc r, ea_execution_timeout_utc = ax_execution_timeout_utc r,
     ea_cancellation_deadline_utc = ax_cancellation_deadline_utc r,
     ea_terminal_failure_cause = failure_cause_of (ax_failure r)\<rparr>"

lemma updated_rows:
  "update_tasks P f s = Inr (s1, n) \<Longrightarrow> n \<noteq> 0 \<Longrightarrow> \<exists>r \<in> set (db_tasks s). P r \<and> f r \<in> set (db_tasks s1) \<and> task_row_ok (f r)"
  using count_rows_pos [of P "db_tasks s"] by (fastforce simp: db_stmt list_all_iff mem_update_rows)

lemma updated_attempts:
  "update_attempts P f s = Inr (s1, n) \<Longrightarrow> r \<in> set (db_attempts s) \<Longrightarrow> P r \<Longrightarrow> f r \<in> set (db_attempts s1)"
  by (auto simp: db_stmt intro: mem_update_rowsI)

lemma readiness_refines:
  assumes "commit_task_readiness hid t rv w v now s = Inr (s', committed)"
  shows "\<exists>r \<in> set (db_tasks s). \<exists>r' \<in> set (db_tasks s'). \<exists>p e. tx_id r = t \<and> tx_revision r = rv \<and> thaw_json v = Inr p \<and>
     mark_initially_runnable (task_entity r) p = TransitionApplied e TASK_INITIAL_RUNNABLE \<and>
     task_entity r' = e\<lparr>te_revision := rv + 1, te_retry_ready_at_utc := tx_retry_ready_at_utc r\<rparr>"
proof -
  let ?P = "\<lambda>r. tx_id r = t \<and> tx_workflow_id r = w \<and> tx_state r = TS_PENDING \<and> tx_revision r = rv"
  let ?f = "\<lambda>p r. r\<lparr>tx_state := TS_RUNNABLE, tx_has_input := True, tx_stable_input := jsonb p,
               tx_revision := tx_revision r + 1, tx_updated_at_utc := now\<rparr>"
  from assms obtain p s1 n h where p: "thaw_json v = Inr p" and u: "update_tasks ?P (?f p) s = Inr (s1, n)" "n \<noteq> 0"
    and h: "insert_history h s1 = Inr s'"
    unfolding commit_task_readiness_def Let_def
    by (elim run_elims; simp add: outcome_defs)
  from updated_rows [OF u] obtain r where r: "r \<in> set (db_tasks s)" "?P r" "?f p r \<in> set (db_tasks s1)"
    "task_row_ok (?f p r)" by blast
  moreover have "jsonb p = Some p" using r(4) by (auto simp: task_row_ok_def presence_ok_def jsonb_def)
  moreover have "db_tasks s' = db_tasks s1" using h by (auto simp: db_stmt)
  ultimately show ?thesis using p
    by (intro bexI [OF _ r(1)] bexI [of _ "?f p r"]) (auto simp: task_entity_def mark_initially_runnable_def)
qed

lemma claim_refines:
  assumes "commit_attempt_ownership hid t rv w ws a dl now s = Inr (s', committed, ord)"
  shows "\<exists>r \<in> set (db_tasks s). \<exists>r' \<in> set (db_tasks s'). \<exists>e. tx_id r = t \<and> tx_revision r = rv \<and>
     mark_running (task_entity r) = TransitionApplied e TASK_RUNNING_STARTED \<and>
     task_entity r' = e\<lparr>te_revision := rv + 1, te_next_attempt_ordinal := tx_next_attempt_ordinal r + 1\<rparr>"
proof -
  obtain r where f: "find (claimable t w rv) (db_tasks s) = Some r"
    and s': "db_tasks s' = update_rows (claimable t w rv) (claimed_row now) (db_tasks s)"
    by (rule claim_committed [OF assms]) simp_all
  from find_SomeD [OF f] have r: "r \<in> set (db_tasks s)" "claimable t w rv r" by auto
  then have "claimed_row now r \<in> set (db_tasks s')" unfolding s' by (rule mem_update_rowsI)
  with r show ?thesis
    by (intro bexI [OF _ r(1)] bexI [of _ "claimed_row now r"]) (auto simp: task_entity_def mark_running_def)
qed

lemma start_refines:
  assumes "commit_worker_execution_start hid u a ws rv now s = Inr (s', committed)"
  shows "\<exists>r \<in> set (db_attempts s). \<exists>r' \<in> set (db_attempts s'). \<exists>e. ax_id r = a \<and> ax_revision r = rv \<and>
     observe_attempt_start (attempt_entity r) now = TransitionApplied e ATTEMPT_START_OBSERVED \<and>
     attempt_entity r' = e\<lparr>ea_revision := rv + 1\<rparr>"
proof -
  let ?P = "\<lambda>r. ax_id r = a \<and> ax_worker_session_id r = ws \<and> ax_state r = AS_CLAIMED \<and> ax_start_deadline_utc r \<ge> now \<and>
      ax_revision r = rv"
  let ?f = "\<lambda>r. r\<lparr>ax_state := AS_RUNNING, ax_revision := ax_revision r + 1, ax_updated_at_utc := now\<rparr>"
  from assms obtain r s1 n h where f: "find ?P (db_attempts s) = Some r" and u: "update_attempts ?P ?f s = Inr (s1, n)"
    and h: "insert_history h s1 = Inr s'"
    unfolding commit_worker_execution_start_def Let_def
    by (elim run_elims; simp add: outcome_defs)
  from find_SomeD [OF f] have r: "r \<in> set (db_attempts s)" "?P r" by auto
  have "?f r \<in> set (db_attempts s')" using updated_attempts [OF u r] h by (simp add: db_stmt)
  with r show ?thesis
    by (intro bexI [OF _ r(1)] bexI [of _ "?f r"]) (auto simp: attempt_entity_def observe_attempt_start_def)
qed

lemma success_refines:
  assumes "commit_worker_task_success hid a ws arv t trv v now s = Inr (s', committed)"
  shows "\<exists>ar \<in> set (db_attempts s). \<exists>ar' \<in> set (db_attempts s'). \<exists>r \<in> set (db_tasks s). \<exists>r' \<in> set (db_tasks s'). \<exists>ae e p.
     ax_id ar = a \<and> tx_id r = t \<and> thaw_json v = Inr p \<and>
     complete_attempt_success (attempt_entity ar) = TransitionApplied ae ATTEMPT_SUCCEEDED \<and>
     attempt_entity ar' = ae\<lparr>ea_revision := arv + 1\<rparr> \<and>
     mark_succeeded (task_entity r) p = TransitionApplied e TASK_SUCCEEDED \<and> task_entity r' = e\<lparr>te_revision := trv + 1\<rparr>"
proof -
  let ?af = "\<lambda>ar. ar\<lparr>ax_state := AS_SUCCEEDED, ax_revision := ax_revision ar + 1, ax_updated_at_utc := now\<rparr>"
  let ?tf = "\<lambda>p tr. tr\<lparr>tx_state := TS_SUCCEEDED, tx_has_output := True, tx_output := jsonb p,
           tx_revision := tx_revision tr + 1, tx_updated_at_utc := now\<rparr>"
  obtain p ar tr where p: "thaw_json v = Inr p" and ar: "success_attempt a ws t arv ar" "ar \<in> set (db_attempts s)"
    "?af ar \<in> set (db_attempts s')" and tr: "running_task t trv tr" "tr \<in> set (db_tasks s)" "?tf p tr \<in> set (db_tasks s')"
    by (rule success_committed [OF assms])
  have "column_value (jsonb p) = p" by (auto simp: column_value_def jsonb_def)
  with p ar tr show ?thesis
    by (intro bexI [OF _ ar(2)] bexI [OF _ ar(3)] bexI [OF _ tr(2)] bexI [OF _ tr(3)])
      (auto simp: attempt_entity_def task_entity_def complete_attempt_success_def mark_succeeded_def)
qed

text \<open>
  C29. Each durable transition implements the pure one: when readiness, a claim, a start or a
  success commits, the entity transition applies to the row that was updated, and the row then
  stands for its result, with the revision (and, on a claim, the attempt counter) moved by one.
\<close>

theorem durable_transitions_refine_entities:
  assumes "commit_task_readiness h1 t rv w v now s1 = Inr (s1', committed)"
    and "commit_attempt_ownership h2 t' rv' w' ws a dl now' s2 = Inr (s2', committed, ord)"
    and "commit_worker_execution_start h3 u a0 ws0 rv0 now'' s3 = Inr (s3', committed)"
    and "commit_worker_task_success h4 a' ws' arv t'' trv out now''' s4 = Inr (s4', committed)"
  shows "(\<exists>r \<in> set (db_tasks s1). \<exists>r' \<in> set (db_tasks s1'). \<exists>p e. tx_id r = t \<and> tx_revision r = rv \<and> thaw_json v = Inr p \<and>
       mark_initially_runnable (task_entity r) p = TransitionApplied e TASK_INITIAL_RUNNABLE \<and>
       task_entity r' = e\<lparr>te_revision := rv + 1, te_retry_ready_at_utc := tx_retry_ready_at_utc r\<rparr>) \<and>
     (\<exists>r \<in> set (db_tasks s2). \<exists>r' \<in> set (db_tasks s2'). \<exists>e. tx_id r = t' \<and> tx_revision r = rv' \<and>
       mark_running (task_entity r) = TransitionApplied e TASK_RUNNING_STARTED \<and>
       task_entity r' = e\<lparr>te_revision := rv' + 1, te_next_attempt_ordinal := tx_next_attempt_ordinal r + 1\<rparr>) \<and>
     (\<exists>r \<in> set (db_attempts s3). \<exists>r' \<in> set (db_attempts s3'). \<exists>e. ax_id r = a0 \<and> ax_revision r = rv0 \<and>
       observe_attempt_start (attempt_entity r) now'' = TransitionApplied e ATTEMPT_START_OBSERVED \<and>
       attempt_entity r' = e\<lparr>ea_revision := rv0 + 1\<rparr>) \<and>
     (\<exists>ar \<in> set (db_attempts s4). \<exists>ar' \<in> set (db_attempts s4'). \<exists>r \<in> set (db_tasks s4). \<exists>r' \<in> set (db_tasks s4'). \<exists>ae e p.
       ax_id ar = a' \<and> tx_id r = t'' \<and> thaw_json out = Inr p \<and>
       complete_attempt_success (attempt_entity ar) = TransitionApplied ae ATTEMPT_SUCCEEDED \<and>
       attempt_entity ar' = ae\<lparr>ea_revision := arv + 1\<rparr> \<and>
       mark_succeeded (task_entity r) p = TransitionApplied e TASK_SUCCEEDED \<and> task_entity r' = e\<lparr>te_revision := trv + 1\<rparr>)"
  by (intro conjI readiness_refines [OF assms(1)] claim_refines [OF assms(2)] start_refines [OF assms(3)]
      success_refines [OF assms(4)])

theorem durable_transitions_refine_entities_witness:
  "\<exists>r \<in> set (db_tasks db_ready). \<exists>r' \<in> set (db_tasks db_claimed). \<exists>e. tx_id r = 11 \<and>
     mark_running (task_entity r) = TransitionApplied e TASK_RUNNING_STARTED \<and> te_state (task_entity r') = te_state e"
  using durable_transitions_refine_entities [OF run_ready run_claimed run_started run_a_done] by force

end
