(* ===== verification/Settlement.thy ===== *)
theory Settlement
  imports Transaction_Properties
begin

text \<open>
  The two halves of a settlement. The transactions that settle an attempt update the attempt, then
  its task, and return a conflict when the second update matches nothing; the first is then kept.
  This theory shows when that cannot happen (both revisions were read together) and what it does
  when it happens (the task is stranded for good).
\<close>

section \<open>An active attempt pins its task\<close>

lemma task_evolves_running:
  "task_rows.evolves r r' \<Longrightarrow> tx_next_attempt_ordinal r \<le> tx_next_attempt_ordinal r' \<and>
     (r' = r \<or> tx_state r' \<noteq> TS_RUNNING \<or> tx_next_attempt_ordinal r < tx_next_attempt_ordinal r')"
  unfolding task_rows.evolves_def
proof (induction rule: rtranclp_induct)
  case (step r' r'')
  then show ?case by (auto simp: task_rows.row_step_def task_kept_def split: if_splits)
qed simp

lemma active_attempt_task:
  assumes "lifecycle_ok s" and "a \<in> set (db_attempts s)" and "as_active (ax_state a)"
    and "t \<in> set (db_tasks s)" and "tx_id t = ax_task_id a"
  shows "tx_state t = TS_RUNNING \<and> tx_next_attempt_ordinal t = ax_ordinal a + 1"
proof -
  from assms(1-3) obtain t' where t': "t' \<in> set (db_tasks s)" "tx_id t' = ax_task_id a" "tx_state t' = TS_RUNNING"
    "tx_next_attempt_ordinal t' = ax_ordinal a + 1" by (auto simp: lifecycle_ok_def attempts_inv_def)
  have "t' = t" by (rule db_ok_keys(2) [OF lifecycle_db_ok [OF assms(1)]]) (use assms t' in auto)
  with t' show ?thesis by simp
qed

text \<open>While an attempt stays active at the revision it was read with, its task row does not move.\<close>

lemma active_attempt_pins_task:
  assumes "reachable s0" and "db_steps s0 s" and "ar \<in> set (db_attempts s0)" and "tr \<in> set (db_tasks s0)"
    and "tx_id tr = ax_task_id ar" and "b \<in> set (db_attempts s)" and "ax_id b = ax_id ar"
    and "ax_revision b = ax_revision ar" and "as_active (ax_state b)"
  shows "tr \<in> set (db_tasks s) \<and> tx_state tr = TS_RUNNING"
proof -
  note inv0 = reachable_lifecycle [OF assms(1)]
  note inv = reachable_lifecycle [OF reachable_steps [OF assms(1,2)]]
  have "attempt_rows.evolves ar b" by (rule later_attempt [OF assms(1,2,3,6,7)])
  from attempt_rows.evolves_revision [OF this] assms(8) have core: "attempt_core ar = attempt_core b" by simp
  note same = attempt_core_eqD [OF core]
  have "tx_state tr = TS_RUNNING \<and> tx_next_attempt_ordinal tr = ax_ordinal ar + 1"
    by (rule active_attempt_task [OF inv0 assms(3) _ assms(4,5)]) (use assms(9) same in simp)
  moreover obtain t' where t': "t' \<in> set (db_tasks s)" "tx_id t' = tx_id tr" "task_rows.evolves tr t'"
    using task_survives [OF assms(1,2,4)] by blast
  moreover have "tx_state t' = TS_RUNNING \<and> tx_next_attempt_ordinal t' = ax_ordinal b + 1"
    by (rule active_attempt_task [OF inv assms(6,9) t'(1)]) (use t' assms(5) same in simp)
  ultimately show ?thesis using task_evolves_running [OF t'(3)] same by auto
qed

section \<open>All or nothing\<close>

definition all_or_nothing :: "db \<Rightarrow> py_exn + db \<times> 'a \<Rightarrow> ('a \<Rightarrow> commit_outcome) \<Rightarrow> bool" where
  "all_or_nothing s m outcome \<longleftrightarrow> post m (\<lambda>(s', x). co_status (outcome x) = COMMITTED \<or> s' = s)"

text \<open>
  Settling an attempt first: when nothing matched the store is unchanged; when it matched, the
  task read with the attempt is still there, running.
\<close>

lemma settle_first:
  assumes "reachable s0" and "db_steps s0 s" and "ar \<in> set (db_attempts s0)" and "tr \<in> set (db_tasks s0)"
    and "tx_id tr = ax_task_id ar"
    and guard: "\<And>r. P r \<Longrightarrow> ax_id r = ax_id ar \<and> ax_revision r = ax_revision ar \<and> as_active (ax_state r)"
    and cont: "\<And>s1 n. \<lbrakk>n = 0 \<Longrightarrow> s1 = s; db_tasks s1 = db_tasks s; db_workflows s1 = db_workflows s;
        0 < n \<Longrightarrow> tr \<in> set (db_tasks s1) \<and> tx_state tr = TS_RUNNING\<rbrakk> \<Longrightarrow> post (g (s1, n)) Q"
  shows "post (bindE (update_attempts P f s) g) Q"
proof (rule post_step)
  fix x assume "update_attempts P f s = Inr x"
  moreover obtain s1 n where x: "x = (s1, n)" by (cases x)
  ultimately have u: "s1 = s\<lparr>db_attempts := update_rows P f (db_attempts s)\<rparr>" "n = count_rows P (db_attempts s)"
    by (simp_all add: db_stmt)
  show "post (g x) Q"
    unfolding x
  proof (rule cont)
    show "s1 = s" if "n = 0" using u update_rows_none [of P "db_attempts s" f] that by simp
    show "tr \<in> set (db_tasks s1) \<and> tx_state tr = TS_RUNNING" if "0 < n"
    proof -
      from that u obtain b where b: "b \<in> set (db_attempts s)" "P b" by (auto simp: count_rows_pos)
      show ?thesis
        using active_attempt_pins_task [OF assms(1-5) b(1)] guard [OF b(2)] by (simp add: u)
    qed
  qed (simp_all add: u)
qed

lemma find_running:
  "tr \<in> set rows \<Longrightarrow> P tr \<Longrightarrow> \<exists>x. find P rows = Some x"
  by (cases "find P rows") (auto simp: find_None_iff)

lemma post_committed: "post (bindE m (\<lambda>s3. Inr (s3, x))) (\<lambda>(s', y). y = x)"
  by (simp add: wp)

lemma aon_ret: "co_status (outcome x) = COMMITTED \<or> s' = s \<Longrightarrow>
    post (Inr (s', x)) (\<lambda>(s', x). co_status (outcome x) = COMMITTED \<or> s' = s)"
  by (simp add: post_Inr)

lemma success_all_or_nothing:
  assumes "reachable s0" and "db_steps s0 s" and "ar \<in> set (db_attempts s0)" and "tr \<in> set (db_tasks s0)"
    and "tx_id tr = ax_task_id ar"
  shows "all_or_nothing s (commit_worker_task_success hid (ax_id ar) ws (ax_revision ar) (tx_id tr) (tx_revision tr) v now s) (\<lambda>out. out)"
  unfolding all_or_nothing_def commit_worker_task_success_def Let_def
proof (rule settle_first [OF assms], simp, goal_cases)
  case (1 s1 n)
  have "find (\<lambda>r. tx_id r = tx_id tr \<and> tx_state r = TS_RUNNING \<and> tx_revision r = tx_revision tr) (db_tasks s1) \<noteq> None"
    if "n \<noteq> 0" using find_running [of tr "db_tasks s1" "running_task (tx_id tr) (tx_revision tr)"] 1(4) that by auto
  with 1(1) show ?case
    unfolding prod.case
    by (intro post_ifI post_optionI post_step2 post_step [of "thaw_json _"] post_step [of "insert_history _ _"] aon_ret) simp_all
qed

lemma definitive_failure_all_or_nothing:
  assumes "reachable s0" and "db_steps s0 s" and "ar \<in> set (db_attempts s0)" and "tr \<in> set (db_tasks s0)"
    and "tx_id tr = ax_task_id ar"
  shows "all_or_nothing s (commit_worker_definitive_failure hid (ax_id ar) ws (ax_revision ar) (tx_id tr) (tx_revision tr) cause now s) fst"
  unfolding all_or_nothing_def commit_worker_definitive_failure_def fail_owned_attempt_def bindE_assoc Let_def
proof (rule post_step, rule settle_first [OF assms], simp, goal_cases)
  case (1 d s1 n)
  have "find (\<lambda>r. tx_id r = tx_id tr \<and> tx_state r = TS_RUNNING \<and> tx_revision r = tx_revision tr) (db_tasks s1) \<noteq> None"
    if "n \<noteq> 0" using find_running [of tr "db_tasks s1" "running_task (tx_id tr) (tx_revision tr)"] 1(5) that by auto
  with 1(2) show ?case
    unfolding prod.case
    by (intro post_ifI post_optionI post_step2 post_step [of "insert_history _ _"] aon_ret) simp_all
qed

text \<open>The transactions that look the task up first find the row that was read.\<close>

lemma get_task_pinned:
  assumes "reachable s0" and "db_steps s0 s" and "tr \<in> set (db_tasks s)"
  shows "get_task s (tx_id tr) = Some tr"
  using get_task_mem [OF lifecycle_db_ok [OF reachable_lifecycle [OF reachable_steps [OF assms(1,2)]]] assms(3)] .

lemma cancel_all_or_nothing:
  assumes "reachable s0" and "db_steps s0 s" and "ar \<in> set (db_attempts s0)" and "tr \<in> set (db_tasks s0)"
    and "tx_id tr = ax_task_id ar"
  shows "all_or_nothing s (cancel_active_attempt extra m1 m2 cat payload hid (ax_id ar) (ax_revision ar) (tx_id tr)
     (tx_revision tr) now s) fst"
  unfolding all_or_nothing_def cancel_active_attempt_def Let_def
proof (intro post_optionI post_ifI aon_ret, simp, simp, rule settle_first [OF assms], simp, goal_cases)
  case (1 row s1 n)
  have pos: "0 < m" if u: "update_tasks (\<lambda>r. tx_id r = tx_id tr \<and> tx_workflow_id r = tx_workflow_id row \<and>
        tx_state r = TS_RUNNING \<and> tx_revision r = tx_revision tr) f s1 = Inr (s2, m)" and "n \<noteq> 0" for f s2 m
  proof -
    have "tr \<in> set (db_tasks s)" using 1(4,6) that(2) by simp
    with 1(1) get_task_pinned [OF assms(1,2)] have "row = tr" by simp
    with u 1(6) that(2) show ?thesis by (auto simp: db_stmt count_rows_pos)
  qed
  with 1(3) show ?case
    unfolding prod.case
    by (intro post_ifI post_step2 post_step [of "insert_history _ _"] aon_ret) auto
qed

lemma internal_failure_all_or_nothing:
  assumes "reachable s0" and "db_steps s0 s" and "ar \<in> set (db_attempts s0)" and "tr \<in> set (db_tasks s0)"
    and "tx_id tr = ax_task_id ar" and "internal_cause cause"
  shows "all_or_nothing s (commit_internal_attempt_failure hid (ax_id ar) (ax_revision ar) (tx_id tr) (tx_revision tr)
     cause retryable ready lost now s) fst"
  unfolding all_or_nothing_def commit_internal_attempt_failure_def Let_def
proof (intro post_optionI aon_ret post_step [of "failure_details_json _"], simp, rule settle_first [OF assms(1-5)],
    blast dest: internal_filter_active [OF assms(6)], goal_cases)
  case (1 row d s1 n)
  have pos: "ns \<noteq> None"
    if u: "settle_task_retry_or_fail rt ready (tx_id tr) (tx_workflow_id row) (tx_revision tr) cause now s1 = Inr (s2, ns)"
      and "n \<noteq> 0" for rt s2 ns
  proof -
    have tr: "tr \<in> set (db_tasks s1)" "tx_state tr = TS_RUNNING" using 1(6) that(2) by auto
    then have "tr \<in> set (db_tasks s)" using 1(4) by simp
    with 1(1) get_task_pinned [OF assms(1,2)] have row: "row = tr" by simp
    show ?thesis
      using u unfolding settle_task_retry_or_fail_def fail_task_def row
      by (elim run_elims)
        (use tr in \<open>auto simp: db_stmt count_rows_pos update_rows_none bindE_eq_Inr split: if_splits\<close>)
  qed
  show ?case
    unfolding prod.case
    by (intro post_ifI post_step2 post_optionI post_step [of "insert_history _ _"] aon_ret) (use 1(3) pos in auto)
qed

end
