(* ===== verification/Stranded.thy ===== *)
theory Stranded
  imports Settlement
begin

text \<open>
  A stranded task: running, without an active attempt. No transaction moves it any more, so its
  workflow never settles. The store of \<open>Settlement\<close> gets there when a settlement is called with
  a task revision that was not read together with the attempt's.
\<close>

definition stranded :: "task_row \<Rightarrow> db \<Rightarrow> bool" where
  "stranded t s \<longleftrightarrow> t \<in> set (db_tasks s) \<and> tx_state t = TS_RUNNING \<and>
     (\<forall>a \<in> set (db_attempts s). ax_task_id a = tx_id t \<longrightarrow> \<not> as_active (ax_state a))"

abbreviation keeps_stranded :: "task_row \<Rightarrow> py_exn + db \<times> 'a \<Rightarrow> bool" where
  "keeps_stranded t m \<equiv> post m (\<lambda>r. stranded t (fst r))"

section \<open>Statements\<close>

lemma stranded_frame:
  "db_tasks s' = db_tasks s \<Longrightarrow> db_attempts s' = db_attempts s \<Longrightarrow> stranded t s \<Longrightarrow> stranded t s'"
  by (simp add: stranded_def)

lemma stranded_ret: "stranded t s \<Longrightarrow> keeps_stranded t (Inr (s, c))"
  by (simp add: post_Inr)

lemma stranded_history: "stranded t s \<Longrightarrow> keeps_stranded t (bindE (insert_history h s) (\<lambda>s2. Inr (s2, c)))"
  by (rule post_step) (auto simp: post_Inr db_stmt intro: stranded_frame)

lemma stranded_workflows:
  assumes "stranded t s" and "\<And>s1 n. stranded t s1 \<Longrightarrow> post (g (s1, n)) Q"
  shows "post (bindE (update_workflows P f s) g) Q"
proof (rule post_step)
  fix x assume x: "update_workflows P f s = Inr x"
  obtain s1 n where sn: "x = (s1, n)" by (cases x)
  have "stranded t s1" by (rule stranded_frame [OF _ _ assms(1)]) (use x in \<open>auto simp: sn db_stmt\<close>)
  with assms(2) show "post (g x) Q" by (simp add: sn)
qed

lemma stranded_update: "stranded t s \<Longrightarrow> \<not> P t \<Longrightarrow> update_tasks P f s = Inr (s1, n) \<Longrightarrow> stranded t s1"
  by (auto simp: stranded_def mem_update_rows db_stmt)

lemma stranded_tasks:
  assumes "stranded t s" and "\<not> P t" and "\<And>s1 n. stranded t s1 \<Longrightarrow> post (g (s1, n)) Q"
  shows "post (bindE (update_tasks P f s) g) Q"
proof (rule post_step)
  fix x assume x: "update_tasks P f s = Inr x"
  obtain s1 n where sn: "x = (s1, n)" by (cases x)
  have "stranded t s1" by (rule stranded_update [OF assms(1,2) x [unfolded sn]])
  with assms(3) show "post (g x) Q" by (simp add: sn)
qed

text \<open>An update of attempts that makes none active; when it only settles active ones, of another task.\<close>

lemma stranded_attempts:
  assumes "stranded t s"
    and "\<And>r. P r \<Longrightarrow> ax_task_id (f r) = ax_task_id r \<and> (as_active (ax_state (f r)) \<longrightarrow> as_active (ax_state r))"
    and "\<And>s1 n. stranded t s1 \<Longrightarrow> (0 < n \<Longrightarrow> \<exists>r \<in> set (db_attempts s). P r) \<Longrightarrow> post (g (s1, n)) Q"
  shows "post (bindE (update_attempts P f s) g) Q"
proof (rule post_step)
  fix x assume x: "update_attempts P f s = Inr x"
  obtain s1 n where sn: "x = (s1, n)" by (cases x)
  have s1: "s1 = s\<lparr>db_attempts := update_rows P f (db_attempts s)\<rparr>" "n = count_rows P (db_attempts s)"
    using x by (simp_all add: sn db_stmt)
  have "stranded t s1"
    unfolding stranded_def s1
  proof (intro conjI ballI impI)
    fix a assume "a \<in> set (db_attempts (s\<lparr>db_attempts := update_rows P f (db_attempts s)\<rparr>))" "ax_task_id a = tx_id t"
    then obtain r where "r \<in> set (db_attempts s)" "a = (if P r then f r else r)" "ax_task_id a = tx_id t"
      by (auto simp: mem_update_rows)
    then show "\<not> as_active (ax_state a)"
      using assms(1) assms(2) [of r] by (cases "P r") (auto simp: stranded_def)
  qed (use assms(1) in \<open>simp_all add: stranded_def\<close>)
  then show "post (g x) Q" unfolding sn by (rule assms(3)) (simp add: s1(2) count_rows_pos)
qed

lemma stranded_settle:
  assumes "stranded t s"
    and "\<And>r. P r \<Longrightarrow> ax_task_id r = u \<and> as_active (ax_state r) \<and> ax_task_id (f r) = u \<and> \<not> as_active (ax_state (f r))"
    and "\<And>s1 n. stranded t s1 \<Longrightarrow> (0 < n \<Longrightarrow> u \<noteq> tx_id t) \<Longrightarrow> post (g (s1, n)) Q"
  shows "post (bindE (update_attempts P f s) g) Q"
proof (rule stranded_attempts [OF assms(1)])
  show "post (g (s1, n)) Q" if "stranded t s1" "0 < n \<Longrightarrow> \<exists>r \<in> set (db_attempts s). P r" for s1 n
    using assms(1) assms(2) that by (intro assms(3)) (auto simp: stranded_def)
qed (use assms(2) in auto)

section \<open>Transactions\<close>

lemma stranded_claim_key: "stranded t s \<Longrightarrow> post (claim_idempotency_key op key fp res now s) (\<lambda>r. stranded t (fst r))"
  unfolding claim_idempotency_key_def insert_idempotency_or_ignore_def
  by (auto simp: wp stranded_def split: option.split intro!: post_any)

lemma stranded_declared:
  assumes "stranded t s" and "\<And>r ids. keeps_stranded t (body r ids)"
  shows "keeps_stranded t (case get_workflow s w of None \<Rightarrow> Inr (s, c1)
      | Some r \<Rightarrow> if cond r then Inr (s, c2 r)
          else (case get_definition s (wx_definition_id r) of None \<Rightarrow> Inr (s, c3)
             | Some d \<Rightarrow> (case dr_validated_iws d of None \<Rightarrow> Inr (s, c4)
                  | Some doc \<Rightarrow> bindE (document_task_ids doc) (body r))))"
  by (intro post_optionI post_ifI stranded_ret assms(1)) (rule post_step, rule assms(2))

lemma stranded_workflow_op:
  assumes "stranded t s"
  shows "keeps_stranded t (bindE (update_workflows P f s) (\<lambda>(s1, n). if n = 0 then Inr (s1, c)
           else bindE (insert_history h s1) (\<lambda>s2. Inr (s2, d))))"
  by (rule stranded_workflows [OF assms], unfold prod.case, intro post_ifI stranded_ret stranded_history)

lemma stranded_task_op:
  assumes "stranded t s" and "\<not> P t"
  shows "keeps_stranded t (bindE (update_tasks P f s) (\<lambda>(s1, n). if n = 0 then Inr (s1, c)
           else bindE (insert_history h s1) (\<lambda>s2. Inr (s2, d))))"
  by (rule stranded_tasks [where P = P, OF assms], unfold prod.case, intro post_ifI stranded_ret stranded_history)

lemmas stranded_intros = post_ifI post_optionI stranded_ret stranded_history stranded_workflow_op

lemma stranded_setup:
  assumes "stranded t s"
  shows "keeps_stranded t (commit_registered_definition d n spec yaml key fp now s)"
    and "keeps_stranded t (commit_workflow_creation hid e key fp now s)"
    and "keeps_stranded t (commit_initialization_complete hid w rv now s)"
    and "keeps_stranded t (recover_initializing w now s)"
    and "keeps_stranded t (commit_task_population hid w tds now s)"
proof -
  show "keeps_stranded t (commit_registered_definition d n spec yaml key fp now s)"
    unfolding commit_registered_definition_def post_bindE
    by (rule post_mono [OF stranded_claim_key [OF assms]])
      (auto simp: wp stranded_def intro!: post_any split: option.split)
  show "keeps_stranded t (commit_workflow_creation hid e key fp now s)"
    unfolding commit_workflow_creation_def post_bindE
    by (rule post_mono [OF stranded_claim_key [OF assms]])
      (auto simp: wp stranded_def intro!: post_any split: option.split)
  show "keeps_stranded t (commit_initialization_complete hid w rv now s)"
    unfolding commit_initialization_complete_def Let_def
    by (rule stranded_declared [OF assms]) (intro stranded_intros assms)
  show "keeps_stranded t (recover_initializing w now s)"
    unfolding recover_initializing_def
    by (intro post_ifI stranded_ret assms) (rule stranded_workflows [OF assms], simp add: post_Inr)
  show "keeps_stranded t (commit_task_population hid w tds now s)"
    unfolding commit_task_population_def Let_def
  proof (intro post_ifI stranded_ret assms post_step [of "foldE _ _ _"] stranded_history)
    fix s1 assume "foldE (\<lambda>(tid, td). insert_task_or_ignore (new_task_row w now tid td)) tds s = Inr s1"
    from populate_tasks_Inr [OF this] assms show "stranded t s1" by (auto simp: stranded_def)
  qed
qed

lemma stranded_progress:
  assumes "stranded t s" and "db_ok s"
  shows "keeps_stranded t (commit_task_readiness hid u rv w v now s)"
    and "keeps_stranded t (commit_retry_ready hid u rv w now s)"
    and "keeps_stranded t (commit_drain_task_cancellation hid u rv now s)"
    and "keeps_stranded t (commit_attempt_ownership hid u rv w ws a dl now s)"
    and "keeps_stranded t (commit_worker_execution_start hid fresh a ws rv now s)"
proof -
  have run: "tx_state t = TS_RUNNING" using assms(1) by (simp add: stranded_def)
  show "keeps_stranded t (commit_task_readiness hid u rv w v now s)"
    unfolding commit_task_readiness_def Let_def
    by (intro post_ifI stranded_ret assms(1) post_step [of "thaw_json _"] stranded_task_op) (simp add: run)
  show "keeps_stranded t (commit_retry_ready hid u rv w now s)"
    unfolding commit_retry_ready_def
    by (intro post_ifI stranded_ret assms(1) stranded_task_op) (simp add: run)
  show "keeps_stranded t (commit_drain_task_cancellation hid u rv now s)"
    unfolding commit_drain_task_cancellation_def
    by (intro post_ifI post_optionI stranded_ret assms(1) stranded_task_op) (simp add: run)
  show "keeps_stranded t (commit_worker_execution_start hid fresh a ws rv now s)"
    unfolding commit_worker_execution_start_def Let_def
    by (intro post_ifI post_optionI stranded_ret assms(1))
      (rule stranded_attempts [OF assms(1)], simp, unfold prod.case, rule stranded_history)
  show "keeps_stranded t (commit_attempt_ownership hid u rv w ws a dl now s)"
    unfolding commit_attempt_ownership_def Let_def
  proof (intro post_ifI post_optionI stranded_ret assms(1), rule stranded_tasks [OF assms(1)], simp add: run, goal_cases)
    case (1 row s1 n)
    have row: "row \<in> set (db_tasks s)" "tx_id row = u" "tx_state row = TS_RUNNABLE" using find_SomeD [OF 1(3)] by auto
    have "u \<noteq> tx_id t"
    proof
      assume "u = tx_id t"
      with db_ok_keys(2) [OF assms(2) row(1), of t] assms(1) row have "row = t" by (simp add: stranded_def)
      with row run show False by simp
    qed
    with 1(4) show ?case
      unfolding prod.case
      by (intro post_step [of "insert_attempt _ _"] stranded_history) (auto simp: db_stmt stranded_def)
  qed
qed

lemma stranded_fail_task:
  assumes "stranded t s" and "\<not> P t" and "\<And>s1 n. stranded t s1 \<Longrightarrow> post (g (s1, n)) Q"
  shows "post (bindE (fail_task P cause now s) g) Q"
  unfolding fail_task_def bindE_assoc by (rule post_step, rule stranded_tasks [where P = P, OF assms(1,2)], rule assms(3))

lemma stranded_settlements:
  assumes "stranded t s"
  shows "keeps_stranded t (commit_worker_task_success hid a ws arv u trv v now s)"
    and "keeps_stranded t (commit_worker_failure_with_retry hid a ws arv u trv w ready cause now s)"
    and "keeps_stranded t (commit_worker_definitive_failure hid a ws arv u trv cause now s)"
    and "keeps_stranded t (cancel_active_attempt extra m1 m2 cat payload hid a arv u trv now s)"
    and "internal_cause cause \<Longrightarrow>
       keeps_stranded t (commit_internal_attempt_failure hid a arv u trv cause retryable ready' lost now s)"
proof -
  show "keeps_stranded t (commit_worker_task_success hid a ws arv u trv v now s)"
    unfolding commit_worker_task_success_def Let_def
  proof (rule stranded_settle [where u = u, OF assms], simp, goal_cases)
    case (1 s1 n)
    then show ?case
      unfolding prod.case
      by (intro post_ifI post_optionI stranded_ret post_step [of "thaw_json _"] stranded_tasks)
        (simp, auto intro: stranded_history)
  qed
  show "keeps_stranded t (commit_worker_failure_with_retry hid a ws arv u trv w ready cause now s)"
    unfolding commit_worker_failure_with_retry_def fail_owned_attempt_def bindE_assoc
  proof (intro post_ifI stranded_ret assms post_step [of "failure_details_json _"],
      rule stranded_settle [where u = u, OF assms], simp, goal_cases)
    case (1 d s1 n)
    then show ?case
      unfolding prod.case by (intro post_ifI stranded_ret stranded_task_op) simp_all
  qed
  show "keeps_stranded t (commit_worker_definitive_failure hid a ws arv u trv cause now s)"
    unfolding commit_worker_definitive_failure_def fail_owned_attempt_def bindE_assoc Let_def
  proof (rule post_step, rule stranded_settle [where u = u, OF assms], simp, goal_cases)
    case (1 d s1 n)
    then show ?case
      unfolding prod.case
      by (intro post_ifI post_optionI stranded_ret stranded_fail_task) (simp, auto intro: stranded_history)
  qed
  show "keeps_stranded t (cancel_active_attempt extra m1 m2 cat payload hid a arv u trv now s)"
    unfolding cancel_active_attempt_def Let_def
  proof (intro post_ifI post_optionI stranded_ret assms, rule stranded_settle [where u = u, OF assms], simp, goal_cases)
    case (1 row s1 n)
    then show ?case
      unfolding prod.case by (intro post_ifI stranded_ret stranded_task_op) simp_all
  qed
  show "keeps_stranded t (commit_internal_attempt_failure hid a arv u trv cause retryable ready' lost now s)"
    if cause: "internal_cause cause"
    unfolding commit_internal_attempt_failure_def Let_def
  proof (intro post_optionI stranded_ret assms post_step [of "failure_details_json _"],
      rule stranded_settle [where u = u, OF assms], force dest: internal_filter_active [OF cause], goal_cases)
    case (1 row d s1 n)
    have st: "stranded t s2"
      if r: "settle_task_retry_or_fail rt ready' u w trv cause now s1 = Inr (s2, ns)" and "u \<noteq> tx_id t" for rt w s2 ns
    proof -
      have "keeps_stranded t (settle_task_retry_or_fail rt ready' u w trv cause now s1)"
        unfolding settle_task_retry_or_fail_def
      proof (rule post_step2)
        fix s2 n assume "(if rt then update_tasks (\<lambda>r. tx_id r = u \<and> tx_workflow_id r = w \<and> tx_state r = TS_RUNNING \<and>
              tx_next_attempt_ordinal r \<le> tx_max_attempts r \<and> tx_revision r = trv)
            (\<lambda>r. r\<lparr>tx_state := TS_RETRY_WAIT, tx_retry_ready_at_utc := ready', tx_revision := tx_revision r + 1,
                   tx_updated_at_utc := now\<rparr>) s1 else Inr (s1, 0)) = Inr (s2, n)"
        then have "stranded t s2"
          using 1(3) that(2) by (cases rt) (auto elim: stranded_update [OF 1(3), rotated])
        then show "keeps_stranded t (if 0 < n then Inr (s2, Some ''RETRY_WAIT'')
            else bindE (fail_task (\<lambda>r. tx_id r = u \<and> tx_workflow_id r = w \<and> tx_state r = TS_RUNNING \<and> tx_revision r = trv)
                   cause now s2) (\<lambda>(s2, m). Inr (s2, if m = 0 then None else Some ''FAILED'')))"
          by (intro post_ifI stranded_ret stranded_fail_task) (use that(2) in \<open>auto simp: post_Inr\<close>)
      qed
      from postD [OF this r] show ?thesis by simp
    qed
    show ?case
      unfolding prod.case
      by (intro post_ifI stranded_ret post_step2 post_optionI stranded_history 1(3)) (use 1(4) st in auto)
  qed
qed

section \<open>Stranded for good\<close>

lemma stranded_drained:
  assumes "stranded t s"
  shows "keeps_stranded t (settle_drained_workflow st st' c cat hid w rv now s)"
    and "keeps_stranded t (commit_workflow_failure_direction hid w cause now s)"
    and "keeps_stranded t (commit_workflow_cancellation_direction hid w now s)"
    and "keeps_stranded t (commit_workflow_success hid w rv v now s)"
    and "post (set_cancellation_deadline a dl s) (stranded t)"
proof -
  show "keeps_stranded t (settle_drained_workflow st st' c cat hid w rv now s)"
    unfolding settle_drained_workflow_def Let_def
    by (rule stranded_declared [OF assms]) (intro stranded_intros assms)
  show "keeps_stranded t (commit_workflow_failure_direction hid w cause now s)"
    unfolding commit_workflow_failure_direction_def
    by (intro stranded_intros assms post_step [of "failure_details_json _"])
  show "keeps_stranded t (commit_workflow_cancellation_direction hid w now s)"
    unfolding commit_workflow_cancellation_direction_def by (intro stranded_intros assms)
  show "keeps_stranded t (commit_workflow_success hid w rv v now s)"
    unfolding commit_workflow_success_def Let_def
    by (rule stranded_declared [OF assms]) (intro stranded_intros assms post_step [of "thaw_json _"])
  show "post (set_cancellation_deadline a dl s) (stranded t)"
    unfolding set_cancellation_deadline_def
    by (rule stranded_attempts [OF assms]) (simp_all add: post_Inr)
qed

lemma stranded_step:
  assumes "db_step s s'" and "stranded t s" and "db_ok s"
  shows "stranded t s'"
  using assms(1)
proof cases
  case step_internal_failure
  then show ?thesis using stranded_settlements(5) [OF assms(2)] by (blast intro: post_fstD)
next
  case step_set_deadline
  then show ?thesis using stranded_drained(5) [OF assms(2)] by (blast intro: postD)
qed (unfold commit_workflow_failure_def commit_workflow_cancellation_def commit_worker_cancellation_ack_def
      commit_internal_cancellation_deadline_def,
    (erule post_fstD [rotated], rule stranded_setup [OF assms(2)] stranded_progress [OF assms(2,3)]
      stranded_settlements(1-4) [OF assms(2)] stranded_drained(1-4) [OF assms(2)])+)

lemma stranded_forever:
  assumes "db_steps s s'" and "stranded t s" and "lifecycle_ok s"
  shows "stranded t s'"
  using assms
proof (induction rule: rtranclp_induct)
  case (step s' s'')
  then show ?case using stranded_step lifecycle_db_ok [OF db_steps_lifecycle [OF step.hyps(1)]] by blast
qed

section \<open>What the two halves amount to\<close>


definition sample_internal_cause :: failure_cause where
  "sample_internal_cause = \<lparr>fc_category = WORKER_AVAILABILITY, fc_code = ''WORKER_LOSS'', fc_message = ''lost'', fc_details = None\<rparr>"


lemma active_tasks_settled:
  assumes "distinct (active_attempt_tasks rows)" and "\<And>r. P r \<Longrightarrow> \<not> as_active (ax_state (f r))"
  shows "distinct (active_attempt_tasks (update_rows P f rows))"
proof -
  have "active_attempt_tasks (update_rows P f rows) =
      map ax_task_id (filter (\<lambda>a. \<not> P a) (filter (\<lambda>a. as_active (ax_state a)) rows))"
    using assms(2) by (induction rows) (auto simp: active_attempt_tasks_def update_rows_def)
  with assms(1) show ?thesis by (simp only: active_attempt_tasks_def distinct_map_filter)
qed

lemma settle_attempts_succeeds:
  assumes "db_ok s" and "\<And>r. P r \<Longrightarrow> \<not> as_active (ax_state (f r)) \<and> ax_revision r \<le> ax_revision (f r) \<and> ax_ordinal (f r) = ax_ordinal r"
  shows "update_attempts P f s = Inr (s\<lparr>db_attempts := update_rows P f (db_attempts s)\<rparr>, count_rows P (db_attempts s))"
  using assms(1) active_tasks_settled [of "db_attempts s" P f] assms(2)
  by (fastforce simp: db_stmt db_ok_def list_all_iff mem_update_rows attempt_row_ok_def)

text \<open>
  C21. Called with another task revision, the settlement returns a conflict but keeps its first
  half: the attempt is settled, the task is left running without an active attempt, and no
  transaction will ever move that task, nor settle its workflow.
\<close>

theorem mismatched_settlement_strands_task:
  assumes "reachable s" and "ar \<in> set (db_attempts s)" and "ax_state ar = AS_RUNNING" and "t \<in> set (db_tasks s)"
    and "tx_id t = ax_task_id ar" and "trv \<noteq> tx_revision t" and "thaw_json v = Inr p"
  shows "\<exists>s'. commit_worker_task_success hid (ax_id ar) (ax_worker_session_id ar) (ax_revision ar) (tx_id t) trv v now s =
        Inr (s', occ_conflict ''Task state/revision conflict'') \<and>
      (\<forall>s''. db_steps s' s'' \<longrightarrow> t \<in> set (db_tasks s'') \<and>
         (\<forall>w \<in> set (db_workflows s''). wx_id w = tx_workflow_id t \<longrightarrow> \<not> wf_terminal (wx_state w)))"
proof -
  note inv = reachable_lifecycle [OF assms(1)] and db = lifecycle_db_ok [OF reachable_lifecycle [OF assms(1)]]
  let ?P = "success_attempt (ax_id ar) (ax_worker_session_id ar) (tx_id t) (ax_revision ar)"
  let ?f = "\<lambda>r. r\<lparr>ax_state := AS_SUCCEEDED, ax_revision := ax_revision r + 1, ax_updated_at_utc := now\<rparr>"
  let ?s' = "s\<lparr>db_attempts := update_rows ?P ?f (db_attempts s)\<rparr>"
  have u: "update_attempts ?P ?f s = Inr (?s', count_rows ?P (db_attempts s))"
    by (rule settle_attempts_succeeds [OF db]) simp
  have n: "count_rows ?P (db_attempts s) \<noteq> 0" using assms(2,3,5) count_rows_pos [of ?P "db_attempts s"] by auto
  have only: "r = t" if "r \<in> set (db_tasks s)" "tx_id r = tx_id t" for r by (rule db_ok_keys(2) [OF db that(1) assms(4) that(2)])
  have none: "find (running_task (tx_id t) trv) (db_tasks ?s') = None"
    using only assms(6) by (auto simp: find_None_iff)
  have run: "commit_worker_task_success hid (ax_id ar) (ax_worker_session_id ar) (ax_revision ar) (tx_id t) trv v now s =
        Inr (?s', occ_conflict ''Task state/revision conflict'')"
    using u n none assms(7) by (simp add: commit_worker_task_success_def)
  have r': "reachable ?s'" by (rule reachable_step [OF assms(1) step_success [OF run]])
  have "tx_state t = TS_RUNNING" by (rule active_task_running [OF inv assms(2) _ assms(4,5)]) (simp add: assms(3))
  moreover have "\<not> as_active (ax_state a)" if "a \<in> set (db_attempts ?s')" "ax_task_id a = tx_id t" for a
    by (rule settled_no_active [OF inv, of ?P "tx_id t" ?f]) (use n that in \<open>auto simp: assms(5)\<close>)
  ultimately have st: "stranded t ?s'" using assms(4) by (simp add: stranded_def)
  have "t \<in> set (db_tasks s'') \<and> (\<forall>w \<in> set (db_workflows s''). wx_id w = tx_workflow_id t \<longrightarrow> \<not> wf_terminal (wx_state w))"
    if later: "db_steps ?s' s''" for s''
  proof -
    have "stranded t s''" by (rule stranded_forever [OF later st reachable_lifecycle [OF r']])
    moreover have "task_state_allowed (wx_state w) (tx_state t)" if "w \<in> set (db_workflows s'')" "wx_id w = tx_workflow_id t" for w
      using lifecycle_allowed [OF reachable_lifecycle [OF reachable_steps [OF r' later]] that(1), of t] that(2) calculation
      by (simp add: stranded_def)
    ultimately show ?thesis by (fastforce simp: stranded_def)
  qed
  with run show ?thesis by blast
qed

theorem mismatched_settlement_strands_task_witness:
  "\<exists>s'. commit_worker_task_success 107 21 31 2 11 9 (PyInt 5) 7 db_started = Inr (s', occ_conflict ''Task state/revision conflict'') \<and>
     row_a TS_RUNNING 3 None 2 5 \<in> set (db_tasks s')"
proof -
  let ?a = "sample_attempt 21 11 AS_RUNNING 2 5 6" and ?t = "row_a TS_RUNNING 3 None 2 5"
  have m: "?a \<in> set (db_attempts db_started)" "ax_state ?a = AS_RUNNING" "?t \<in> set (db_tasks db_started)"
    "tx_id ?t = ax_task_id ?a" "9 \<noteq> tx_revision ?t"
    by (simp_all add: db_started_def sample_store_def row_a_def sample_task_row_def sample_attempt_def)
  have i: "ax_id ?a = 21" "ax_revision ?a = 2" "ax_worker_session_id ?a = 31" "tx_id ?t = 11"
    by (simp_all add: row_a_def sample_task_row_def sample_attempt_def)
  from mismatched_settlement_strands_task [OF reachable_started m, of "PyInt 5" "PyInt 5" 107 7] show ?thesis
    unfolding i by auto
qed

end
