(* ===== verification/Worker_Registry.thy ===== *)
theory Worker_Registry
  imports Execution_Entities
begin

text \<open>
  The ephemeral worker registry, \<open>src/nexusflow/orchestration/registry.py\<close>: sessions and delivery
  queues in memory, keyed by session id. Every operation holds the registry's lock for its whole
  body, so each is one function on the registry. Readings of the monotonic clock are numbers of
  microseconds; \<open>WorkerSessionId.generate()\<close> and the clocks are arguments.
\<close>

record worker_session_record =
  wr_session_id :: worker_session_id
  wr_worker_id :: string
  wr_capabilities :: "activity_type list"
  wr_registered_at_monotonic :: int
  wr_last_heartbeat_monotonic :: int
  wr_last_heartbeat_utc :: datetime
  wr_accepting_new_work :: bool

record worker_session_snapshot =
  sn_session_id :: worker_session_id
  sn_worker_id :: string
  sn_capabilities :: "activity_type list"
  sn_live :: bool
  sn_accepting_new_work :: bool
  sn_last_heartbeat_utc :: datetime

text \<open>
  The two dictionaries keep insertion order; a queue is the list of its items, oldest first.
\<close>

record 'i worker_registry =
  rg_liveness_timeout :: int
  rg_sessions :: "(worker_session_id, worker_session_record) dict"
  rg_delivery_queues :: "(worker_session_id, 'i list) dict"

definition new_registry :: "int \<Rightarrow> 'i worker_registry" where
  "new_registry liveness_timeout =
     \<lparr>rg_liveness_timeout = liveness_timeout, rg_sessions = [], rg_delivery_queues = []\<rparr>"

definition register_worker ::
  "worker_session_id \<Rightarrow> int \<Rightarrow> datetime \<Rightarrow> string \<Rightarrow> activity_type list \<Rightarrow> bool
    \<Rightarrow> 'i worker_registry \<Rightarrow> worker_session_record \<times> 'i worker_registry" where
  "register_worker session_id now_monotonic now_utc worker_id capabilities accepting_new_work rg =
     (let record = \<lparr>wr_session_id = session_id, wr_worker_id = worker_id, wr_capabilities = capabilities,
                    wr_registered_at_monotonic = now_monotonic, wr_last_heartbeat_monotonic = now_monotonic,
                    wr_last_heartbeat_utc = now_utc, wr_accepting_new_work = accepting_new_work\<rparr>
      in (record, rg\<lparr>rg_sessions := dict_set session_id record (rg_sessions rg),
                     rg_delivery_queues := dict_set session_id [] (rg_delivery_queues rg)\<rparr>))"

definition heartbeat_worker ::
  "worker_session_id \<Rightarrow> bool \<Rightarrow> int \<Rightarrow> datetime \<Rightarrow> 'i worker_registry \<Rightarrow> bool \<times> 'i worker_registry" where
  "heartbeat_worker session_id accepting_new_work now_monotonic now_utc rg =
     (case map_of (rg_sessions rg) session_id of
        None \<Rightarrow> (False, rg)
      | Some record \<Rightarrow>
          let updated = record\<lparr>wr_last_heartbeat_monotonic := now_monotonic,
                               wr_last_heartbeat_utc := now_utc,
                               wr_accepting_new_work := accepting_new_work\<rparr>
          in (True, rg\<lparr>rg_sessions := dict_set session_id updated (rg_sessions rg)\<rparr>))"

definition record_live :: "'i worker_registry \<Rightarrow> int \<Rightarrow> worker_session_record \<Rightarrow> bool" where
  "record_live rg now_monotonic rec =
     (now_monotonic - wr_last_heartbeat_monotonic rec \<le> rg_liveness_timeout rg)"

definition snapshot_of :: "bool \<Rightarrow> worker_session_record \<Rightarrow> worker_session_snapshot" where
  "snapshot_of live rec =
     \<lparr>sn_session_id = wr_session_id rec, sn_worker_id = wr_worker_id rec, sn_capabilities = wr_capabilities rec,
      sn_live = live, sn_accepting_new_work = wr_accepting_new_work rec,
      sn_last_heartbeat_utc = wr_last_heartbeat_utc rec\<rparr>"

definition get_snapshot ::
  "worker_session_id \<Rightarrow> int \<Rightarrow> 'i worker_registry \<Rightarrow> worker_session_snapshot option" where
  "get_snapshot session_id now_monotonic rg =
     (case map_of (rg_sessions rg) session_id of
        None \<Rightarrow> None
      | Some rec \<Rightarrow> Some (snapshot_of (record_live rg now_monotonic rec) rec))"

text \<open>The first session in insertion order that is live, accepting and capable.\<close>

definition find_eligible_worker_for_activity ::
  "activity_type \<Rightarrow> int \<Rightarrow> 'i worker_registry \<Rightarrow> worker_session_snapshot option" where
  "find_eligible_worker_for_activity activity now_monotonic rg =
     (case find (\<lambda>rec. record_live rg now_monotonic rec \<and> wr_accepting_new_work rec \<and>
                       activity \<in> set (wr_capabilities rec)) (map snd (rg_sessions rg)) of
        None \<Rightarrow> None
      | Some rec \<Rightarrow> Some (snapshot_of True rec))"

definition queue_delivery ::
  "worker_session_id \<Rightarrow> 'i \<Rightarrow> 'i worker_registry \<Rightarrow> bool \<times> 'i worker_registry" where
  "queue_delivery session_id item rg =
     (case map_of (rg_delivery_queues rg) session_id of
        None \<Rightarrow> (False, rg)
      | Some q \<Rightarrow> (True, rg\<lparr>rg_delivery_queues := dict_set session_id (q @ [item]) (rg_delivery_queues rg)\<rparr>))"

text \<open>
  \<open>wait_for(q.get(), timeout)\<close>: the oldest item when there is one by the time the wait ends,
  otherwise the timeout's \<open>None\<close>.
\<close>

definition poll_delivery ::
  "worker_session_id \<Rightarrow> 'i worker_registry \<Rightarrow> 'i option \<times> 'i worker_registry" where
  "poll_delivery session_id rg =
     (case map_of (rg_delivery_queues rg) session_id of
        None \<Rightarrow> (None, rg)
      | Some [] \<Rightarrow> (None, rg)
      | Some (item # q) \<Rightarrow> (Some item, rg\<lparr>rg_delivery_queues := dict_set session_id q (rg_delivery_queues rg)\<rparr>))"

definition find_lost_sessions :: "int \<Rightarrow> 'i worker_registry \<Rightarrow> worker_session_id list" where
  "find_lost_sessions now_monotonic rg =
     map wr_session_id (filter (\<lambda>rec. \<not> record_live rg now_monotonic rec) (map snd (rg_sessions rg)))"

section \<open>The registry as an interface\<close>

text \<open>
  What the scheduler and the routes rely on. \<open>known\<close> is the registry's view of a session: its
  capabilities, whether it accepts work and its last heartbeat; \<open>backlog\<close> is its queue.
\<close>

locale worker_directory =
  fixes known :: "'r \<Rightarrow> worker_session_id \<Rightarrow> worker_session_record option"
    and live :: "'r \<Rightarrow> int \<Rightarrow> worker_session_record \<Rightarrow> bool"
    and backlog :: "'r \<Rightarrow> worker_session_id \<Rightarrow> 'i list option"
    and well_formed :: "'r \<Rightarrow> bool"
    and eligible :: "activity_type \<Rightarrow> int \<Rightarrow> 'r \<Rightarrow> worker_session_snapshot option"
    and lost :: "int \<Rightarrow> 'r \<Rightarrow> worker_session_id list"
    and deliver :: "worker_session_id \<Rightarrow> 'i \<Rightarrow> 'r \<Rightarrow> bool \<times> 'r"
    and poll :: "worker_session_id \<Rightarrow> 'r \<Rightarrow> 'i option \<times> 'r"
  assumes eligible_some: "well_formed r \<Longrightarrow> eligible a now r = Some sn \<Longrightarrow> \<exists>rec. known r (sn_session_id sn) = Some rec \<and>
      live r now rec \<and> wr_accepting_new_work rec \<and> a \<in> set (wr_capabilities rec)"
    and eligible_none: "well_formed r \<Longrightarrow> eligible a now r = None \<Longrightarrow> known r s = Some rec \<Longrightarrow>
      \<not> (live r now rec \<and> wr_accepting_new_work rec \<and> a \<in> set (wr_capabilities rec))"
    and lost_iff: "well_formed r \<Longrightarrow> s \<in> set (lost now r) \<longleftrightarrow> (\<exists>rec. known r s = Some rec \<and> \<not> live r now rec)"
    and queue_iff: "well_formed r \<Longrightarrow> (backlog r s = None) = (known r s = None)"
    and deliver_spec: "well_formed r \<Longrightarrow> deliver s i r = (ok, r') \<Longrightarrow>
      well_formed r' \<and> known r' = known r \<and> live r' = live r \<and> ok = (known r s \<noteq> None) \<and>
      backlog r' = (case backlog r s of None \<Rightarrow> backlog r | Some q \<Rightarrow> (backlog r)(s \<mapsto> q @ [i]))"
    and poll_spec: "well_formed r \<Longrightarrow> poll s r = (got, r') \<Longrightarrow>
      well_formed r' \<and> known r' = known r \<and> live r' = live r \<and>
      (case got of None \<Rightarrow> backlog r' = backlog r \<and> (backlog r s = None \<or> backlog r s = Some [])
       | Some i \<Rightarrow> \<exists>q. backlog r s = Some (i # q) \<and> backlog r' = (backlog r)(s \<mapsto> q))"
begin

text \<open>A session found eligible is not lost, and what is delivered to it arrives.\<close>

lemma eligible_not_lost:
  "well_formed r \<Longrightarrow> eligible a now r = Some sn \<Longrightarrow> sn_session_id sn \<notin> set (lost now r)"
  using eligible_some lost_iff by fastforce

lemma eligible_delivered:
  assumes "well_formed r" and "eligible a now r = Some sn" and "deliver (sn_session_id sn) i r = (ok, r')"
  shows "ok \<and> (\<exists>q. backlog r (sn_session_id sn) = Some q \<and> backlog r' (sn_session_id sn) = Some (q @ [i]))"
proof -
  obtain rec where k: "known r (sn_session_id sn) = Some rec" using eligible_some [OF assms(1,2)] by blast
  then obtain q where q: "backlog r (sn_session_id sn) = Some q" using queue_iff [OF assms(1)] by (metis not_None_eq)
  with deliver_spec [OF assms(1,3)] k show ?thesis by simp
qed

text \<open>Delivering to an empty queue and polling gives the item back.\<close>

lemma deliver_poll:
  assumes "well_formed r" and "backlog r s = Some []" and "deliver s i r = (ok, r1)" and "poll s r1 = (got, r2)"
  shows "got = Some i \<and> backlog r2 = backlog r"
proof -
  from deliver_spec [OF assms(1,3)] assms(2) have d: "well_formed r1" "backlog r1 = (backlog r)(s \<mapsto> [i])" by simp_all
  have "backlog r = (backlog r)(s \<mapsto> [])" using assms(2) by (simp add: fun_upd_idem)
  with poll_spec [OF d(1) assms(4)] d(2) show ?thesis by (cases got) auto
qed

text \<open>Items a session receives one by one, in a loop of deliveries and polls, come out in order.\<close>

fun deliver_all :: "worker_session_id \<Rightarrow> 'i list \<Rightarrow> 'r \<Rightarrow> 'r" where
  "deliver_all s [] r = r"
| "deliver_all s (i # is) r = deliver_all s is (snd (deliver s i r))"

fun poll_many :: "worker_session_id \<Rightarrow> nat \<Rightarrow> 'r \<Rightarrow> 'i option list" where
  "poll_many s 0 r = []"
| "poll_many s (Suc n) r = (case poll s r of (got, r') \<Rightarrow> got # poll_many s n r')"

lemma deliver_all_backlog:
  "well_formed r \<Longrightarrow> backlog r s = Some q \<Longrightarrow>
     well_formed (deliver_all s is r) \<and> backlog (deliver_all s is r) s = Some (q @ is)"
proof (induction "is" arbitrary: r q)
  case (Cons i "is")
  obtain ok r' where d: "deliver s i r = (ok, r')" by (cases "deliver s i r")
  from deliver_spec [OF Cons.prems(1) d] Cons.prems(2) have "well_formed r'" "backlog r' s = Some (q @ [i])" by auto
  from Cons.IH [OF this] d show ?case by simp
qed simp

lemma poll_many_backlog:
  "well_formed r \<Longrightarrow> backlog r s = Some q \<Longrightarrow> poll_many s (length q) r = map Some q"
proof (induction q arbitrary: r)
  case (Cons i q)
  obtain got r' where p: "poll s r = (got, r')" by (cases "poll s r")
  from poll_spec [OF Cons.prems(1) p] Cons.prems(2) have "got = Some i" "well_formed r'" "backlog r' s = Some q"
    by (auto split: option.splits)
  with Cons.IH p show ?case by simp
qed simp

lemma first_in_first_out:
  "well_formed r \<Longrightarrow> backlog r s = Some q \<Longrightarrow>
     poll_many s (length q + length is) (deliver_all s is r) = map Some (q @ is)"
  using poll_many_backlog [of "deliver_all s is r" s "q @ is"] deliver_all_backlog [of r s q "is"] by simp

end

section \<open>The model provides the interface\<close>

text \<open>Both dictionaries have the same keys, each session under its own id.\<close>

definition registry_ok :: "'i worker_registry \<Rightarrow> bool" where
  "registry_ok rg \<longleftrightarrow> dict_ok (rg_sessions rg) \<and> set (dict_keys (rg_delivery_queues rg)) = set (dict_keys (rg_sessions rg)) \<and>
     (\<forall>(s, rec) \<in> set (rg_sessions rg). wr_session_id rec = s)"

lemma registry_session: "registry_ok rg \<Longrightarrow> map_of (rg_sessions rg) s = Some rec \<Longrightarrow> wr_session_id rec = s"
  by (fastforce simp: registry_ok_def dest: map_of_SomeD)

lemma registry_record:
  assumes "registry_ok rg" and "rec \<in> snd ` set (rg_sessions rg)"
  shows "map_of (rg_sessions rg) (wr_session_id rec) = Some rec"
proof -
  from assms(2) obtain s where "(s, rec) \<in> set (rg_sessions rg)" by auto
  with assms(1) show ?thesis by (auto simp: registry_ok_def)
qed

lemma registry_eligible:
  assumes "registry_ok rg"
  shows "find_eligible_worker_for_activity a now rg = Some sn \<Longrightarrow> \<exists>rec. map_of (rg_sessions rg) (sn_session_id sn) = Some rec \<and>
      record_live rg now rec \<and> wr_accepting_new_work rec \<and> a \<in> set (wr_capabilities rec)"
    and "find_eligible_worker_for_activity a now rg = None \<Longrightarrow> map_of (rg_sessions rg) s = Some rec \<Longrightarrow>
      \<not> (record_live rg now rec \<and> wr_accepting_new_work rec \<and> a \<in> set (wr_capabilities rec))"
proof -
  let ?P = "\<lambda>rec. record_live rg now rec \<and> wr_accepting_new_work rec \<and> a \<in> set (wr_capabilities rec)"
  show "\<exists>rec. map_of (rg_sessions rg) (sn_session_id sn) = Some rec \<and> ?P rec"
    if "find_eligible_worker_for_activity a now rg = Some sn"
  proof -
    from that obtain rec where "find ?P (map snd (rg_sessions rg)) = Some rec" "sn = snapshot_of True rec"
      by (auto simp: find_eligible_worker_for_activity_def split: option.splits)
    with find_SomeD registry_record [OF assms, of rec] show ?thesis
      by (intro exI [of _ rec]) (fastforce simp: snapshot_of_def)
  qed
  show "\<not> ?P rec" if "find_eligible_worker_for_activity a now rg = None" "map_of (rg_sessions rg) s = Some rec"
  proof -
    have "rec \<in> set (map snd (rg_sessions rg))" using map_of_SomeD [OF that(2)] by force
    moreover have "find ?P (map snd (rg_sessions rg)) = None"
      using that(1) by (simp add: find_eligible_worker_for_activity_def split: option.splits)
    ultimately show ?thesis unfolding find_None_iff by blast
  qed
qed

lemma registry_lost:
  assumes "registry_ok rg"
  shows "s \<in> set (find_lost_sessions now rg) \<longleftrightarrow> (\<exists>rec. map_of (rg_sessions rg) s = Some rec \<and> \<not> record_live rg now rec)"
proof
  assume "s \<in> set (find_lost_sessions now rg)"
  then obtain rec where "rec \<in> snd ` set (rg_sessions rg)" "\<not> record_live rg now rec" "s = wr_session_id rec"
    by (auto simp: find_lost_sessions_def)
  with registry_record [OF assms] show "\<exists>rec. map_of (rg_sessions rg) s = Some rec \<and> \<not> record_live rg now rec" by blast
next
  assume "\<exists>rec. map_of (rg_sessions rg) s = Some rec \<and> \<not> record_live rg now rec"
  then obtain rec where rec: "map_of (rg_sessions rg) s = Some rec" "\<not> record_live rg now rec" by blast
  have "rec \<in> snd ` set (rg_sessions rg)" using map_of_SomeD [OF rec(1)] by force
  with rec(2) registry_session [OF assms rec(1)] show "s \<in> set (find_lost_sessions now rg)"
    by (auto simp: find_lost_sessions_def)
qed

lemma registry_queue:
  assumes "registry_ok rg"
  shows "(map_of (rg_delivery_queues rg) s = None) = (map_of (rg_sessions rg) s = None)"
  using assms by (simp add: registry_ok_def map_of_eq_None_iff)

lemma record_live_cong: "rg_liveness_timeout rg = rg_liveness_timeout rg' \<Longrightarrow> record_live rg = record_live rg'"
  by (intro ext) (simp add: record_live_def)

lemma registry_set_queue:
  assumes "registry_ok rg" and "map_of (rg_delivery_queues rg) s = Some q"
  shows "registry_ok (rg\<lparr>rg_delivery_queues := dict_set s q' (rg_delivery_queues rg)\<rparr>)"
proof -
  have "s \<in> fst ` set (rg_delivery_queues rg)" using assms(2) by (force dest: map_of_SomeD)
  with assms(1) show ?thesis by (simp add: registry_ok_def insert_absorb)
qed

lemma registry_deliver:
  assumes "registry_ok rg" and "queue_delivery s i rg = (ok, rg')"
  shows "registry_ok rg' \<and> map_of (rg_sessions rg') = map_of (rg_sessions rg) \<and> record_live rg' = record_live rg \<and>
     ok = (map_of (rg_sessions rg) s \<noteq> None) \<and>
     map_of (rg_delivery_queues rg') = (case map_of (rg_delivery_queues rg) s of None \<Rightarrow> map_of (rg_delivery_queues rg)
       | Some q \<Rightarrow> (map_of (rg_delivery_queues rg))(s \<mapsto> q @ [i]))"
  using assms registry_queue [OF assms(1), of s] registry_set_queue [OF assms(1)]
  by (auto simp: queue_delivery_def split: option.splits intro: record_live_cong)

lemma registry_poll:
  assumes "registry_ok rg" and "poll_delivery s rg = (got, rg')"
  shows "registry_ok rg' \<and> map_of (rg_sessions rg') = map_of (rg_sessions rg) \<and> record_live rg' = record_live rg \<and>
     (case got of None \<Rightarrow> map_of (rg_delivery_queues rg') = map_of (rg_delivery_queues rg) \<and>
         (map_of (rg_delivery_queues rg) s = None \<or> map_of (rg_delivery_queues rg) s = Some [])
      | Some i \<Rightarrow> \<exists>q. map_of (rg_delivery_queues rg) s = Some (i # q) \<and>
         map_of (rg_delivery_queues rg') = (map_of (rg_delivery_queues rg))(s \<mapsto> q))"
  using assms registry_set_queue [OF assms(1)]
  by (auto simp: poll_delivery_def split: option.splits list.splits intro: record_live_cong)

interpretation registry: worker_directory
  "\<lambda>rg. map_of (rg_sessions rg)" record_live "\<lambda>rg. map_of (rg_delivery_queues rg)" registry_ok
  find_eligible_worker_for_activity find_lost_sessions queue_delivery poll_delivery
  by unfold_locales
    (rule registry_eligible(1), assumption+, rule registry_eligible(2), assumption+, rule registry_lost, assumption,
     rule registry_queue, assumption, rule registry_deliver, assumption+, rule registry_poll, assumption+)

section \<open>Sessions\<close>

lemma new_registry_ok: "registry_ok (new_registry timeout)"
  by (simp add: registry_ok_def new_registry_def)

lemma registry_set_session:
  assumes "registry_ok rg" and "wr_session_id rec = s" and "fst ` set Q = insert s (fst ` set (rg_sessions rg))"
  shows "registry_ok (rg\<lparr>rg_sessions := dict_set s rec (rg_sessions rg), rg_delivery_queues := Q\<rparr>)"
proof -
  have "wr_session_id r = k" if "(k, r) \<in> set (dict_set s rec (rg_sessions rg))" for k r
  proof -
    have "dict_ok (dict_set s rec (rg_sessions rg))" using assms(1) by (simp add: registry_ok_def)
    with that have "((map_of (rg_sessions rg))(s \<mapsto> rec)) k = Some r" by (metis map_of_dict_set map_of_is_SomeI)
    with assms(2) registry_session [OF assms(1)] show ?thesis by (auto split: if_splits)
  qed
  with assms show ?thesis by (auto simp: registry_ok_def)
qed

lemma registry_keys: "registry_ok rg \<Longrightarrow> fst ` set (rg_delivery_queues rg) = fst ` set (rg_sessions rg)"
  by (simp add: registry_ok_def)

lemma register_worker_ok:
  assumes "registry_ok rg" and "register_worker s mt utc name caps acc rg = (rec, rg')"
  shows "registry_ok rg' \<and> map_of (rg_sessions rg') = (map_of (rg_sessions rg))(s \<mapsto> rec) \<and>
     map_of (rg_delivery_queues rg') s = Some []"
proof -
  have r: "wr_session_id rec = s" and rg': "rg' = rg\<lparr>rg_sessions := dict_set s rec (rg_sessions rg),
      rg_delivery_queues := dict_set s [] (rg_delivery_queues rg)\<rparr>"
    using assms(2) by (auto simp: register_worker_def Let_def)
  show ?thesis
    unfolding rg' by (intro conjI registry_set_session [OF assms(1) r]) (simp_all add: registry_keys [OF assms(1)])
qed

lemma heartbeat_worker_ok:
  assumes "registry_ok rg" and "heartbeat_worker s acc mt utc rg = (ok, rg')"
  shows "registry_ok rg' \<and> map_of (rg_delivery_queues rg') = map_of (rg_delivery_queues rg) \<and> ok = (map_of (rg_sessions rg) s \<noteq> None) \<and>
     map_of (rg_sessions rg') = (case map_of (rg_sessions rg) s of None \<Rightarrow> map_of (rg_sessions rg)
       | Some rec \<Rightarrow> (map_of (rg_sessions rg))(s \<mapsto> rec\<lparr>wr_last_heartbeat_monotonic := mt, wr_last_heartbeat_utc := utc,
           wr_accepting_new_work := acc\<rparr>))"
proof (cases "map_of (rg_sessions rg) s")
  case None
  with assms show ?thesis by (simp add: heartbeat_worker_def)
next
  case (Some rec)
  let ?rec = "rec\<lparr>wr_last_heartbeat_monotonic := mt, wr_last_heartbeat_utc := utc, wr_accepting_new_work := acc\<rparr>"
  have r: "ok" "rg' = rg\<lparr>rg_sessions := dict_set s ?rec (rg_sessions rg)\<rparr>"
    using assms(2) Some by (simp_all add: heartbeat_worker_def Let_def)
  have "s \<in> fst ` set (rg_sessions rg)" using Some by (force dest: map_of_SomeD)
  then have "registry_ok (rg\<lparr>rg_sessions := dict_set s ?rec (rg_sessions rg), rg_delivery_queues := rg_delivery_queues rg\<rparr>)"
    using registry_session [OF assms(1) Some]
    by (intro registry_set_session [OF assms(1)]) (simp_all add: registry_keys [OF assms(1)] insert_absorb)
  then show ?thesis using Some r by simp
qed

section \<open>What the registry promises\<close>

text \<open>
  C39. Routing is sound and complete: a worker is found for an activity exactly when some
  registered session is live, accepts work and has the capability, and the one found is such a
  session, never a lost one.
\<close>

theorem routing_exact:
  assumes "registry_ok rg"
  shows "(find_eligible_worker_for_activity a now rg \<noteq> None \<longleftrightarrow>
       (\<exists>s rec. map_of (rg_sessions rg) s = Some rec \<and> record_live rg now rec \<and> wr_accepting_new_work rec \<and> a \<in> set (wr_capabilities rec))) \<and>
     (case find_eligible_worker_for_activity a now rg of None \<Rightarrow> True
      | Some sn \<Rightarrow> sn_live sn \<and> sn_accepting_new_work sn \<and> a \<in> set (sn_capabilities sn) \<and>
          sn_session_id sn \<notin> set (find_lost_sessions now rg) \<and> get_snapshot (sn_session_id sn) now rg = Some sn)"
proof (cases "find_eligible_worker_for_activity a now rg")
  case None
  with registry.eligible_none [OF assms None] show ?thesis by auto
next
  case (Some sn)
  from Some obtain rec where rec: "find (\<lambda>rec. record_live rg now rec \<and> wr_accepting_new_work rec \<and> a \<in> set (wr_capabilities rec))
      (map snd (rg_sessions rg)) = Some rec" "sn = snapshot_of True rec"
    by (auto simp: find_eligible_worker_for_activity_def split: option.splits)
  from find_SomeD [OF rec(1)] registry_record [OF assms, of rec]
  have "map_of (rg_sessions rg) (wr_session_id rec) = Some rec" "record_live rg now rec" "wr_accepting_new_work rec"
    "a \<in> set (wr_capabilities rec)" by auto
  with Some rec(2) registry.eligible_not_lost [OF assms Some] show ?thesis
    by (auto simp: snapshot_of_def get_snapshot_def)
qed

definition sample_session :: worker_session_record where
  "sample_session = \<lparr>wr_session_id = 31, wr_worker_id = ''w1'', wr_capabilities = [ActivityType ''act''],
     wr_registered_at_monotonic = 0, wr_last_heartbeat_monotonic = 0, wr_last_heartbeat_utc = 0, wr_accepting_new_work = True\<rparr>"

definition sample_registry :: "'i worker_registry" where
  "sample_registry = \<lparr>rg_liveness_timeout = 15000000, rg_sessions = [(31, sample_session)], rg_delivery_queues = [(31, [])]\<rparr>"

lemma sample_registry_ok: "registry_ok sample_registry"
  by (simp add: registry_ok_def sample_registry_def sample_session_def)

theorem routing_exact_witness:
  "find_eligible_worker_for_activity (ActivityType ''act'') 5 (sample_registry :: nat worker_registry) = Some (snapshot_of True sample_session) \<and>
   31 \<notin> set (find_lost_sessions 5 (sample_registry :: nat worker_registry))"
proof
  show f: "find_eligible_worker_for_activity (ActivityType ''act'') 5 (sample_registry :: nat worker_registry) = Some (snapshot_of True sample_session)"
    by code_simp
  have i: "sn_session_id (snapshot_of True sample_session) = 31" by (simp add: snapshot_of_def sample_session_def)
  have "sn_session_id (snapshot_of True sample_session) \<notin> set (find_lost_sessions 5 (sample_registry :: nat worker_registry))"
    using conjunct2 [OF routing_exact [where rg = "sample_registry :: nat worker_registry" and a = "ActivityType ''act''" and now = 5,
        OF sample_registry_ok], unfolded f option.case]
    by blast
  then show "31 \<notin> set (find_lost_sessions 5 (sample_registry :: nat worker_registry))" unfolding i .
qed

text \<open>
  Delivery is first in, first out per session: polling a registered session as often as it has
  items gives its backlog and then everything delivered to it since, in order.
\<close>

theorem delivery_first_in_first_out:
  assumes "registry_ok rg" and "map_of (rg_delivery_queues rg) s = Some q"
  shows "registry.poll_many s (length q + length items) (registry.deliver_all s items rg) = map Some (q @ items)"
  by (rule registry.first_in_first_out [OF assms])

theorem delivery_first_in_first_out_witness:
  "registry.poll_many 31 2 (registry.deliver_all 31 [7, 8] sample_registry) = [Some (7 :: nat), Some 8]"
  using delivery_first_in_first_out [OF sample_registry_ok, of 31 "[]" "[7, 8 :: nat]"]
  by (simp add: sample_registry_def numeral_2_eq_2)

end
