(* ===== verification/Service_Process.thy ===== *)
theory Service_Process
  imports Static_Tables Worker_Registry
begin

text \<open>
  How the service runs: a coroutine reads and commits through database sessions, asks the worker
  registry, reads clocks and draws UUIDs. At every await point other coroutines and processes may
  run; what they do to the store and to the registry is a parameter of the model, as are the
  readings of the clocks and the UUIDs drawn, each indexed by the number of events so far. An
  exception ends the coroutine but keeps what it committed before.
\<close>

section \<open>Deliveries\<close>

text \<open>The two dictionaries the scheduler puts into a worker's queue.\<close>

record assignment_payload =
  ap_attempt_id :: string
  ap_attempt_ordinal :: int
  ap_task_execution_id :: string
  ap_workflow_execution_id :: string
  ap_worker_session_id :: string
  ap_activity_type :: string
  ap_stable_input :: pyval
  ap_start_deadline_utc :: string

record cancellation_payload =
  cp_attempt_id :: string
  cp_worker_session_id :: string
  cp_task_execution_id :: string
  cp_workflow_execution_id :: string
  cp_reason :: string

datatype delivery = Assignment assignment_payload | CancelCommand cancellation_payload

section \<open>The world and the environment\<close>

record world =
  w_db :: db
  w_registry :: "delivery worker_registry"
  w_events :: nat

record environment =
  env_db :: "nat \<Rightarrow> db \<Rightarrow> db"
  env_registry :: "nat \<Rightarrow> delivery worker_registry \<Rightarrow> delivery worker_registry"
  env_clock :: "nat \<Rightarrow> datetime"
  env_monotonic :: "nat \<Rightarrow> int"
  env_uuid :: "nat \<Rightarrow> uuid"

type_synonym ('e, 'a) proc_raising = "environment \<Rightarrow> world \<Rightarrow> ('e + 'a) \<times> world"
type_synonym 'a proc = "(py_exn, 'a) proc_raising"

definition await_others :: "environment \<Rightarrow> world \<Rightarrow> world" where
  "await_others E w = w\<lparr>w_db := env_db E (w_events w) (w_db w),
     w_registry := env_registry E (w_events w) (w_registry w), w_events := Suc (w_events w)\<rparr>"

definition returnP :: "'a \<Rightarrow> ('e, 'a) proc_raising" where
  "returnP x E w = (Inr x, w)"

definition raiseP :: "'e \<Rightarrow> ('e, 'a) proc_raising" where
  "raiseP e E w = (Inl e, w)"

definition liftP :: "'e + 'a \<Rightarrow> ('e, 'a) proc_raising" where
  "liftP m E w = (m, w)"

definition bindP :: "('e, 'a) proc_raising \<Rightarrow> ('a \<Rightarrow> ('e, 'b) proc_raising) \<Rightarrow> ('e, 'b) proc_raising" where
  "bindP m k E w = (case m E w of (Inl e, w') \<Rightarrow> (Inl e, w') | (Inr x, w') \<Rightarrow> k x E w')"

text \<open>A select in a session of its own, or between the statements of one.\<close>

definition selectP :: "(db \<Rightarrow> 'a) \<Rightarrow> ('e, 'a) proc_raising" where
  "selectP q E w = (let w' = await_others E w in (Inr (q (w_db w')), w'))"

text \<open>A transaction: its statements take effect together, or not at all when it raises.\<close>

definition transactP :: "(db \<Rightarrow> 'e + db \<times> 'a) \<Rightarrow> ('e, 'a) proc_raising" where
  "transactP tx E w =
     (let w' = await_others E w in
      case tx (w_db w') of
        Inl e \<Rightarrow> (Inl e, w')
      | Inr (s, x) \<Rightarrow> (Inr x, w'\<lparr>w_db := s\<rparr>))"

definition registryP :: "(delivery worker_registry \<Rightarrow> 'a \<times> delivery worker_registry) \<Rightarrow> ('e, 'a) proc_raising" where
  "registryP f E w =
     (let w' = await_others E w in case f (w_registry w') of (x, r) \<Rightarrow> (Inr x, w'\<lparr>w_registry := r\<rparr>))"

definition clockP :: "('e, datetime) proc_raising" where
  "clockP E w = (Inr (env_clock E (w_events w)), w\<lparr>w_events := Suc (w_events w)\<rparr>)"

definition monotonicP :: "('e, int) proc_raising" where
  "monotonicP E w = (Inr (env_monotonic E (w_events w)), w\<lparr>w_events := Suc (w_events w)\<rparr>)"

definition uuidP :: "('e, uuid) proc_raising" where
  "uuidP E w = (Inr (env_uuid E (w_events w)), w\<lparr>w_events := Suc (w_events w)\<rparr>)"

text \<open>A transaction that writes a history entry draws its identifier.\<close>

definition commitP :: "(history_entry_id \<Rightarrow> db \<Rightarrow> 'e + db \<times> 'a) \<Rightarrow> ('e, 'a) proc_raising" where
  "commitP tx = bindP uuidP (\<lambda>hid. transactP (tx hid))"

text \<open>A loop over rows that were read before it.\<close>

fun forP :: "('a \<Rightarrow> ('e, unit) proc_raising) \<Rightarrow> 'a list \<Rightarrow> ('e, unit) proc_raising" where
  "forP f [] = returnP ()"
| "forP f (x # xs) = bindP (f x) (\<lambda>_. forP f xs)"

text \<open>A loop that counts.\<close>

fun countP :: "('a \<Rightarrow> ('e, int) proc_raising) \<Rightarrow> 'a list \<Rightarrow> ('e, int) proc_raising" where
  "countP f [] = returnP 0"
| "countP f (x # xs) = bindP (f x) (\<lambda>n. bindP (countP f xs) (\<lambda>m. returnP (n + m)))"

section \<open>What others may do\<close>

text \<open>Whatever runs meanwhile, it changes the store by transactions only.\<close>

definition others_transact :: "environment \<Rightarrow> bool" where
  "others_transact E \<longleftrightarrow> (\<forall>n s. reachable s \<longrightarrow> db_steps s (env_db E n s))"

definition moves_by_steps :: "('e, 'a) proc_raising \<Rightarrow> bool" where
  "moves_by_steps m \<longleftrightarrow> (\<forall>E w. others_transact E \<longrightarrow> reachable (w_db w) \<longrightarrow> db_steps (w_db w) (w_db (snd (m E w))))"

named_theorems moves "coroutines change the store by transactions only"

lemma moves_returnP [moves]: "moves_by_steps (returnP x)"
  by (simp add: moves_by_steps_def returnP_def)

lemma moves_raiseP [moves]: "moves_by_steps (raiseP e)"
  by (simp add: moves_by_steps_def raiseP_def)

lemma moves_liftP [moves]: "moves_by_steps (liftP m)"
  by (simp add: moves_by_steps_def liftP_def)

lemma moves_draws [moves]: "moves_by_steps clockP" "moves_by_steps monotonicP" "moves_by_steps uuidP"
  by (simp_all add: moves_by_steps_def clockP_def monotonicP_def uuidP_def)

lemma moves_bindP [moves]:
  assumes "moves_by_steps m" and "\<And>x. moves_by_steps (k x)"
  shows "moves_by_steps (bindP m k)"
  unfolding moves_by_steps_def
proof (intro allI impI)
  fix E and w :: world
  assume E: "others_transact E" and r: "reachable (w_db w)"
  obtain x w' where m: "m E w = (x, w')" by (cases "m E w")
  have s: "db_steps (w_db w) (w_db w')" using assms(1) E r m unfolding moves_by_steps_def by (metis snd_conv)
  show "db_steps (w_db w) (w_db (snd (bindP m k E w)))"
  proof (cases x)
    case (Inr y)
    have "db_steps (w_db w') (w_db (snd (k y E w')))"
      using assms(2) E reachable_steps [OF r s] unfolding moves_by_steps_def by blast
    with s m Inr show ?thesis by (simp add: bindP_def)
  qed (use s m in \<open>simp add: bindP_def\<close>)
qed

lemma moves_selectP [moves]: "moves_by_steps (selectP q)"
  by (simp add: moves_by_steps_def selectP_def await_others_def others_transact_def)

lemma moves_registryP [moves]: "moves_by_steps (registryP f)"
  by (auto simp: moves_by_steps_def registryP_def await_others_def others_transact_def split: prod.split)

lemma moves_transactP:
  assumes "\<And>s s' x. tx s = Inr (s', x) \<Longrightarrow> db_step s s'"
  shows "moves_by_steps (transactP tx)"
  unfolding moves_by_steps_def
proof (intro allI impI)
  fix E and w :: world
  assume "others_transact E" and "reachable (w_db w)"
  then have s: "db_steps (w_db w) (w_db (await_others E w))" by (simp add: await_others_def others_transact_def)
  show "db_steps (w_db w) (w_db (snd (transactP tx E w)))"
  proof (cases "tx (w_db (await_others E w))")
    case (Inr r)
    obtain s' x where "r = (s', x)" by (cases r)
    with assms Inr s show ?thesis by (simp add: transactP_def rtranclp.rtrancl_into_rtrancl)
  qed (use s in \<open>simp add: transactP_def\<close>)
qed

lemma moves_commitP:
  assumes "\<And>hid s s' x. tx hid s = Inr (s', x) \<Longrightarrow> db_step s s'"
  shows "moves_by_steps (commitP tx)"
  unfolding commitP_def by (intro moves_bindP moves_draws moves_transactP) (rule assms)

lemma moves_forP [moves]: "(\<And>x. moves_by_steps (f x)) \<Longrightarrow> moves_by_steps (forP f xs)"
  by (induction xs) (auto intro: moves)

lemma moves_countP [moves]: "(\<And>x. moves_by_steps (f x)) \<Longrightarrow> moves_by_steps (countP f xs)"
  by (induction xs) (auto intro: moves)

lemma moves_if [moves]: "moves_by_steps m \<Longrightarrow> moves_by_steps m' \<Longrightarrow> moves_by_steps (if c then m else m')"
  by simp

lemma moves_option [moves]:
  "moves_by_steps m \<Longrightarrow> (\<And>x. y = Some x \<Longrightarrow> moves_by_steps (k x)) \<Longrightarrow> moves_by_steps (case y of None \<Rightarrow> m | Some x \<Rightarrow> k x)"
  by (cases y) simp_all

lemma moves_prod [moves]: "(\<And>x y. moves_by_steps (k x y)) \<Longrightarrow> moves_by_steps (case p of (x, y) \<Rightarrow> k x y)"
  by (cases p) simp

end
