(* ===== verification/Scheduler.thy ===== *)
theory Scheduler
  imports Service_Process Readiness
begin

text \<open>
  The transition-driven scheduler, \<open>src/nexusflow/orchestration/scheduler.py\<close>: draining,
  readiness, dispatch, success and the sweeps, each as the code runs it: rows are read first, the
  decision is taken on what was read, and each transaction carries the revisions read. The
  logging and metrics calls have no effect on the state and are left out.
\<close>

section \<open>Queries\<close>

text \<open>Attempts of a workflow's tasks that are still active.\<close>

definition active_attempts_of :: "workflow_execution_id \<Rightarrow> db \<Rightarrow> attempt_row list" where
  "active_attempts_of w s = filter (\<lambda>a. as_active (ax_state a) \<and>
     list_ex (\<lambda>t. tx_id t = ax_task_id a \<and> tx_workflow_id t = w) (db_tasks s)) (db_attempts s)"

text \<open>Attempts joined with their task, the first fifty (\<open>limit(50)\<close>).\<close>

definition attempts_with_tasks :: "(attempt_row \<Rightarrow> bool) \<Rightarrow> db \<Rightarrow> (attempt_row \<times> task_row) list" where
  "attempts_with_tasks P s = take 50 (concat (map (\<lambda>a.
     map (Pair a) (filter (\<lambda>t. tx_id t = ax_task_id a) (db_tasks s))) (filter P (db_attempts s))))"

definition stored_document :: "definition_id \<Rightarrow> db \<Rightarrow> pyval option" where
  "stored_document d s = (case get_definition s d of None \<Rightarrow> None | Some r \<Rightarrow> dr_validated_iws r)"

section \<open>Draining a workflow\<close>

definition queue_cancellation :: "workflow_row \<Rightarrow> attempt_row \<Rightarrow> unit proc" where
  "queue_cancellation wf_row att = bindP (registryP (queue_delivery (ax_worker_session_id att)
     (CancelCommand \<lparr>cp_attempt_id = uuid_str (ax_id att),
        cp_worker_session_id = uuid_str (ax_worker_session_id att),
        cp_task_execution_id = uuid_str (ax_task_id att),
        cp_workflow_execution_id = uuid_str (wx_id wf_row),
        cp_reason = ''Workflow '' @ py_lower (workflow_state_str (wx_state wf_row))\<rparr>))) (\<lambda>_. returnP ())"

definition drain_attempt :: "workflow_row \<Rightarrow> datetime \<Rightarrow> attempt_row \<Rightarrow> unit proc" where
  "drain_attempt wf_row now_utc att =
     (case ax_cancellation_deadline_utc att of
        Some deadline \<Rightarrow>
          if deadline \<le> now_utc then
            bindP (selectP (\<lambda>s. get_task s (ax_task_id att))) (\<lambda>task. case task of
              None \<Rightarrow> returnP ()
            | Some t \<Rightarrow>
                if tx_state t = TS_RUNNING then
                  bindP (commitP (\<lambda>hid. commit_internal_cancellation_deadline hid (ax_id att) (ax_revision att)
                           (ax_task_id att) (tx_revision t) now_utc)) (\<lambda>_. returnP ())
                else returnP ())
          else returnP ()
      | None \<Rightarrow>
          bindP (transactP (\<lambda>s. bindE (set_cancellation_deadline (ax_id att) (now_utc + timedelta_seconds 10) s)
                                  (\<lambda>s'. Inr (s', ())))) (\<lambda>_.
          queue_cancellation wf_row att))"

definition terminalize_drained :: "workflow_execution_id \<Rightarrow> datetime \<Rightarrow> unit proc" where
  "terminalize_drained workflow_id now_utc =
     bindP (selectP (\<lambda>s. tasks_of s workflow_id)) (\<lambda>updated_tasks.
     if list_all (\<lambda>t. ts_terminal (tx_state t)) updated_tasks then
       bindP (selectP (\<lambda>s. get_workflow s workflow_id)) (\<lambda>current_wf. case current_wf of
         None \<Rightarrow> returnP ()
       | Some current \<Rightarrow>
           if wx_state current = WF_FAILING then
             bindP (commitP (\<lambda>hid. commit_workflow_failure hid workflow_id (wx_revision current) now_utc)) (\<lambda>_. returnP ())
           else if wx_state current = WF_CANCELLING then
             bindP (commitP (\<lambda>hid. commit_workflow_cancellation hid workflow_id (wx_revision current) now_utc)) (\<lambda>_. returnP ())
           else returnP ())
     else returnP ())"

definition drain_workflow :: "workflow_execution_id \<Rightarrow> unit proc" where
  "drain_workflow workflow_id =
     bindP (selectP (\<lambda>s. get_workflow s workflow_id)) (\<lambda>wf. case wf of
       None \<Rightarrow> returnP ()
     | Some wf_row \<Rightarrow>
         if \<not> wf_draining (wx_state wf_row) then returnP ()
         else
           bindP (selectP (\<lambda>s. tasks_of s workflow_id)) (\<lambda>task_rows.
           bindP clockP (\<lambda>now_utc.
           bindP (forP (\<lambda>t. bindP (commitP (\<lambda>hid. commit_drain_task_cancellation hid (tx_id t) (tx_revision t) now_utc))
                              (\<lambda>_. returnP ()))
                    (filter (\<lambda>t. ts_unstarted (tx_state t)) task_rows)) (\<lambda>_.
           bindP (selectP (active_attempts_of workflow_id)) (\<lambda>active_attempts.
           bindP (forP (drain_attempt wf_row now_utc) active_attempts) (\<lambda>_.
           terminalize_drained workflow_id now_utc))))))"

section \<open>Success of a workflow\<close>

text \<open>\<open>task_outputs[TaskDefinitionId(...)] = freeze_json(...) if has_output else None\<close>.\<close>

fun collect_task_outputs :: "task_row list \<Rightarrow> (task_definition_id, pyval) dict \<Rightarrow> py_exn + (task_definition_id, pyval) dict" where
  "collect_task_outputs [] acc = Inr acc"
| "collect_task_outputs (r # rows) acc =
     bindE (mk_TaskDefinitionId (tx_task_definition_id r)) (\<lambda>t_id.
     bindE (if tx_has_output r then freeze_json (column_value (tx_output r)) else Inr PyNone) (\<lambda>v.
     collect_task_outputs rows (dict_set t_id v acc)))"

definition try_succeed_workflow :: "workflow_row \<Rightarrow> validated_workflow_spec \<Rightarrow> task_row list \<Rightarrow> unit proc" where
  "try_succeed_workflow wf_row spec task_rows =
     bindP (liftP (collect_task_outputs task_rows [])) (\<lambda>task_outputs.
     bindP (liftP (resolve_workflow_outputs (map (\<lambda>(n, b). (n, OutTask b)) (vs_output_bindings spec)) task_outputs))
       (\<lambda>resolved_output.
     bindP clockP (\<lambda>now_utc.
     bindP (commitP (\<lambda>hid. commit_workflow_success hid (wx_id wf_row) (wx_revision wf_row) resolved_output now_utc))
       (\<lambda>_. returnP ()))))"

section \<open>Readiness of a task\<close>

text \<open>
  The snapshot of the upstream tasks; \<open>None\<close> when a dependency has no row, and then the task is
  skipped.
\<close>

fun dependency_snapshots ::
  "(string, task_row) dict \<Rightarrow> task_definition_id list
    \<Rightarrow> py_exn + (task_definition_id, dependency_state_snapshot) dict option" where
  "dependency_snapshots tasks_by_def_id [] = Inr (Some [])"
| "dependency_snapshots tasks_by_def_id (dep_id # deps) =
     (case map_of tasks_by_def_id (tdid_value dep_id) of
        None \<Rightarrow> Inr None
      | Some dep_row \<Rightarrow>
          bindE (if tx_has_output dep_row then freeze_json (column_value (tx_output dep_row)) else Inr PyNone) (\<lambda>v.
          bindE (dependency_snapshots tasks_by_def_id deps) (\<lambda>rest. case rest of
            None \<Rightarrow> Inr None
          | Some ds \<Rightarrow> Inr (Some ((dep_id, \<lparr>ds_task_definition_id = dep_id, ds_state = tx_state dep_row,
                                            ds_has_output = tx_has_output dep_row, ds_output_value = v\<rparr>) # ds)))))"

definition readiness_snapshot ::
  "workflow_row \<Rightarrow> pyval \<Rightarrow> task_row \<Rightarrow> task_definition_id \<Rightarrow> task_definition
    \<Rightarrow> (task_definition_id, dependency_state_snapshot) dict \<Rightarrow> task_readiness_snapshot" where
  "readiness_snapshot wf_row workflow_input task_row t_def_id task_def dep_snapshots =
     \<lparr>rs_workflow_id = wx_id wf_row, rs_workflow_state = wx_state wf_row, rs_workflow_input = workflow_input,
      rs_task_id = tx_id task_row, rs_task_definition_id = t_def_id, rs_task_state = tx_state task_row,
      rs_task_revision = tx_revision task_row, rs_task_definition = task_def,
      rs_upstream_dependencies = dep_snapshots\<rparr>"

definition evaluate_and_promote_task ::
  "workflow_row \<Rightarrow> validated_workflow_spec \<Rightarrow> (string, task_row) dict \<Rightarrow> task_row \<Rightarrow> unit proc" where
  "evaluate_and_promote_task wf_row spec tasks_by_def_id task_row =
     bindP (liftP (mk_TaskDefinitionId (tx_task_definition_id task_row))) (\<lambda>t_def_id.
     case map_of (vs_tasks spec) t_def_id of
       None \<Rightarrow> returnP ()
     | Some task_def \<Rightarrow>
         bindP (liftP (dependency_snapshots tasks_by_def_id (td_dependencies task_def))) (\<lambda>deps. case deps of
           None \<Rightarrow> returnP ()
         | Some dep_snapshots \<Rightarrow>
             bindP (liftP (freeze_json (column_value (wx_input wf_row)))) (\<lambda>workflow_input.
             let decision = evaluate_task_readiness
                   (readiness_snapshot wf_row workflow_input task_row t_def_id task_def dep_snapshots) in
             if \<not> rd_ready decision then returnP ()
             else case rd_resolved_input decision of
               None \<Rightarrow> returnP ()
             | Some resolved_input \<Rightarrow>
                 bindP clockP (\<lambda>now_utc.
                 bindP (commitP (\<lambda>hid. commit_task_readiness hid (tx_id task_row) (tx_revision task_row)
                          (wx_id wf_row) resolved_input now_utc)) (\<lambda>_. returnP ())))))"

section \<open>Dispatch\<close>

text \<open>\<open>task_row.stable_input or {}\<close>: a value Python counts as false becomes the empty mapping.\<close>

definition py_falsy :: "pyval \<Rightarrow> bool" where
  "py_falsy v = (v \<in> {PyNone, PyBool False, PyInt 0, PyFloat (FFinite 0), PyStr [], PyList [], PyTuple [], PyDict [], PyProxy []})"

definition or_empty :: "pyval \<Rightarrow> pyval" where
  "or_empty v = (if py_falsy v then PyDict [] else v)"

definition assignment_for ::
  "attempt_id \<Rightarrow> int \<Rightarrow> task_row \<Rightarrow> workflow_execution_id \<Rightarrow> worker_session_id \<Rightarrow> task_definition \<Rightarrow> datetime \<Rightarrow> delivery" where
  "assignment_for attempt_id ordinal task_row workflow_id session_id task_def start_deadline =
     Assignment \<lparr>ap_attempt_id = uuid_str attempt_id, ap_attempt_ordinal = ordinal,
       ap_task_execution_id = uuid_str (tx_id task_row), ap_workflow_execution_id = uuid_str workflow_id,
       ap_worker_session_id = uuid_str session_id, ap_activity_type = act_name (td_activity_type task_def),
       ap_stable_input = or_empty (column_value (tx_stable_input task_row)),
       ap_start_deadline_utc = isoformat start_deadline\<rparr>"

definition dispatch_task :: "datetime \<Rightarrow> workflow_execution_id \<Rightarrow> validated_workflow_spec \<Rightarrow> task_row \<Rightarrow> unit proc" where
  "dispatch_task start_deadline_interval workflow_id spec task_row =
     bindP (liftP (mk_TaskDefinitionId (tx_task_definition_id task_row))) (\<lambda>t_def_id.
     case map_of (vs_tasks spec) t_def_id of
       None \<Rightarrow> returnP ()
     | Some task_def \<Rightarrow>
         bindP monotonicP (\<lambda>now_monotonic.
         bindP (registryP (\<lambda>rg. (find_eligible_worker_for_activity (td_activity_type task_def) now_monotonic rg, rg)))
           (\<lambda>worker. case worker of
             None \<Rightarrow> returnP ()
           | Some snapshot \<Rightarrow>
               bindP clockP (\<lambda>now_utc.
               bindP uuidP (\<lambda>attempt_id.
               bindP (commitP (\<lambda>hid. commit_attempt_ownership hid (tx_id task_row) (tx_revision task_row) workflow_id
                        (sn_session_id snapshot) attempt_id (now_utc + start_deadline_interval) now_utc))
                 (\<lambda>(outcome, ordinal).
                   if co_status outcome = COMMITTED then
                     (case ordinal of
                        None \<Rightarrow> returnP ()
                      | Some n \<Rightarrow>
                          bindP (registryP (queue_delivery (sn_session_id snapshot)
                            (assignment_for attempt_id n task_row workflow_id (sn_session_id snapshot) task_def
                               (now_utc + start_deadline_interval)))) (\<lambda>_. returnP ()))
                   else returnP ()))))))"

definition dispatch_runnable_tasks :: "datetime \<Rightarrow> workflow_execution_id \<Rightarrow> validated_workflow_spec \<Rightarrow> unit proc" where
  "dispatch_runnable_tasks start_deadline_interval workflow_id spec =
     bindP (selectP (\<lambda>s. filter (\<lambda>t. tx_state t = TS_RUNNABLE) (tasks_of s workflow_id)))
       (forP (dispatch_task start_deadline_interval workflow_id spec))"

section \<open>Advancing a workflow\<close>

definition promote_due_retry :: "workflow_execution_id \<Rightarrow> datetime \<Rightarrow> task_row \<Rightarrow> unit proc" where
  "promote_due_retry workflow_id now_utc task_row =
     (if tx_state task_row = TS_RETRY_WAIT \<and>
         (case tx_retry_ready_at_utc task_row of None \<Rightarrow> False | Some t \<Rightarrow> t \<le> now_utc)
      then bindP (commitP (\<lambda>hid. commit_retry_ready hid (tx_id task_row) (tx_revision task_row) workflow_id now_utc))
             (\<lambda>_. returnP ())
      else returnP ())"

definition advance_workflow :: "datetime \<Rightarrow> workflow_execution_id \<Rightarrow> unit proc" where
  "advance_workflow start_deadline_interval workflow_id =
     bindP (selectP (\<lambda>s. get_workflow s workflow_id)) (\<lambda>wf. case wf of
       None \<Rightarrow> returnP ()
     | Some wf_row \<Rightarrow>
         if wf_draining (wx_state wf_row) then drain_workflow workflow_id
         else if wx_state wf_row \<noteq> WF_RUNNING then returnP ()
         else
           bindP (selectP (stored_document (wx_definition_id wf_row))) (\<lambda>def_row. case def_row of
             None \<Rightarrow> returnP ()
           | Some doc \<Rightarrow>
               bindP (liftP (deserialize_validated_spec doc)) (\<lambda>spec.
               bindP (selectP (\<lambda>s. tasks_of s workflow_id)) (\<lambda>task_rows.
               let tasks_by_def_id = fold (\<lambda>r. dict_set (tx_task_definition_id r) r) task_rows [] in
               if length task_rows = length (vs_tasks spec) \<and> list_all (\<lambda>r. tx_state r = TS_SUCCEEDED) task_rows
               then try_succeed_workflow wf_row spec task_rows
               else
                 bindP clockP (\<lambda>now_utc.
                 bindP (forP (promote_due_retry workflow_id now_utc) task_rows) (\<lambda>_.
                 bindP (forP (evaluate_and_promote_task wf_row spec tasks_by_def_id)
                          (filter (\<lambda>r. tx_state r = TS_PENDING) task_rows)) (\<lambda>_.
                 dispatch_runnable_tasks start_deadline_interval workflow_id spec)))))))"

section \<open>Sweeps\<close>

text \<open>
  The block the three sweeps share: settle the attempt, and when its task failed for good, turn
  the workflow to \<open>FAILING\<close> and drain it. The result is 1 when the settlement committed.
\<close>

definition settle_swept_attempt ::
  "failure_cause \<Rightarrow> datetime \<Rightarrow> (attempt_row \<Rightarrow> worker_session_id option) \<Rightarrow> attempt_row \<times> task_row \<Rightarrow> int proc" where
  "settle_swept_attempt cause now_utc lost = (\<lambda>(att, task).
     bindP (commitP (\<lambda>hid. commit_internal_attempt_failure hid (ax_id att) (ax_revision att) (tx_id task)
              (tx_revision task) cause True (Some (now_utc + timedelta_seconds 5)) (lost att) now_utc))
       (\<lambda>(outcome, wf_id, new_state).
         if co_status outcome = COMMITTED then
           (case wf_id of
              None \<Rightarrow> returnP 0
            | Some w \<Rightarrow>
                if new_state = ''FAILED'' then
                  bindP (commitP (\<lambda>hid. commit_workflow_failure_direction hid w cause now_utc)) (\<lambda>_.
                  bindP (drain_workflow w) (\<lambda>_. returnP 1))
                else returnP 1)
         else returnP 0))"

definition start_deadline_cause :: failure_cause where
  "start_deadline_cause = \<lparr>fc_category = TIME_BASED, fc_code = ''START_DEADLINE_EXPIRED'',
     fc_message = ''Worker did not acknowledge start before start_deadline_utc'', fc_details = None\<rparr>"

definition execution_timeout_cause :: failure_cause where
  "execution_timeout_cause = \<lparr>fc_category = TIME_BASED, fc_code = ''EXECUTION_TIMEOUT'',
     fc_message = ''Activity execution exceeded configured execution timeout'', fc_details = None\<rparr>"

definition worker_loss_cause :: failure_cause where
  "worker_loss_cause = \<lparr>fc_category = WORKER_AVAILABILITY, fc_code = ''WORKER_LOSS'',
     fc_message = ''Worker session heartbeat timed out / lost'', fc_details = None\<rparr>"

definition sweep_timeouts_and_deadlines :: "int proc" where
  "sweep_timeouts_and_deadlines =
     bindP clockP (\<lambda>now_utc.
     bindP (selectP (attempts_with_tasks (\<lambda>a. ax_state a = AS_CLAIMED \<and> ax_start_deadline_utc a \<le> now_utc)))
       (\<lambda>expired_claims.
     bindP (countP (settle_swept_attempt start_deadline_cause now_utc (\<lambda>_. None)) expired_claims) (\<lambda>n.
     bindP (selectP (attempts_with_tasks (\<lambda>a. ax_state a = AS_RUNNING \<and>
              (case ax_execution_timeout_utc a of None \<Rightarrow> False | Some t \<Rightarrow> t \<le> now_utc)))) (\<lambda>expired_timeouts.
     bindP (countP (settle_swept_attempt execution_timeout_cause now_utc (\<lambda>_. None)) expired_timeouts) (\<lambda>m.
     returnP (n + m))))))"

definition sweep_worker_loss :: "int proc" where
  "sweep_worker_loss =
     bindP clockP (\<lambda>now_utc.
     bindP monotonicP (\<lambda>now_monotonic.
     bindP (registryP (\<lambda>rg. (find_lost_sessions now_monotonic rg, rg))) (\<lambda>lost_sessions.
     if lost_sessions = [] then returnP 0
     else
       bindP (selectP (attempts_with_tasks (\<lambda>a. ax_worker_session_id a \<in> set lost_sessions \<and> as_active (ax_state a))))
         (\<lambda>orphan_attempts.
       countP (settle_swept_attempt worker_loss_cause now_utc (\<lambda>a. Some (ax_worker_session_id a))) orphan_attempts))))"

section \<open>The scheduler changes the store by transactions only\<close>

lemma moves_commits [moves]:
  "moves_by_steps (commitP (\<lambda>hid. commit_attempt_ownership hid t rv w ws a dl now))"
  "moves_by_steps (commitP (\<lambda>hid. commit_retry_ready hid t rv w now))"
  "moves_by_steps (commitP (\<lambda>hid. commit_workflow_success hid w rv v now))"
  "moves_by_steps (commitP (\<lambda>hid. commit_workflow_failure hid w rv now))"
  "moves_by_steps (commitP (\<lambda>hid. commit_workflow_cancellation hid w rv now))"
  "moves_by_steps (commitP (\<lambda>hid. commit_drain_task_cancellation hid t rv now))"
  "moves_by_steps (commitP (\<lambda>hid. commit_internal_cancellation_deadline hid a arv t rv now))"
  "moves_by_steps (commitP (\<lambda>hid. commit_workflow_failure_direction hid w cause now))"
  by (rule moves_commitP, erule step_claim step_retry_ready step_succeeded step_failed step_cancelled step_drain_task
        step_cancel_deadline step_failing)+

text \<open>A ready task's resolved input is a mapping, as the transaction expects.\<close>

lemma resolved_input_object:
  "rd_resolved_input (evaluate_task_readiness snap) = Some v \<Longrightarrow> json_object v"
  by (auto simp: evaluate_task_readiness_def json_object_def dest: check_dependencies_Some resolve_bindings_Inl_input
      split: option.splits sum.splits if_splits)

lemma moves_promote_task [moves]:
  "moves_by_steps (evaluate_and_promote_task wf_row spec tasks_by_def_id task_row)"
proof -
  have "moves_by_steps (commitP (\<lambda>hid. commit_task_readiness hid t rv w v now))" if "json_object v" for t rv w v now
    by (rule moves_commitP) (rule step_ready [OF that])
  note commit = this [OF resolved_input_object]
  show ?thesis
    unfolding evaluate_and_promote_task_def Let_def
    by (intro moves; (rule commit, assumption)?)
qed

lemma moves_internal_failure:
  "internal_cause cause \<Longrightarrow>
     moves_by_steps (commitP (\<lambda>hid. commit_internal_attempt_failure hid a arv t trv cause retryable ready lost now))"
  by (rule moves_commitP) (rule step_internal_failure)

lemma moves_set_deadline [moves]:
  "moves_by_steps (transactP (\<lambda>s. bindE (set_cancellation_deadline a dl s) (\<lambda>s'. Inr (s', ()))))"
  by (rule moves_transactP) (auto simp: bindE_eq_Inr intro: step_set_deadline)

lemma moves_drain_workflow [moves]: "moves_by_steps (drain_workflow w)"
  unfolding drain_workflow_def drain_attempt_def terminalize_drained_def queue_cancellation_def
  by (intro moves)

lemma moves_advance_workflow [moves]: "moves_by_steps (advance_workflow dl w)"
  unfolding advance_workflow_def dispatch_runnable_tasks_def dispatch_task_def promote_due_retry_def
    try_succeed_workflow_def Let_def
  by (intro moves)

lemma moves_settle_swept: "internal_cause cause \<Longrightarrow> moves_by_steps (settle_swept_attempt cause now lost p)"
  unfolding settle_swept_attempt_def by (intro moves moves_internal_failure)

lemma internal_causes: "internal_cause start_deadline_cause" "internal_cause execution_timeout_cause" "internal_cause worker_loss_cause"
  by (simp_all add: internal_cause_def start_deadline_cause_def execution_timeout_cause_def worker_loss_cause_def)

lemma moves_sweeps [moves]: "moves_by_steps sweep_timeouts_and_deadlines" "moves_by_steps sweep_worker_loss"
  unfolding sweep_timeouts_and_deadlines_def sweep_worker_loss_def
  by (intro moves moves_settle_swept internal_causes)+

end
