(* ===== verification/Drain_Progress.thy ===== *)
theory Drain_Progress
  imports Scheduler Stranded
begin

text \<open>
  What the scheduler achieves when nothing else runs: a run of a coroutine in an environment whose
  other processes are idle and whose UUIDs are fresh. The result here is that draining finishes:
  a failing or cancelling workflow whose tasks were populated and none of which is running is
  settled by one call.
\<close>

section \<open>Quiet environments\<close>

definition quiet :: "environment \<Rightarrow> bool" where
  "quiet E \<longleftrightarrow> (\<forall>n s. env_db E n s = s) \<and> (\<forall>n rg. env_registry E n rg = rg)"

text \<open>The UUIDs drawn from event \<open>n\<close> on are distinct and not yet in the history.\<close>

definition fresh_uuids :: "environment \<Rightarrow> world \<Rightarrow> bool" where
  "fresh_uuids E w \<longleftrightarrow> inj_on (env_uuid E) {w_events w..} \<and>
     (\<forall>n \<ge> w_events w. env_uuid E n \<notin> set (map hx_id (db_history (w_db w))))"

lemma quiet_others_transact: "quiet E \<Longrightarrow> others_transact E"
  by (simp add: quiet_def others_transact_def)

lemma await_quiet: "quiet E \<Longrightarrow> await_others E w = w\<lparr>w_events := Suc (w_events w)\<rparr>"
  by (simp add: await_others_def quiet_def)

lemma selectP_quiet: "quiet E \<Longrightarrow> selectP q E w = (Inr (q (w_db w)), w\<lparr>w_events := Suc (w_events w)\<rparr>)"
  by (simp add: selectP_def await_quiet)

lemma commitP_quiet:
  "quiet E \<Longrightarrow> commitP tx E w = (case tx (env_uuid E (w_events w)) (w_db w) of
       Inl e \<Rightarrow> (Inl e, w\<lparr>w_events := Suc (Suc (w_events w))\<rparr>)
     | Inr (s, x) \<Rightarrow> (Inr x, w\<lparr>w_db := s, w_events := Suc (Suc (w_events w))\<rparr>))"
  by (simp add: commitP_def bindP_def uuidP_def transactP_def await_quiet split: sum.split)

lemma bindP_Inr: "m E w = (Inr x, w') \<Longrightarrow> bindP m k E w = k x E w'"
  by (simp add: bindP_def)

lemma bindP_Inl: "m E w = (Inl e, w') \<Longrightarrow> bindP m k E w = (Inl e, w')"
  by (simp add: bindP_def)

lemma fresh_uuids_later:
  assumes "fresh_uuids E w" and "w_events w \<le> w_events w'" and "db_history (w_db w') = db_history (w_db w)"
  shows "fresh_uuids E w'"
  using assms by (auto simp: fresh_uuids_def intro: inj_on_subset)

lemma fresh_uuids_commit:
  assumes "fresh_uuids E w" and "w_events w < w_events w'"
    and "db_history (w_db w') = db_history (w_db w) @ [h]" and "hx_id h = env_uuid E (w_events w)"
  shows "fresh_uuids E w'"
  unfolding fresh_uuids_def
proof (intro conjI allI impI)
  show "inj_on (env_uuid E) {w_events w'..}"
    using assms(1,2) by (auto simp: fresh_uuids_def intro: inj_on_subset)
  fix n assume n: "w_events w' \<le> n"
  have "env_uuid E n \<noteq> env_uuid E (w_events w)"
    using assms(1,2) n by (auto simp: fresh_uuids_def dest: inj_onD)
  with n assms show "env_uuid E n \<notin> set (map hx_id (db_history (w_db w')))"
    by (auto simp: fresh_uuids_def)
qed

section \<open>What a drain leaves\<close>

text \<open>The tasks \<open>T\<close> are cancelled, no other row of the workflow's tables moves.\<close>

definition row_keys :: "db \<Rightarrow> (task_execution_id \<times> workflow_execution_id \<times> string) list" where
  "row_keys s = map (\<lambda>t. (tx_id t, task_key t)) (db_tasks s)"

definition drained_to :: "task_row set \<Rightarrow> db \<Rightarrow> db \<Rightarrow> bool" where
  "drained_to T s s' \<longleftrightarrow> db_workflows s' = db_workflows s \<and> db_definitions s' = db_definitions s \<and>
     row_keys s' = row_keys s \<and>
     (\<forall>r \<in> set (db_tasks s'). r \<in> set (db_tasks s) \<and> r \<notin> T \<or> tx_state r = TS_CANCELLED) \<and>
     (\<forall>r \<in> set (db_tasks s). r \<notin> T \<longrightarrow> r \<in> set (db_tasks s'))"

lemma drained_to_refl: "drained_to {} s s"
  by (simp add: drained_to_def)

lemma drained_to_trans: "drained_to T s s' \<Longrightarrow> drained_to T' s' s'' \<Longrightarrow> drained_to (T \<union> T') s s''"
  unfolding drained_to_def by auto

lemma drained_toI:
  assumes "db_workflows s' = db_workflows s" and "db_definitions s' = db_definitions s"
    and "db_tasks s' = update_rows (\<lambda>r. r = t) f (db_tasks s)" and "tx_id (f t) = tx_id t" and "task_key (f t) = task_key t"
    and "tx_state (f t) = TS_CANCELLED"
    and T: "\<And>r. r \<in> set (db_tasks s) \<Longrightarrow> r \<in> T \<longleftrightarrow> r = t"
  shows "drained_to T s s'"
proof -
  have "row_keys s' = row_keys s"
    unfolding row_keys_def assms(3) by (rule map_key_update_rows) (use assms(4,5) in simp)
  moreover have "\<forall>r \<in> set (db_tasks s'). r \<in> set (db_tasks s) \<and> r \<notin> T \<or> tx_state r = TS_CANCELLED"
    unfolding assms(3) using T assms(6) by (auto simp only: mem_update_rows split: if_splits)
  moreover have "\<forall>r \<in> set (db_tasks s). r \<notin> T \<longrightarrow> r \<in> set (db_tasks s')"
    unfolding assms(3) using T by (auto simp: mem_update_rows)
  ultimately show ?thesis using assms(1,2) by (simp only: drained_to_def simp_thms)
qed

definition drain_world :: "environment \<Rightarrow> workflow_execution_id \<Rightarrow> world \<Rightarrow> bool" where
  "drain_world E wid w \<longleftrightarrow> reachable (w_db w) \<and> fresh_uuids E w \<and>
     workflow_state_of (w_db w) wid \<in> {Some WF_FAILING, Some WF_CANCELLING}"

lemma drain_world_later:
  "drain_world E wid w \<Longrightarrow> w_db w' = w_db w \<Longrightarrow> w_events w \<le> w_events w' \<Longrightarrow> drain_world E wid w'"
  unfolding drain_world_def using fresh_uuids_later by metis

lemma drain_world_commit:
  assumes "drain_world E wid w" and "reachable (w_db w')" and "drained_to T (w_db w) (w_db w')"
    and "w_events w < w_events w'" and "db_history (w_db w') = db_history (w_db w) @ [h]" and "hx_id h = env_uuid E (w_events w)"
  shows "drain_world E wid w'"
  using assms fresh_uuids_commit [of E w w' h]
  by (simp add: drain_world_def workflow_state_of_def get_workflow_def drained_to_def)

section \<open>One cancelled task\<close>

abbreviation cancelled_row :: "datetime \<Rightarrow> task_row \<Rightarrow> task_row" where
  "cancelled_row now r \<equiv> r\<lparr>tx_state := TS_CANCELLED, tx_retry_ready_at_utc := None,
     tx_revision := tx_revision r + 1, tx_updated_at_utc := now\<rparr>"

abbreviation stopped_row :: "datetime \<Rightarrow> task_row \<Rightarrow> task_row" where
  "stopped_row now r \<equiv> r\<lparr>tx_state := TS_CANCELLED, tx_revision := tx_revision r + 1, tx_updated_at_utc := now\<rparr>"

lemma cancelled_row_ok:
  "task_row_ok t \<Longrightarrow> task_row_ok (cancelled_row now t)" "task_row_ok t \<Longrightarrow> task_row_ok (stopped_row now t)"
  by (simp_all add: task_row_ok_def)

lemma update_one_task:
  assumes "db_ok s" and "t \<in> set (db_tasks s)" and "P t" and "\<And>r. P r \<Longrightarrow> tx_id r = tx_id t"
    and "task_row_ok t \<Longrightarrow> task_row_ok (f t)"
  shows "\<exists>n. update_tasks P f s = Inr (s\<lparr>db_tasks := update_rows (\<lambda>r. r = t) f (db_tasks s)\<rparr>, n) \<and> n \<noteq> 0"
proof -
  have same: "P r \<longleftrightarrow> r = t" if "r \<in> set (db_tasks s)" for r
    using db_ok_keys(2) [OF assms(1) that assms(2)] assms(3,4) by blast
  have rows: "update_rows P f (db_tasks s) = update_rows (\<lambda>r. r = t) f (db_tasks s)"
    unfolding update_rows_def by (rule map_cong [OF refl]) (simp only: same)
  have "\<forall>r \<in> set (db_tasks s). task_row_ok r" using assms(1) by (simp add: db_ok_def list_all_iff)
  then have "list_all task_row_ok (update_rows (\<lambda>r. r = t) f (db_tasks s))"
    using assms(2,5) unfolding list_all_iff by (auto simp only: mem_update_rows split: if_splits)
  moreover have "count_rows P (db_tasks s) \<noteq> 0" using count_rows_pos [of P "db_tasks s"] same assms(2) by blast
  ultimately show ?thesis unfolding update_tasks_Inr rows by blast
qed

text \<open>A history entry about the task is accepted once its identifier is new.\<close>

lemma cancel_history_accepted:
  assumes "db_ok s" and "t \<in> set (db_tasks s)" and "tx_id (f t) = tx_id t"
    and "db_tasks s1 = update_rows (\<lambda>r. r = t) f (db_tasks s)" and "db_workflows s1 = db_workflows s"
    and "db_history s1 = db_history s" and "hid \<notin> set (map hx_id (db_history s))"
    and "case a of None \<Rightarrow> True | Some i \<Rightarrow> i \<in> set (map ax_id (db_attempts s1))"
  shows "insert_history (mk_history hid (tx_workflow_id t) (Some (tx_id t)) a cat payload now) s1 =
    Inr (s1\<lparr>db_history := db_history s @ [mk_history hid (tx_workflow_id t) (Some (tx_id t)) a cat payload now]\<rparr>)"
proof -
  have ids: "map tx_id (db_tasks s1) = map tx_id (db_tasks s)"
    unfolding assms(4) by (rule map_key_update_rows) (use assms(3) in simp)
  have "tx_workflow_id t \<in> set (map wx_id (db_workflows s))" using assms(1,2) by (auto simp: db_ok_def)
  moreover have "tx_id t \<in> set (map tx_id (db_tasks s))" using assms(2) by simp
  ultimately show ?thesis
    using assms(7,8) unfolding insert_history_Inr ids assms(5,6) mk_history_def by (simp del: set_map)
qed

text \<open>An unstarted task of a draining workflow, at the revision just read.\<close>

lemma drain_task_commits:
  assumes "reachable s" and t: "t \<in> set (db_tasks s)" "ts_unstarted (tx_state t)"
    and w: "workflow_state_of s (tx_workflow_id t) \<in> {Some WF_FAILING, Some WF_CANCELLING}"
    and hid: "hid \<notin> set (map hx_id (db_history s))"
  shows "\<exists>s' h. commit_drain_task_cancellation hid (tx_id t) (tx_revision t) now s = Inr (s', committed) \<and>
      drained_to {t} s s' \<and> db_attempts s' = db_attempts s \<and> db_history s' = db_history s @ [h] \<and> hx_id h = hid"
proof -
  note db = lifecycle_db_ok [OF reachable_lifecycle [OF assms(1)]]
  let ?P = "\<lambda>r. tx_id r = tx_id t \<and> ts_unstarted (tx_state r) \<and> tx_revision r = tx_revision t"
  let ?h = "mk_history hid (tx_workflow_id t) (Some (tx_id t)) None ''TaskExecutionCancelled''
      [(''reason'', PyStr ''Workflow draining'')] now"
  let ?s1 = "s\<lparr>db_tasks := update_rows (\<lambda>r. r = t) (cancelled_row now) (db_tasks s)\<rparr>"
  let ?s' = "?s1\<lparr>db_history := db_history s @ [?h]\<rparr>"
  obtain n where u: "update_tasks ?P (cancelled_row now) s = Inr (?s1, n)" "n \<noteq> 0"
    using update_one_task [of s t ?P "cancelled_row now"] db t cancelled_row_ok(1) by blast
  have "insert_history ?h ?s1 = Inr ?s'"
    by (rule cancel_history_accepted [OF db t(1)]) (use hid in simp_all)
  then have "commit_drain_task_cancellation hid (tx_id t) (tx_revision t) now s = Inr (?s', committed)"
    unfolding commit_drain_task_cancellation_def get_task_mem [OF db t(1)] option.case u(1)
    using t(2) w u(2) by simp
  moreover have "drained_to {t} s ?s'" by (rule drained_toI [of _ _ t "cancelled_row now"]) (simp_all add: task_key_def)
  ultimately show ?thesis by (intro exI [of _ ?s'] exI [of _ ?h]) (simp add: mk_history_def)
qed

text \<open>An active attempt of a draining workflow whose cancellation deadline has passed.\<close>

lemma cancel_active_attempt_run:
  assumes "get_task s task_id = Some t" and "workflow_state_of s (tx_workflow_id t) \<in> {Some WF_FAILING, Some WF_CANCELLING}"
    and "update_attempts (\<lambda>r. ax_id r = attempt_id \<and> extra r \<and> ax_task_id r = task_id \<and> as_active (ax_state r) \<and> ax_revision r = arv)
           (\<lambda>r. r\<lparr>ax_state := AS_CANCELLED, ax_revision := ax_revision r + 1, ax_updated_at_utc := now\<rparr>) s = Inr (s1, n)"
    and "n \<noteq> 0"
    and "update_tasks (\<lambda>r. tx_id r = task_id \<and> tx_workflow_id r = tx_workflow_id t \<and> tx_state r = TS_RUNNING \<and> tx_revision r = trv)
           (\<lambda>r. r\<lparr>tx_state := TS_CANCELLED, tx_revision := tx_revision r + 1, tx_updated_at_utc := now\<rparr>) s1 = Inr (s2, m)"
    and "m \<noteq> 0"
    and "insert_history (mk_history hid (tx_workflow_id t) (Some task_id) (Some attempt_id) category payload now) s2 = Inr s3"
  shows "cancel_active_attempt extra m1 m2 category payload hid attempt_id arv task_id trv now s =
     Inr (s3, committed, Some (tx_workflow_id t))"
  unfolding cancel_active_attempt_def assms(1) option.case Let_def assms(3)
  using assms(2,4-7) by simp

lemma cancel_deadline_commits:
  assumes r: "reachable s" and a: "a \<in> set (db_attempts s)" "as_active (ax_state a)"
    and dl: "ax_cancellation_deadline_utc a = Some dl" "dl \<le> now"
    and t: "t \<in> set (db_tasks s)" "tx_id t = ax_task_id a"
    and w: "workflow_state_of s (tx_workflow_id t) \<in> {Some WF_FAILING, Some WF_CANCELLING}"
    and hid: "hid \<notin> set (map hx_id (db_history s))"
  shows "\<exists>s' h x. commit_internal_cancellation_deadline hid (ax_id a) (ax_revision a) (ax_task_id a) (tx_revision t) now s = Inr (s', x) \<and>
      drained_to {t. tx_id t = ax_task_id a} s s' \<and> (\<forall>b \<in> set (db_attempts s). b \<noteq> a \<longrightarrow> b \<in> set (db_attempts s')) \<and>
      db_history s' = db_history s @ [h] \<and> hx_id h = hid"
proof -
  note inv = reachable_lifecycle [OF r] and db = lifecycle_db_ok [OF reachable_lifecycle [OF r]]
  have run: "tx_state t = TS_RUNNING" using active_attempt_task [OF inv a t] by simp
  define A where "A = (\<lambda>r :: attempt_row. ax_id r = ax_id a \<and> (case ax_cancellation_deadline_utc r of None \<Rightarrow> False | Some t \<Rightarrow> t \<le> now) \<and>
      ax_task_id r = tx_id t \<and> as_active (ax_state r) \<and> ax_revision r = ax_revision a)"
  define f where "f = (\<lambda>r :: attempt_row. r\<lparr>ax_state := AS_CANCELLED, ax_revision := ax_revision r + 1, ax_updated_at_utc := now\<rparr>)"
  define P where "P = (\<lambda>r :: task_row. tx_id r = tx_id t \<and> tx_workflow_id r = tx_workflow_id t \<and> tx_state r = TS_RUNNING \<and> tx_revision r = tx_revision t)"
  define s1 where "s1 = s\<lparr>db_attempts := update_rows A f (db_attempts s)\<rparr>"
  define s2 where "s2 = s1\<lparr>db_tasks := update_rows (\<lambda>r. r = t) (stopped_row now) (db_tasks s1)\<rparr>"
  let ?h = "mk_history hid (tx_workflow_id t) (Some (tx_id t)) (Some (ax_id a)) ''AttemptCancellationDeadlineExpired''
      [(''expired_at'', PyStr (isoformat now))] now"
  define s' where "s' = s2\<lparr>db_history := db_history s @ [?h]\<rparr>"
  have tabs: "db_tasks s1 = db_tasks s" "db_workflows s1 = db_workflows s" "db_history s1 = db_history s"
    "db_attempts s1 = update_rows A f (db_attempts s)" by (simp_all add: s1_def)
  have u1: "update_attempts A f s = Inr (s1, count_rows A (db_attempts s))"
    unfolding s1_def by (rule settle_attempts_succeeds [OF db]) (simp add: f_def)
  have db1: "db_ok s1" by (rule update_attempts_ok [OF db u1]) (simp add: attempt_key_def f_def)
  have n1: "count_rows A (db_attempts s) \<noteq> 0"
    using a dl t(2) count_rows_pos [of A "db_attempts s"] by (auto simp: A_def)
  have "\<exists>n. update_tasks P (stopped_row now) s1 = Inr (s2, n) \<and> n \<noteq> 0"
    unfolding s2_def by (rule update_one_task [OF db1]) (use t(1) run in \<open>simp_all add: tabs P_def cancelled_row_ok\<close>)
  then obtain n where u2: "update_tasks P (stopped_row now) s1 = Inr (s2, n)" "n \<noteq> 0" by blast
  have "map ax_id (db_attempts s1) = map ax_id (db_attempts s)"
    unfolding tabs by (rule map_key_update_rows) (simp add: f_def)
  then have "ax_id a \<in> set (map ax_id (db_attempts s2))" using a(1) by (simp add: s2_def)
  then have h: "insert_history ?h s2 = Inr s'"
    unfolding s'_def by (intro cancel_history_accepted [OF db t(1), of "stopped_row now"]) (use hid in \<open>simp_all add: s2_def tabs\<close>)
  have c: "commit_internal_cancellation_deadline hid (ax_id a) (ax_revision a) (tx_id t) (tx_revision t) now s = Inr (s', committed, Some (tx_workflow_id t))"
    unfolding commit_internal_cancellation_deadline_def
    by (rule cancel_active_attempt_run [OF get_task_mem [OF db t(1)] w u1 [unfolded A_def f_def] n1 [unfolded A_def] u2(1) [unfolded P_def] u2(2) h])
  have only: "r = t" if "r \<in> set (db_tasks s)" "tx_id r = ax_task_id a" for r
    by (rule db_ok_keys(2) [OF db that(1) t(1)]) (simp add: that(2) t(2))
  have "drained_to {t. tx_id t = ax_task_id a} s s'"
  proof (rule drained_toI [of _ _ t "stopped_row now"])
    show "r \<in> {t. tx_id t = ax_task_id a} \<longleftrightarrow> r = t" if "r \<in> set (db_tasks s)" for r
      unfolding mem_Collect_eq using only [OF that] t(2) by metis
  qed (simp_all add: task_key_def s'_def s2_def s1_def)
  moreover have "\<forall>b \<in> set (db_attempts s). b \<noteq> a \<longrightarrow> b \<in> set (db_attempts s')"
  proof (intro ballI impI)
    fix b assume b: "b \<in> set (db_attempts s)" "b \<noteq> a"
    have "ax_id b \<noteq> ax_id a" using db_ok_keys(3) [OF db b(1) a(1)] b(2) by metis
    then have "\<not> A b" by (simp add: A_def)
    with b(1) have "b \<in> set (update_rows A f (db_attempts s))" by (force simp: mem_update_rows)
    then show "b \<in> set (db_attempts s')" by (simp add: s'_def s2_def tabs)
  qed
  moreover have "db_history s' = db_history s @ [?h]" "hx_id ?h = hid" by (simp_all add: mk_history_def s'_def)
  ultimately show ?thesis using c [unfolded t(2)] by blast
qed

section \<open>The loops of a drain\<close>

lemma forP_Cons: "f x E w = (Inr (), w') \<Longrightarrow> forP f (x # xs) E w = forP f xs E w'"
  by (simp add: bindP_def)

lemma drain_world_task:
  assumes "drain_world E wid w" and "t \<in> set (db_tasks (w_db w))" and "tx_workflow_id t = wid"
  shows "workflow_state_of (w_db w) (tx_workflow_id t) \<in> {Some WF_FAILING, Some WF_CANCELLING}"
  using assms by (simp add: drain_world_def)

lemma drain_loop_tasks:
  assumes "quiet E" and "drain_world E wid w" and "distinct ts"
    and "\<forall>t \<in> set ts. t \<in> set (db_tasks (w_db w)) \<and> tx_workflow_id t = wid \<and> ts_unstarted (tx_state t)"
  shows "\<exists>w'. forP (\<lambda>t. bindP (commitP (\<lambda>hid. commit_drain_task_cancellation hid (tx_id t) (tx_revision t) now)) (\<lambda>_. returnP ())) ts E w
       = (Inr (), w') \<and> drain_world E wid w' \<and> drained_to (set ts) (w_db w) (w_db w') \<and> db_attempts (w_db w') = db_attempts (w_db w) \<and>
       w_events w \<le> w_events w'"
  using assms(2-4)
proof (induction ts arbitrary: w)
  case Nil
  then show ?case by (simp add: returnP_def drained_to_refl)
next
  case (Cons t ts)
  let ?s = "w_db w" and ?hid = "env_uuid E (w_events w)"
  have t: "t \<in> set (db_tasks ?s)" "tx_workflow_id t = wid" "ts_unstarted (tx_state t)" using Cons.prems(3) by auto
  have "?hid \<notin> set (map hx_id (db_history ?s))" using Cons.prems(1) by (simp add: drain_world_def fresh_uuids_def)
  then obtain s' h where c: "commit_drain_task_cancellation ?hid (tx_id t) (tx_revision t) now ?s = Inr (s', committed)"
    and s': "drained_to {t} ?s s'" "db_attempts s' = db_attempts ?s" "db_history s' = db_history ?s @ [h]" "hx_id h = ?hid"
    using drain_task_commits [of ?s t ?hid now] drain_world_task [OF Cons.prems(1) t(1,2)] t Cons.prems(1) unfolding drain_world_def by blast
  let ?w = "w\<lparr>w_db := s', w_events := Suc (Suc (w_events w))\<rparr>"
  have "reachable s'" using Cons.prems(1) c reachable_step step_drain_task unfolding drain_world_def by metis
  then have dw: "drain_world E wid ?w" using drain_world_commit [OF Cons.prems(1), of ?w "{t}" h] s' by simp
  have "\<forall>u \<in> set ts. u \<in> set (db_tasks (w_db ?w)) \<and> tx_workflow_id u = wid \<and> ts_unstarted (tx_state u)"
    using Cons.prems(2,3) s'(1) by (auto simp: drained_to_def)
  from Cons.IH [OF dw _ this] Cons.prems(2) obtain w' where w': "forP (\<lambda>t. bindP (commitP (\<lambda>hid. commit_drain_task_cancellation hid (tx_id t) (tx_revision t) now)) (\<lambda>_. returnP ())) ts E ?w
       = (Inr (), w')" "drain_world E wid w'" "drained_to (set ts) s' (w_db w')" "db_attempts (w_db w') = db_attempts s'" "w_events ?w \<le> w_events w'" by auto
  have "bindP (commitP (\<lambda>hid. commit_drain_task_cancellation hid (tx_id t) (tx_revision t) now)) (\<lambda>_. returnP ()) E w = (Inr (), ?w)"
    using c by (simp add: bindP_def commitP_quiet [OF assms(1)] returnP_def)
  from forP_Cons [where f = "\<lambda>t. bindP (commitP (\<lambda>hid. commit_drain_task_cancellation hid (tx_id t) (tx_revision t) now)) (\<lambda>_. returnP ())", OF this]
  show ?case using w' s'(2) drained_to_trans [OF s'(1) w'(3)] by (intro exI [of _ w']) simp
qed

text \<open>One attempt past its cancellation deadline.\<close>

lemma drain_attempt_settles:
  assumes "quiet E" and "drain_world E wid w" and a: "a \<in> set (db_attempts (w_db w))" "as_active (ax_state a)"
    and dl: "ax_cancellation_deadline_utc a = Some dl" "dl \<le> now"
    and t: "t \<in> set (db_tasks (w_db w))" "tx_id t = ax_task_id a" "tx_workflow_id t = wid"
  shows "\<exists>w'. drain_attempt wf_row now a E w = (Inr (), w') \<and> drain_world E wid w' \<and>
      drained_to {t. tx_id t = ax_task_id a} (w_db w) (w_db w') \<and>
      (\<forall>b \<in> set (db_attempts (w_db w)). b \<noteq> a \<longrightarrow> b \<in> set (db_attempts (w_db w'))) \<and> w_events w \<le> w_events w'"
proof -
  let ?s = "w_db w" and ?w1 = "w\<lparr>w_events := Suc (w_events w)\<rparr>"
  let ?hid = "env_uuid E (Suc (w_events w))"
  note inv = reachable_lifecycle and r = assms(2) [unfolded drain_world_def, THEN conjunct1]
  have g: "get_task ?s (ax_task_id a) = Some t"
    using get_task_mem [OF lifecycle_db_ok [OF inv [OF r]] t(1)] t(2) by simp
  have run: "tx_state t = TS_RUNNING" using active_attempt_task [OF inv [OF r] a t(1,2)] by simp
  have dw1: "drain_world E wid ?w1" by (rule drain_world_later [OF assms(2)]) simp_all
  then have "?hid \<notin> set (map hx_id (db_history ?s))" by (simp add: drain_world_def fresh_uuids_def)
  then obtain s' h x where c: "commit_internal_cancellation_deadline ?hid (ax_id a) (ax_revision a) (ax_task_id a) (tx_revision t) now ?s = Inr (s', x)"
    and s': "drained_to {t. tx_id t = ax_task_id a} ?s s'" "\<forall>b \<in> set (db_attempts ?s). b \<noteq> a \<longrightarrow> b \<in> set (db_attempts s')"
      "db_history s' = db_history ?s @ [h]" "hx_id h = ?hid"
    using cancel_deadline_commits [OF r a dl t(1,2) drain_world_task [OF assms(2) t(1,3)], of ?hid] by blast
  let ?w = "?w1\<lparr>w_db := s', w_events := Suc (Suc (w_events ?w1))\<rparr>"
  have "reachable s'" by (rule reachable_step [OF r step_cancel_deadline [OF c]])
  then have "drain_world E wid ?w" using drain_world_commit [OF dw1, of ?w _ h] s' by simp
  moreover have "drain_attempt wf_row now a E w = (Inr (), ?w)"
    using g run dl c
    by (simp add: drain_attempt_def bindP_def selectP_quiet [OF assms(1)] commitP_quiet [OF assms(1)] returnP_def)
  ultimately show ?thesis using s'(1,2) by (intro exI [of _ ?w]) simp
qed

definition past_deadline :: "datetime \<Rightarrow> attempt_row \<Rightarrow> bool" where
  "past_deadline now a \<longleftrightarrow> as_active (ax_state a) \<and> (\<exists>dl. ax_cancellation_deadline_utc a = Some dl \<and> dl \<le> now)"

text \<open>The keys of the tables, which no drain changes, say which workflow an attempt belongs to.\<close>

lemma attempt_of_workflow:
  assumes "lifecycle_ok s" and "a \<in> set (db_attempts s)"
  obtains t where "t \<in> set (db_tasks s)" and "tx_id t = ax_task_id a" and "get_task s (ax_task_id a) = Some t"
  using assms get_task_mem [OF lifecycle_db_ok [OF assms(1)]] unfolding lifecycle_ok_def attempts_inv_def by metis

definition owned_by :: "workflow_execution_id \<Rightarrow> db \<Rightarrow> attempt_row \<Rightarrow> bool" where
  "owned_by wid s a \<longleftrightarrow> (\<forall>k \<in> set (row_keys s). fst k = ax_task_id a \<longrightarrow> fst (snd k) = wid)"

lemma owned_by_task: "owned_by wid s a \<Longrightarrow> t \<in> set (db_tasks s) \<Longrightarrow> tx_id t = ax_task_id a \<Longrightarrow> tx_workflow_id t = wid"
  by (force simp: owned_by_def row_keys_def task_key_def)

lemma drain_loop_attempts:
  assumes "quiet E" and "drain_world E wid w" and "distinct as"
    and "\<forall>a \<in> set as. a \<in> set (db_attempts (w_db w)) \<and> past_deadline now a \<and> owned_by wid (w_db w) a"
  shows "\<exists>w'. forP (drain_attempt wf_row now) as E w = (Inr (), w') \<and> drain_world E wid w' \<and>
     drained_to {t. tx_id t \<in> ax_task_id ` set as} (w_db w) (w_db w') \<and> w_events w \<le> w_events w'"
  using assms(2-4)
proof (induction as arbitrary: w)
  case Nil
  then show ?case by (simp add: returnP_def drained_to_refl)
next
  case (Cons a as)
  have inv: "lifecycle_ok (w_db w)" using Cons.prems(1) reachable_lifecycle unfolding drain_world_def by blast
  have a: "a \<in> set (db_attempts (w_db w))" "past_deadline now a" "owned_by wid (w_db w) a" using Cons.prems(3) by auto
  from attempt_of_workflow [OF inv a(1)] obtain t where t: "t \<in> set (db_tasks (w_db w))" "tx_id t = ax_task_id a" .
  obtain dl where dl: "as_active (ax_state a)" "ax_cancellation_deadline_utc a = Some dl" "dl \<le> now"
    using a(2) unfolding past_deadline_def by blast
  from drain_attempt_settles [OF assms(1) Cons.prems(1) a(1) dl t owned_by_task [OF a(3) t]] obtain w1 where
    w1: "drain_attempt wf_row now a E w = (Inr (), w1)" "drain_world E wid w1" "w_events w \<le> w_events w1"
    and d1: "drained_to {t. tx_id t = ax_task_id a} (w_db w) (w_db w1)"
    and keep: "\<forall>b \<in> set (db_attempts (w_db w)). b \<noteq> a \<longrightarrow> b \<in> set (db_attempts (w_db w1))"
    by blast
  have rk: "row_keys (w_db w1) = row_keys (w_db w)" using d1 by (simp add: drained_to_def)
  have "\<forall>b \<in> set as. b \<in> set (db_attempts (w_db w1)) \<and> past_deadline now b \<and> owned_by wid (w_db w1) b"
    using Cons.prems(2,3) keep unfolding owned_by_def rk by auto
  from Cons.IH [OF w1(2) _ this] Cons.prems(2) obtain w' where w': "forP (drain_attempt wf_row now) as E w1 = (Inr (), w')"
    "drain_world E wid w'" "drained_to {t. tx_id t \<in> ax_task_id ` set as} (w_db w1) (w_db w')" "w_events w1 \<le> w_events w'" by auto
  have "{t. tx_id t = ax_task_id a} \<union> {t. tx_id t \<in> ax_task_id ` set as} = {t. tx_id t \<in> ax_task_id ` set (a # as)}" by auto
  with drained_to_trans [OF d1 w'(3)] have "drained_to {t. tx_id t \<in> ax_task_id ` set (a # as)} (w_db w) (w_db w')" by metis
  with forP_Cons [of "drain_attempt wf_row now", OF w1(1)] w'(1,2,4) w1(3) show ?case
    by (intro exI [of _ w']) simp
qed

section \<open>The last step\<close>

lemma settle_drained_commits:
  assumes "reachable s" and w: "get_workflow s wid = Some wf_row" "wx_state wf_row = old"
    and c: "covers s wf_row" and fin: "\<forall>t \<in> set (tasks_of s wid). ts_terminal (tx_state t)"
    and hid: "hid \<notin> set (map hx_id (db_history s))" and st: "old \<noteq> WF_SUCCEEDED" "new \<noteq> WF_SUCCEEDED"
  shows "\<exists>s'. settle_drained_workflow old new c1 cat hid wid (wx_revision wf_row) now s = Inr (s', committed) \<and>
     get_workflow s' wid = Some (wf_row\<lparr>wx_state := new, wx_revision := wx_revision wf_row + 1, wx_updated_at_utc := now\<rparr>) \<and>
     db_tasks s' = db_tasks s"
proof -
  note inv = reachable_lifecycle [OF assms(1)] and db = lifecycle_db_ok [OF reachable_lifecycle [OF assms(1)]]
  have wf: "wf_row \<in> set (db_workflows s)" "wx_id wf_row = wid" using get_workflow_SomeD [OF w(1)] by auto
  obtain d spec where d: "get_definition s (wx_definition_id wf_row) = Some d" "dr_validated_iws d = Some (spec_json spec)"
    and declared: "\<And>name. declared_task s (wx_definition_id wf_row) name \<longleftrightarrow> name \<in> tdid_value ` set (dict_keys (vs_tasks spec))"
    by (rule workflow_spec [OF assms(1) wf(1)]) (rule that)
  let ?ids = "map tdid_value (sort (dict_keys (vs_tasks spec)))"
  have ids: "document_task_ids (spec_json spec) = Inr ?ids" by (rule document_task_ids_spec)
  have terms: "filter (\<lambda>t. ts_terminal (tx_state t)) (tasks_of s wid) = tasks_of s wid"
    using fin by (simp add: filter_id_conv)
  have all: "set ?ids = set (map tx_task_definition_id (filter (\<lambda>t. ts_terminal (tx_state t)) (tasks_of s wid)))"
    unfolding terms
  proof (rule set_eqI)
    fix name
    have "name \<in> set ?ids \<longleftrightarrow> declared_task s (wx_definition_id wf_row) name" by (simp add: declared)
    also have "\<dots> \<longleftrightarrow> name \<in> set (map tx_task_definition_id (tasks_of s wid))"
      using c inv wf by (force simp: covers_def task_key_def tasks_of_def lifecycle_ok_def membership_inv_def)
    finally show "name \<in> set ?ids \<longleftrightarrow> name \<in> set (map tx_task_definition_id (tasks_of s wid))" .
  qed
  define P where "P = (\<lambda>r :: workflow_row. wx_id r = wid \<and> wx_state r = old \<and> wx_revision r = wx_revision wf_row)"
  define f where "f = (\<lambda>r :: workflow_row. r\<lparr>wx_state := new, wx_revision := wx_revision r + 1, wx_updated_at_utc := now\<rparr>)"
  define s1 where "s1 = s\<lparr>db_workflows := update_rows P f (db_workflows s)\<rparr>"
  define h where "h = mk_history hid wid None None cat [(''state'', PyStr (workflow_state_str new))] now"
  define s' where "s' = s1\<lparr>db_history := db_history s1 @ [h]\<rparr>"
  have fid: "wx_id (f r) = wx_id r" for r by (simp add: f_def)
  have Pw: "P wf_row" using w wf by (simp add: P_def)
  have ok: "workflow_row_ok (f r)" if "workflow_row_ok r" for r
    using that st(2) unfolding workflow_row_ok_def f_def by auto
  have "\<forall>r \<in> set (db_workflows s). workflow_row_ok r" using db by (simp add: db_ok_def list_all_iff)
  then have "list_all workflow_row_ok (update_rows P f (db_workflows s))"
    unfolding list_all_iff using st ok by (auto simp only: mem_update_rows split: if_splits)
  then have u: "update_workflows P f s = Inr (s1, count_rows P (db_workflows s))"
    unfolding update_workflows_Inr s1_def by simp
  have n: "count_rows P (db_workflows s) \<noteq> 0" using count_rows_pos [of P "db_workflows s"] Pw wf(1) by auto
  have keys: "map wx_id (db_workflows s1) = map wx_id (db_workflows s)"
    unfolding s1_def by (simp add: map_key_update_rows f_def)
  have "wid \<in> set (map wx_id (db_workflows s1))" unfolding keys using wf by auto
  then have ih: "insert_history h s1 = Inr s'"
    unfolding insert_history_Inr s'_def using hid by (simp add: h_def mk_history_def s1_def)
  have run: "settle_drained_workflow old new c1 cat hid wid (wx_revision wf_row) now s = Inr (s', committed)"
    unfolding settle_drained_workflow_def w(1) option.case d ids bindE_Inr Let_def
    using all w(2) u n ih by (simp add: P_def [symmetric] f_def [symmetric] h_def [symmetric])
  have "get_workflow s' wid = map_option (\<lambda>r. if P r then f r else r) (get_workflow s wid)"
    using find_update_rows [of P wx_id f wid "db_workflows s"] fid by (simp add: get_workflow_def s'_def s1_def)
  then have "get_workflow s' wid = Some (f wf_row)" using Pw w(1) by simp
  with run show ?thesis by (intro exI [of _ s']) (simp add: f_def s'_def s1_def)
qed

definition settled_as :: "workflow_state \<Rightarrow> workflow_state" where
  "settled_as st = (if st = WF_FAILING then WF_FAILED else WF_CANCELLED)"

lemma terminalize_settles:
  assumes "quiet E" and dw: "drain_world E wid w" and g: "get_workflow (w_db w) wid = Some wf_row"
    and "covers (w_db w) wf_row" and fin: "\<forall>t \<in> set (tasks_of (w_db w) wid). ts_terminal (tx_state t)"
  shows "\<exists>w' wf'. terminalize_drained wid now E w = (Inr (), w') \<and> get_workflow (w_db w') wid = Some wf' \<and>
     wx_state wf' = settled_as (wx_state wf_row) \<and> db_tasks (w_db w') = db_tasks (w_db w)"
proof -
  let ?hid = "env_uuid E (Suc (Suc (w_events w)))" and ?s = "w_db w"
  have r: "reachable ?s" and st: "wx_state wf_row = WF_FAILING \<or> wx_state wf_row = WF_CANCELLING"
    using dw g by (auto simp: drain_world_def workflow_state_of_def)
  have new: "?hid \<notin> set (map hx_id (db_history ?s))"
    using dw by (simp add: drain_world_def fresh_uuids_def)
  have fin': "list_all (\<lambda>t. ts_terminal (tx_state t)) (tasks_of ?s wid)" using fin by (simp add: list_all_iff)
  from st show ?thesis
  proof
    assume f: "wx_state wf_row = WF_FAILING"
    obtain s' where "commit_workflow_failure ?hid wid (wx_revision wf_row) now ?s = Inr (s', committed)"
      "get_workflow s' wid = Some (wf_row\<lparr>wx_state := WF_FAILED, wx_revision := wx_revision wf_row + 1, wx_updated_at_utc := now\<rparr>)"
      "db_tasks s' = db_tasks ?s"
      using settle_drained_commits [OF r g f assms(4) fin new] unfolding commit_workflow_failure_def by blast
    then show ?thesis
      using fin' g f by (simp add: terminalize_drained_def bindP_def selectP_quiet [OF assms(1)] commitP_quiet [OF assms(1)] returnP_def settled_as_def)
  next
    assume f: "wx_state wf_row = WF_CANCELLING"
    obtain s' where "commit_workflow_cancellation ?hid wid (wx_revision wf_row) now ?s = Inr (s', committed)"
      "get_workflow s' wid = Some (wf_row\<lparr>wx_state := WF_CANCELLED, wx_revision := wx_revision wf_row + 1, wx_updated_at_utc := now\<rparr>)"
      "db_tasks s' = db_tasks ?s"
      using settle_drained_commits [OF r g f assms(4) fin new] unfolding commit_workflow_cancellation_def by blast
    then show ?thesis
      using fin' g f by (simp add: terminalize_drained_def bindP_def selectP_quiet [OF assms(1)] commitP_quiet [OF assms(1)] returnP_def settled_as_def)
  qed
qed

section \<open>Draining finishes\<close>

abbreviation drain_task :: "datetime \<Rightarrow> task_row \<Rightarrow> unit proc" where
  "drain_task now t \<equiv> bindP (commitP (\<lambda>hid. commit_drain_task_cancellation hid (tx_id t) (tx_revision t) now)) (\<lambda>_. returnP ())"

lemma drain_workflow_run:
  assumes "quiet E" and "get_workflow (w_db w) wid = Some wf_row" and "wf_draining (wx_state wf_row)"
    and "forP (drain_task (env_clock E (Suc (Suc (w_events w))))) (filter (\<lambda>t. ts_unstarted (tx_state t)) (tasks_of (w_db w) wid)) E
           (w\<lparr>w_events := Suc (Suc (Suc (w_events w)))\<rparr>) = (Inr (), w4)"
    and "forP (drain_attempt wf_row (env_clock E (Suc (Suc (w_events w))))) (active_attempts_of wid (w_db w4)) E
           (w4\<lparr>w_events := Suc (w_events w4)\<rparr>) = (Inr (), w6)"
  shows "drain_workflow wid E w = terminalize_drained wid (env_clock E (Suc (Suc (w_events w)))) E w6"
  unfolding drain_workflow_def
  by (simp del: insert_iff add: bindP_def selectP_quiet [OF assms(1)] assms(2) clockP_def assms(3-5))

lemma active_in_workflow:
  assumes "lifecycle_ok s" and "a \<in> set (active_attempts_of wid s)"
  obtains t where "t \<in> set (db_tasks s)" and "tx_id t = ax_task_id a" and "tx_workflow_id t = wid" and "tx_state t = TS_RUNNING"
    and "a \<in> set (db_attempts s)" and "as_active (ax_state a)" and "owned_by wid s a"
proof -
  from assms(2) obtain t where a: "a \<in> set (db_attempts s)" "as_active (ax_state a)"
    and t: "t \<in> set (db_tasks s)" "tx_id t = ax_task_id a" "tx_workflow_id t = wid"
    by (auto simp: active_attempts_of_def list_ex_iff)
  have "owned_by wid s a"
    unfolding owned_by_def row_keys_def
  proof (intro ballI impI)
    fix k assume "k \<in> set (map (\<lambda>t. (tx_id t, task_key t)) (db_tasks s))" "fst k = ax_task_id a"
    then obtain u where u: "u \<in> set (db_tasks s)" "k = (tx_id u, task_key u)" "tx_id u = tx_id t" using t(2) by auto
    have "u = t" by (rule db_ok_keys(2) [OF lifecycle_db_ok [OF assms(1)] u(1) t(1) u(3)])
    then show "fst (snd k) = wid" using u(2) t(3) by (simp add: task_key_def)
  qed
  with that a t active_task_running [OF assms(1) a t(1,2)] show thesis by blast
qed

lemma attempts_past_deadline:
  assumes "lifecycle_ok s" and "lifecycle_ok s'" and d: "drained_to T s s'" and at: "db_attempts s' = db_attempts s"
    and running: "\<forall>t \<in> set (tasks_of s wid). tx_state t = TS_RUNNING \<longrightarrow> (\<exists>a \<in> set (db_attempts s). ax_task_id a = tx_id t \<and> past_deadline now a)"
    and a: "a \<in> set (active_attempts_of wid s')"
  shows "a \<in> set (db_attempts s') \<and> past_deadline now a \<and> owned_by wid s' a"
proof -
  from active_in_workflow [OF assms(2) a] obtain t where t: "t \<in> set (db_tasks s')" "tx_id t = ax_task_id a" "tx_workflow_id t = wid"
    "tx_state t = TS_RUNNING" and act: "a \<in> set (db_attempts s')" "as_active (ax_state a)" and own: "owned_by wid s' a" .
  have "t \<in> set (tasks_of s wid)" using d t unfolding drained_to_def tasks_of_def by auto
  with running t(4) obtain b where b: "b \<in> set (db_attempts s)" "ax_task_id b = tx_id t" "past_deadline now b" by blast
  have "b = a"
    by (rule single_active_attempt [OF lifecycle_db_ok [OF assms(1)] b(1)]) (use act at b t in \<open>simp_all add: past_deadline_def\<close>)
  with act own b(3) show ?thesis by simp
qed

lemma drained_all_terminal:
  assumes d: "drained_to (set (filter (\<lambda>t. ts_unstarted (tx_state t)) (tasks_of s wid))) s s'" and at: "db_attempts s' = db_attempts s"
    and d': "drained_to {t. tx_id t \<in> ax_task_id ` set (active_attempts_of wid s')} s' s''"
    and running: "\<forall>t \<in> set (tasks_of s wid). tx_state t = TS_RUNNING \<longrightarrow> (\<exists>a \<in> set (db_attempts s). ax_task_id a = tx_id t \<and> past_deadline now a)"
  shows "\<forall>t \<in> set (tasks_of s'' wid). ts_terminal (tx_state t)"
proof
  fix t assume t: "t \<in> set (tasks_of s'' wid)"
  show "ts_terminal (tx_state t)"
  proof (cases "tx_state t = TS_CANCELLED")
    case False
    with t d' have t': "t \<in> set (db_tasks s')" "tx_id t \<notin> ax_task_id ` set (active_attempts_of wid s')" "tx_workflow_id t = wid"
      unfolding drained_to_def tasks_of_def by auto
    with False d have "t \<in> set (tasks_of s wid)" and un: "\<not> ts_unstarted (tx_state t)" unfolding drained_to_def tasks_of_def by auto
    have "tx_state t \<noteq> TS_RUNNING"
    proof
      assume "tx_state t = TS_RUNNING"
      with running \<open>t \<in> set (tasks_of s wid)\<close> obtain a where a: "a \<in> set (db_attempts s')" "ax_task_id a = tx_id t" "as_active (ax_state a)"
        unfolding at past_deadline_def by blast
      with t' have "a \<in> set (active_attempts_of wid s')" by (auto simp: active_attempts_of_def list_ex_iff)
      with a(2) t'(2) show False by (metis imageI)
    qed
    with un show ?thesis by (cases "tx_state t") simp_all
  qed simp
qed

lemma drained_covers:
  assumes "drained_to T s s'" and "covers s w"
  shows "covers s' w"
proof (rule covers_cong [OF _ _ assms(2)])
  have "map snd (row_keys s') = map snd (row_keys s)" using assms(1) by (simp add: drained_to_def)
  then have "map task_key (db_tasks s') = map task_key (db_tasks s)" by (simp add: row_keys_def comp_def)
  then show "set (map task_key (db_tasks s)) \<subseteq> set (map task_key (db_tasks s'))" by simp
qed (use assms(1) in \<open>simp add: drained_to_def\<close>)

text \<open>
  C9. Draining makes progress: when a failing or cancelling workflow has a row for every task its
  definition declares, and every running task's attempt is past its cancellation deadline, one call
  of the drain, with nothing else running, cancels what is left and settles the workflow.
\<close>

theorem drain_settles_workflow:
  assumes "quiet E" and "reachable (w_db w)" and "fresh_uuids E w"
    and g: "get_workflow (w_db w) wid = Some wf_row" and "wf_draining (wx_state wf_row)" and "covers (w_db w) wf_row"
    and running: "\<forall>t \<in> set (tasks_of (w_db w) wid). tx_state t = TS_RUNNING \<longrightarrow>
       (\<exists>a \<in> set (db_attempts (w_db w)). ax_task_id a = tx_id t \<and> (\<forall>n. past_deadline (env_clock E n) a))"
  shows "\<exists>w' wf'. drain_workflow wid E w = (Inr (), w') \<and> get_workflow (w_db w') wid = Some wf' \<and>
     wx_state wf' = settled_as (wx_state wf_row) \<and> (\<forall>t \<in> set (tasks_of (w_db w') wid). ts_terminal (tx_state t))"
proof -
  let ?s = "w_db w"
  define now where "now = env_clock E (Suc (Suc (w_events w)))"
  define w3 where "w3 = w\<lparr>w_events := Suc (Suc (Suc (w_events w)))\<rparr>"
  define ts where "ts = filter (\<lambda>t. ts_unstarted (tx_state t)) (tasks_of ?s wid)"
  note inv = reachable_lifecycle [OF assms(2)] and db = lifecycle_db_ok [OF reachable_lifecycle [OF assms(2)]]
  have run: "\<forall>t \<in> set (tasks_of ?s wid). tx_state t = TS_RUNNING \<longrightarrow> (\<exists>a \<in> set (db_attempts ?s). ax_task_id a = tx_id t \<and> past_deadline now a)"
    using running unfolding now_def by blast
  have dw: "drain_world E wid w" using assms(2,3,5) g by (auto simp: drain_world_def workflow_state_of_def)
  have dw3: "drain_world E wid w3" and s3: "w_db w3 = ?s" by (rule drain_world_later [OF dw], simp_all add: w3_def)
  have "distinct ts" using db by (simp add: db_ok_def ts_def tasks_of_def distinct_map)
  moreover have "\<forall>t \<in> set ts. t \<in> set (db_tasks (w_db w3)) \<and> tx_workflow_id t = wid \<and> ts_unstarted (tx_state t)"
    by (simp add: ts_def tasks_of_def s3)
  ultimately obtain w4 where l1: "forP (drain_task now) ts E w3 = (Inr (), w4)" and dw4: "drain_world E wid w4"
      and d4: "drained_to (set ts) ?s (w_db w4)" and a4: "db_attempts (w_db w4) = db_attempts ?s"
    using drain_loop_tasks [OF assms(1) dw3, of ts now] unfolding s3 by blast
  define w5 where "w5 = w4\<lparr>w_events := Suc (w_events w4)\<rparr>"
  define as where "as = active_attempts_of wid (w_db w4)"
  have dw5: "drain_world E wid w5" and s5: "w_db w5 = w_db w4" by (rule drain_world_later [OF dw4], simp_all add: w5_def)
  have inv4: "lifecycle_ok (w_db w4)" using dw4 reachable_lifecycle unfolding drain_world_def by blast
  have "\<forall>a \<in> set as. a \<in> set (db_attempts (w_db w5)) \<and> past_deadline now a \<and> owned_by wid (w_db w5) a"
    using attempts_past_deadline [OF inv inv4 d4 a4 run] unfolding s5 as_def by blast
  moreover have "distinct as"
    using lifecycle_db_ok [OF inv4] by (simp add: db_ok_def as_def active_attempts_of_def distinct_map)
  ultimately obtain w6 where l2: "forP (drain_attempt wf_row now) as E w5 = (Inr (), w6)" and dw6: "drain_world E wid w6"
      and d6: "drained_to {t. tx_id t \<in> ax_task_id ` set as} (w_db w4) (w_db w6)"
    using drain_loop_attempts [OF assms(1) dw5, of as now wf_row] unfolding s5 by blast
  have fin: "\<forall>t \<in> set (tasks_of (w_db w6) wid). ts_terminal (tx_state t)"
    using drained_all_terminal [OF d4 [unfolded ts_def] a4 d6 [unfolded as_def] run] .
  have g6: "get_workflow (w_db w6) wid = Some wf_row" using g d4 d6 by (simp add: drained_to_def get_workflow_def)
  have c6: "covers (w_db w6) wf_row" using drained_covers [OF d6 drained_covers [OF d4 assms(6)]] .
  obtain w' wf' where t: "terminalize_drained wid now E w6 = (Inr (), w')" "get_workflow (w_db w') wid = Some wf'"
    "wx_state wf' = settled_as (wx_state wf_row)" "db_tasks (w_db w') = db_tasks (w_db w6)"
    using terminalize_settles [OF assms(1) dw6 g6 c6 fin, of now] by blast
  have "drain_workflow wid E w = (Inr (), w')"
    using drain_workflow_run [OF assms(1) g assms(5), folded now_def w3_def ts_def, OF l1, folded w5_def as_def, OF l2] t(1) by simp
  with t fin show ?thesis by (intro exI [of _ w'] exI [of _ wf']) (simp add: tasks_of_def)
qed

text \<open>A run of it: the sample workflow is cancelled while task \<open>a\<close> runs and its deadline is set.\<close>

definition idle_environment :: environment where
  "idle_environment = \<lparr>env_db = (\<lambda>_ s. s), env_registry = (\<lambda>_ rg. rg), env_clock = (\<lambda>_. 50), env_monotonic = (\<lambda>_. 0),
     env_uuid = (\<lambda>n. 200 + n)\<rparr>"

definition idle_world :: "db \<Rightarrow> world" where
  "idle_world s = \<lparr>w_db = s, w_registry = new_registry 15000000, w_events = 0\<rparr>"

definition stopping_attempt :: attempt_row where
  "stopping_attempt = (sample_attempt 21 11 AS_RUNNING 2 5 6)\<lparr>ax_cancellation_deadline_utc := Some 40\<rparr>"

definition db_cancelling :: db where
  "db_cancelling = (sample_store [sample_workflow WF_CANCELLING 3 None 8]
     [row_b TS_PENDING 1 None 1 2, row_a TS_RUNNING 3 None 2 5] [sample_attempt 21 11 AS_RUNNING 2 5 6] 6)
     \<lparr>db_history := take 6 sample_history @ [mk_history 150 2 None None ''WorkflowCancellationRequested'' [(''state'', PyStr ''CANCELLING'')] 8]\<rparr>"

definition db_stopping :: db where
  "db_stopping = db_cancelling\<lparr>db_attempts := [stopping_attempt]\<rparr>"

lemma quiet_idle: "quiet idle_environment"
  by (simp add: quiet_def idle_environment_def)

lemma run_cancelling: "commit_workflow_cancellation_direction 150 2 8 db_started = Inr (db_cancelling, committed)"
  by code_simp

lemma run_stopping: "set_cancellation_deadline 21 40 db_cancelling = Inr db_stopping"
  by code_simp

lemma reachable_stopping: "reachable db_stopping"
  by (rule reachable_step [OF reachable_step [OF reachable_started]]) (rule step_cancelling, rule run_cancelling, rule step_set_deadline, rule run_stopping)

theorem drain_settles_workflow_witness:
  "\<exists>w' wf'. drain_workflow 2 idle_environment (idle_world db_stopping) = (Inr (), w') \<and>
     get_workflow (w_db w') 2 = Some wf' \<and> wx_state wf' = WF_CANCELLED"
proof -
  let ?w = "sample_workflow WF_CANCELLING 3 None 8"
  have db: "w_db (idle_world db_stopping) = db_stopping" by (simp add: idle_world_def)
  have g: "get_workflow (w_db (idle_world db_stopping)) 2 = Some ?w" unfolding db by code_simp
  have fresh: "fresh_uuids idle_environment (idle_world db_stopping)"
  proof -
    have "set (map hx_id (db_history db_stopping)) = {101, 102, 103, 104, 105, 106, 150}" by code_simp
    then show ?thesis unfolding fresh_uuids_def db by (simp add: idle_environment_def inj_on_def)
  qed
  have "document_task_ids sample_document = Inr [''a'', ''b'']" by code_simp
  then have c: "covers db_stopping ?w"
    by (auto simp: covers_def declared_task_def get_definition_def db_stopping_def db_cancelling_def sample_store_def sample_workflow_def
        row_a_def row_b_def sample_task_row_def task_key_def)
  have running: "\<forall>t \<in> set (tasks_of db_stopping 2). tx_state t = TS_RUNNING \<longrightarrow>
       (\<exists>a \<in> set (db_attempts db_stopping). ax_task_id a = tx_id t \<and> (\<forall>n. past_deadline (env_clock idle_environment n) a))"
    by (simp add: db_stopping_def db_cancelling_def sample_store_def tasks_of_def row_a_def row_b_def sample_task_row_def
        stopping_attempt_def sample_attempt_def past_deadline_def idle_environment_def)
  have d: "wf_draining (wx_state ?w)" "settled_as (wx_state ?w) = WF_CANCELLED" by (simp_all add: sample_workflow_def settled_as_def)
  from drain_settles_workflow [OF quiet_idle _ fresh g d(1), unfolded db, OF reachable_stopping c running] d(2)
  show ?thesis by auto
qed

end
