(* ===== verification/Delivery_Guarantee.thy ===== *)
theory Delivery_Guarantee
  imports Drain_Progress
begin

text \<open>
  What the deliveries of the registry promise. The registry is only a cache: an assignment in a
  worker's queue must refer to an attempt that is durably recorded for that worker. The argument is
  rely-guarantee: the other coroutines keep the same promise, and each transaction only moves the
  store along its steps, so facts about rows that were read stay true in the form they are used.
\<close>

section \<open>Deliveries that the store backs\<close>

text \<open>The activity that the stored definition of a task declares.\<close>

definition runs_spec :: "workflow_execution_id \<Rightarrow> validated_workflow_spec \<Rightarrow> db \<Rightarrow> bool" where
  "runs_spec wid spec s \<longleftrightarrow> (\<exists>w doc. get_workflow s wid = Some w \<and>
     stored_document (wx_definition_id w) s = Some doc \<and> deserialize_validated_spec doc = Inr spec)"

definition declared_activity :: "db \<Rightarrow> task_row \<Rightarrow> string \<Rightarrow> bool" where
  "declared_activity s t act \<longleftrightarrow> (\<exists>spec i td. runs_spec (tx_workflow_id t) spec s \<and>
     mk_TaskDefinitionId (tx_task_definition_id t) = Inr i \<and> map_of (vs_tasks spec) i = Some td \<and>
     act = act_name (td_activity_type td))"

definition assignment_backed :: "db \<Rightarrow> worker_session_id \<Rightarrow> assignment_payload \<Rightarrow> bool" where
  "assignment_backed s sid p \<longleftrightarrow> (\<exists>a \<in> set (db_attempts s). \<exists>t \<in> set (db_tasks s).
     ax_task_id a = tx_id t \<and> ax_worker_session_id a = sid \<and>
     ap_attempt_id p = uuid_str (ax_id a) \<and> ap_attempt_ordinal p = ax_ordinal a \<and>
     ap_task_execution_id p = uuid_str (tx_id t) \<and> ap_workflow_execution_id p = uuid_str (tx_workflow_id t) \<and>
     ap_worker_session_id p = uuid_str sid \<and> declared_activity s t (ap_activity_type p) \<and>
     tx_state t \<noteq> TS_PENDING \<and> ap_stable_input p = or_empty (column_value (tx_stable_input t)) \<and>
     ap_start_deadline_utc p = isoformat (ax_start_deadline_utc a))"

definition backed :: "db \<Rightarrow> delivery worker_registry \<Rightarrow> bool" where
  "backed s rg \<longleftrightarrow> (\<forall>sid q p. map_of (rg_delivery_queues rg) sid = Some q \<longrightarrow> Assignment p \<in> set q \<longrightarrow>
     assignment_backed s sid p)"

section \<open>They stay backed\<close>

lemma get_definition_append_keeps:
  "db_definitions s' = db_definitions s @ new \<Longrightarrow> get_definition s d = Some r \<Longrightarrow> get_definition s' d = Some r"
proof -
  have "find P xs = Some x \<Longrightarrow> find P (xs @ ys) = Some x" for P and xs ys :: "definition_row list" and x
    by (induction xs) auto
  then show "db_definitions s' = db_definitions s @ new \<Longrightarrow> get_definition s d = Some r \<Longrightarrow> get_definition s' d = Some r"
    by (simp add: get_definition_def)
qed

lemma runs_spec_later:
  assumes "reachable s" and "db_steps s s'" and "runs_spec wid spec s"
  shows "runs_spec wid spec s'"
proof -
  from assms(3) obtain w doc r where w: "get_workflow s wid = Some w" and r: "get_definition s (wx_definition_id w) = Some r"
    "dr_validated_iws r = Some doc" and d: "deserialize_validated_spec doc = Inr spec"
    by (auto simp: runs_spec_def stored_document_def split: option.splits)
  from workflow_survives [OF assms(1,2) w] obtain w' where w': "get_workflow s' wid = Some w'" "wx_definition_id w' = wx_definition_id w" .
  obtain new where "db_definitions s' = db_definitions s @ new"
    using db_steps_evolves [OF assms(2) reachable_lifecycle [OF assms(1)]] by (auto simp: db_evolves_def)
  from get_definition_append_keeps [OF this r(1)] have "stored_document (wx_definition_id w') s' = Some doc"
    using r(2) w'(2) by (simp add: stored_document_def)
  with w'(1) d show ?thesis unfolding runs_spec_def by blast
qed

lemma attempt_evolves_kept: "attempt_rows.evolves a b \<Longrightarrow> attempt_kept a b"
  unfolding attempt_rows.evolves_def
proof (induction rule: rtranclp_induct)
  case base
  show ?case by (simp add: attempt_kept_def)
next
  case (step b c)
  have "attempt_kept b c"
    using step(2) unfolding attempt_rows.row_step_def
  proof
    assume e: "attempt_core c = attempt_core b"
    from arg_cong [OF e, of ax_start_deadline_utc] arg_cong [OF e, of ax_created_at_utc]
    show ?thesis using attempt_core_eqD [OF e] by (simp add: attempt_kept_def attempt_core_def)
  qed blast
  with step(3) show ?case by (simp add: attempt_kept_def)
qed

lemma task_evolves_kept:
  "task_rows.evolves t t' \<Longrightarrow> tx_workflow_id t' = tx_workflow_id t \<and> tx_task_definition_id t' = tx_task_definition_id t \<and>
     (tx_state t \<noteq> TS_PENDING \<longrightarrow> tx_state t' \<noteq> TS_PENDING \<and> tx_stable_input t' = tx_stable_input t)"
  unfolding task_rows.evolves_def
proof (induction rule: rtranclp_induct)
  case (step u v)
  then show ?case by (auto simp: task_rows.row_step_def task_kept_def)
qed simp

lemma assignment_backed_later:
  assumes "reachable s" and "db_steps s s'" and "assignment_backed s sid p"
  shows "assignment_backed s' sid p"
proof -
  from assms(3) obtain a t where a: "a \<in> set (db_attempts s)" and t: "t \<in> set (db_tasks s)"
    and f: "ax_task_id a = tx_id t" "ax_worker_session_id a = sid" "ap_attempt_id p = uuid_str (ax_id a)"
      "ap_attempt_ordinal p = ax_ordinal a" "ap_task_execution_id p = uuid_str (tx_id t)"
      "ap_workflow_execution_id p = uuid_str (tx_workflow_id t)" "ap_worker_session_id p = uuid_str sid"
      "tx_state t \<noteq> TS_PENDING" "ap_stable_input p = or_empty (column_value (tx_stable_input t))"
      "ap_start_deadline_utc p = isoformat (ax_start_deadline_utc a)"
    and d: "declared_activity s t (ap_activity_type p)" unfolding assignment_backed_def by blast
  from attempt_survives [OF assms(1,2) a] obtain a' where a': "a' \<in> set (db_attempts s')" "ax_id a' = ax_id a"
    and ae: "attempt_rows.evolves a a'" by blast
  from task_survives [OF assms(1,2) t] obtain t' where t': "t' \<in> set (db_tasks s')" "tx_id t' = tx_id t"
    and te: "task_rows.evolves t t'" by blast
  note kept = attempt_evolves_kept [OF ae] task_evolves_kept [OF te]
  have "declared_activity s' t' (ap_activity_type p)"
    using d kept(2) runs_spec_later [OF assms(1,2)] unfolding declared_activity_def by metis
  then show ?thesis
    unfolding assignment_backed_def
    by (intro bexI [OF _ a'(1)] bexI [OF _ t'(1)]) (use f a'(2) t'(2) kept in \<open>simp add: attempt_kept_def\<close>)
qed

lemma backed_later: "reachable s \<Longrightarrow> db_steps s s' \<Longrightarrow> backed s rg \<Longrightarrow> backed s' rg"
  unfolding backed_def using assignment_backed_later by blast

section \<open>Rely and guarantee\<close>

text \<open>
  The other coroutines transact and keep the queues backed. A fact about the store is stable when
  no transaction can end it.
\<close>

definition others_deliver :: "environment \<Rightarrow> bool" where
  "others_deliver E \<longleftrightarrow> others_transact E \<and>
     (\<forall>n s rg. reachable s \<longrightarrow> backed s rg \<longrightarrow> backed (env_db E n s) (env_registry E n rg))"

definition good :: "world \<Rightarrow> bool" where
  "good w \<longleftrightarrow> reachable (w_db w) \<and> backed (w_db w) (w_registry w)"

definition stable :: "(db \<Rightarrow> bool) \<Rightarrow> bool" where
  "stable P \<longleftrightarrow> (\<forall>s s'. reachable s \<longrightarrow> db_steps s s' \<longrightarrow> P s \<longrightarrow> P s')"

definition triple :: "(db \<Rightarrow> bool) \<Rightarrow> ('e, 'a) proc_raising \<Rightarrow> ('a \<Rightarrow> db \<Rightarrow> bool) \<Rightarrow> bool" where
  "triple P m Q \<longleftrightarrow> (\<forall>E w. others_deliver E \<longrightarrow> good w \<longrightarrow> P (w_db w) \<longrightarrow>
     (case m E w of (Inl e, w') \<Rightarrow> good w' | (Inr x, w') \<Rightarrow> good w' \<and> Q x (w_db w')))"

named_theorems triple_rules "rules of the coroutine logic"
named_theorems stables "facts no transaction ends"

lemma tripleI:
  "(\<And>E w. others_deliver E \<Longrightarrow> good w \<Longrightarrow> P (w_db w) \<Longrightarrow> good (snd (m E w)) \<and> (\<forall>x. fst (m E w) = Inr x \<longrightarrow> Q x (w_db (snd (m E w))))) \<Longrightarrow> triple P m Q"
  unfolding triple_def by (fastforce split: prod.split sum.split)

lemma tripleD:
  assumes "triple P m Q" and "others_deliver E" and "good w" and "P (w_db w)"
  shows "good (snd (m E w))" and "fst (m E w) = Inr x \<Longrightarrow> Q x (w_db (snd (m E w)))"
  using assms unfolding triple_def by (fastforce split: prod.splits sum.splits)+

lemma stable_const [stables]: "stable (\<lambda>_. c)"
  by (simp add: stable_def)

lemma stable_conj [stables]: "stable P \<Longrightarrow> stable Q \<Longrightarrow> stable (\<lambda>s. P s \<and> Q s)"
  unfolding stable_def by blast

lemma stable_runs_spec [stables]: "stable (runs_spec wid spec)"
  unfolding stable_def using runs_spec_later by blast

lemma stable_assignment [stables]: "stable (\<lambda>s. assignment_backed s sid p)"
  unfolding stable_def using assignment_backed_later by blast

text \<open>A row that some earlier state held.\<close>

definition seen_task :: "task_row \<Rightarrow> db \<Rightarrow> bool" where
  "seen_task t s \<longleftrightarrow> (\<exists>s0. reachable s0 \<and> t \<in> set (db_tasks s0) \<and> db_steps s0 s)"

lemma stable_seen_task [stables]: "stable (seen_task t)"
  unfolding stable_def seen_task_def by (meson rtranclp_trans)

lemma seen_taskI: "reachable s \<Longrightarrow> t \<in> set (db_tasks s) \<Longrightarrow> seen_task t s"
  unfolding seen_task_def by blast

text \<open>A row seen before and found at its revision is that row.\<close>

lemma seen_task_same:
  assumes "seen_task t s" and "r \<in> set (db_tasks s)" and "tx_id r = tx_id t" and "tx_revision r = tx_revision t"
  shows "r = t"
  using assms later_task task_rows.evolves_revision unfolding seen_task_def by (metis id_apply)

lemma good_await:
  assumes "others_deliver E" and "good w" and "stable P" and "P (w_db w)"
  shows "good (await_others E w)" and "P (w_db (await_others E w))"
proof -
  have r: "reachable (w_db w)" and b: "backed (w_db w) (w_registry w)" using assms(2) by (simp_all add: good_def)
  have s: "db_steps (w_db w) (w_db (await_others E w))"
    using assms(1) r by (simp add: await_others_def others_deliver_def others_transact_def)
  show "good (await_others E w)"
    using reachable_steps [OF r s] assms(1) r b by (simp add: good_def await_others_def others_deliver_def)
  show "P (w_db (await_others E w))" using assms(3,4) r s unfolding stable_def by blast
qed

lemma stable_step: "stable P \<Longrightarrow> reachable s \<Longrightarrow> db_step s s' \<Longrightarrow> P s \<Longrightarrow> P s'"
  unfolding stable_def by blast

section \<open>Rules\<close>

lemma triple_weaken: "triple P m Q \<Longrightarrow> (\<And>s. P' s \<Longrightarrow> P s) \<Longrightarrow> triple P' m Q"
  by (simp add: triple_def)

lemma triple_post: "triple P m Q \<Longrightarrow> (\<And>x s. Q x s \<Longrightarrow> Q' x s) \<Longrightarrow> triple P m Q'"
  unfolding triple_def by (fastforce split: prod.splits sum.splits)

lemma triple_returnP [triple_rules]: "triple (Q x) (returnP x) Q"
  by (rule tripleI) (simp add: returnP_def)

lemma triple_raiseP [triple_rules]: "triple P (raiseP e) Q"
  by (rule tripleI) (simp add: raiseP_def)

lemma triple_liftP [triple_rules]: "triple P (liftP m) (\<lambda>x s. m = Inr x \<and> P s)"
  by (rule tripleI) (simp add: liftP_def)

lemma triple_bindP [triple_rules]:
  assumes "triple P m Q" and "\<And>x. triple (Q x) (k x) R"
  shows "triple P (bindP m k) R"
proof (rule tripleI)
  fix E w assume E: "others_deliver E" "good w" "P (w_db w)"
  obtain x w' where m: "m E w = (x, w')" by (cases "m E w")
  show "good (snd (bindP m k E w)) \<and> (\<forall>x. fst (bindP m k E w) = Inr x \<longrightarrow> R x (w_db (snd (bindP m k E w))))"
  proof (cases x)
    case (Inl e)
    with tripleD(1) [OF assms(1) E] m show ?thesis by (simp add: bindP_def)
  next
    case (Inr y)
    with tripleD [OF assms(1) E] m have "good w'" "Q y (w_db w')" by simp_all
    from tripleD [OF assms(2) E(1) this] m Inr show ?thesis by (simp add: bindP_def)
  qed
qed

lemma triple_draws [triple_rules]: "triple P clockP (\<lambda>_. P)" "triple P monotonicP (\<lambda>_. P)" "triple P uuidP (\<lambda>_. P)"
  by (rule tripleI, simp add: clockP_def monotonicP_def uuidP_def good_def)+

lemma triple_selectP [triple_rules]: "stable P \<Longrightarrow> triple P (selectP q) (\<lambda>x s. P s \<and> reachable s \<and> x = q s)"
  by (rule tripleI) (simp add: selectP_def Let_def good_await, simp add: good_await [unfolded good_def] good_def)

lemma triple_transactP:
  assumes "stable P" and tx: "\<And>s s' x. reachable s \<Longrightarrow> P s \<Longrightarrow> tx s = Inr (s', x) \<Longrightarrow> db_step s s' \<and> Q x s'"
  shows "triple P (transactP tx) Q"
proof (rule tripleI)
  fix E w assume E: "others_deliver E" "good w" "P (w_db w)"
  note aw = good_await [OF E(1,2) assms(1) E(3)]
  show "good (snd (transactP tx E w)) \<and> (\<forall>x. fst (transactP tx E w) = Inr x \<longrightarrow> Q x (w_db (snd (transactP tx E w))))"
  proof (cases "tx (w_db (await_others E w))")
    case (Inr r)
    obtain s' x where r: "r = (s', x)" by (cases r)
    with Inr aw tx [of "w_db (await_others E w)" s' x] have st: "db_step (w_db (await_others E w)) s'" "Q x s'" by (auto simp: good_def)
    moreover from st(1) aw(1) have "reachable s'" "backed s' (w_registry (await_others E w))"
      unfolding good_def using reachable_step backed_later by blast+
    ultimately show ?thesis using Inr r by (simp add: transactP_def good_def)
  qed (use aw in \<open>simp add: transactP_def\<close>)
qed

lemma triple_commitP:
  assumes "stable P" and tx: "\<And>hid s s' x. reachable s \<Longrightarrow> P s \<Longrightarrow> tx hid s = Inr (s', x) \<Longrightarrow> db_step s s' \<and> Q x s'"
  shows "triple P (commitP tx) Q"
  unfolding commitP_def
  by (rule triple_bindP [OF triple_draws(3)]) (rule triple_transactP [OF assms(1)], rule tx)

lemma triple_registryP:
  assumes "stable P" and f: "\<And>s rg x rg'. reachable s \<Longrightarrow> P s \<Longrightarrow> backed s rg \<Longrightarrow> f rg = (x, rg') \<Longrightarrow> backed s rg' \<and> Q x s"
  shows "triple P (registryP f) Q"
proof (rule tripleI)
  fix E w assume E: "others_deliver E" "good w" "P (w_db w)"
  note aw = good_await [OF E(1,2) assms(1) E(3)]
  obtain x rg' where r: "f (w_registry (await_others E w)) = (x, rg')" by (cases "f (w_registry (await_others E w))")
  show "good (snd (registryP f E w)) \<and> (\<forall>x. fst (registryP f E w) = Inr x \<longrightarrow> Q x (w_db (snd (registryP f E w))))"
    using f [OF _ aw(2) _ r] aw(1) r by (simp add: registryP_def good_def)
qed

lemma triple_forP: "(\<And>x. x \<in> set xs \<Longrightarrow> triple P (f x) (\<lambda>_. P)) \<Longrightarrow> triple P (forP f xs) (\<lambda>_. P)"
  by (induction xs) (auto intro!: triple_bindP [of P _ "\<lambda>_. P"] triple_returnP [of "\<lambda>_. P"])

lemma triple_countP: "(\<And>x. x \<in> set xs \<Longrightarrow> triple P (f x) (\<lambda>_. P)) \<Longrightarrow> triple P (countP f xs) (\<lambda>_. P)"
  by (induction xs) (auto intro!: triple_bindP [of P _ "\<lambda>_. P"] triple_returnP [of "\<lambda>_. P"])

section \<open>Coroutines that queue no assignment\<close>

definition neutral :: "('e, 'a) proc_raising \<Rightarrow> bool" where
  "neutral m \<longleftrightarrow> (\<forall>P. stable P \<longrightarrow> triple P m (\<lambda>_. P))"

named_theorems neutrals "coroutines that queue no assignment"

lemma neutral_triple: "neutral m \<Longrightarrow> stable P \<Longrightarrow> triple P m (\<lambda>_. P)"
  by (simp add: neutral_def)

lemma neutral_basic [neutrals]:
  "neutral (returnP x)" "neutral (raiseP e)" "neutral (liftP m)" "neutral (selectP q)" "neutral clockP" "neutral monotonicP"
  "neutral uuidP"
  unfolding neutral_def
  by (auto intro: triple_rules triple_post [OF triple_liftP] triple_post [OF triple_selectP] triple_returnP [of "\<lambda>_. P" for P])

lemma neutral_bindP [neutrals]: "neutral m \<Longrightarrow> (\<And>x. neutral (k x)) \<Longrightarrow> neutral (bindP m k)"
  unfolding neutral_def by (blast intro: triple_bindP)

lemma neutral_transactP: "(\<And>s s' x. tx s = Inr (s', x) \<Longrightarrow> db_step s s') \<Longrightarrow> neutral (transactP tx)"
  unfolding neutral_def by (blast intro: triple_transactP dest: stable_step)

lemma neutral_commitP: "(\<And>hid s s' x. tx hid s = Inr (s', x) \<Longrightarrow> db_step s s') \<Longrightarrow> neutral (commitP tx)"
  unfolding commitP_def by (intro neutrals neutral_transactP)

lemma neutral_registryP: "(\<And>s rg x rg'. backed s rg \<Longrightarrow> f rg = (x, rg') \<Longrightarrow> backed s rg') \<Longrightarrow> neutral (registryP f)"
  unfolding neutral_def by (blast intro: triple_registryP)

lemma neutral_forP [neutrals]: "(\<And>x. neutral (f x)) \<Longrightarrow> neutral (forP f xs)"
  by (induction xs) (auto intro: neutrals)

lemma neutral_countP [neutrals]: "(\<And>x. neutral (f x)) \<Longrightarrow> neutral (countP f xs)"
  by (induction xs) (auto intro: neutrals)

lemma neutral_cases [neutrals]:
  "neutral m \<Longrightarrow> neutral m' \<Longrightarrow> neutral (if c then m else m')"
  "neutral m \<Longrightarrow> (\<And>x. y = Some x \<Longrightarrow> neutral (k x)) \<Longrightarrow> neutral (case y of None \<Rightarrow> m | Some x \<Rightarrow> k x)"
  "(\<And>x y. neutral (l x y)) \<Longrightarrow> neutral (case p of (x, y) \<Rightarrow> l x y)"
  by (cases y; cases p; simp)+

lemma backed_queue:
  assumes "backed s rg" and "\<And>p. d = Assignment p \<Longrightarrow> assignment_backed s sid p" and "queue_delivery sid d rg = (ok, rg')"
  shows "backed s rg'"
proof (cases "map_of (rg_delivery_queues rg) sid")
  case None
  with assms show ?thesis by (simp add: queue_delivery_def)
next
  case (Some q)
  with assms(3) have rg': "map_of (rg_delivery_queues rg') = (map_of (rg_delivery_queues rg))(sid \<mapsto> q @ [d])"
    by (auto simp: queue_delivery_def)
  show ?thesis
    unfolding backed_def rg'
    using assms(1,2) Some by (auto simp: backed_def split: if_splits)
qed

lemma backed_queue_cancel:
  assumes "backed s rg" and "queue_delivery sid (CancelCommand c) rg = (ok, rg')"
  shows "backed s rg'"
  by (rule backed_queue [OF assms(1) _ assms(2)]) simp

lemma neutral_commits [neutrals]:
  "neutral (commitP (\<lambda>hid. commit_retry_ready hid t rv w now))"
  "neutral (commitP (\<lambda>hid. commit_workflow_success hid w rv v now))"
  "neutral (commitP (\<lambda>hid. commit_workflow_failure hid w rv now))"
  "neutral (commitP (\<lambda>hid. commit_workflow_cancellation hid w rv now))"
  "neutral (commitP (\<lambda>hid. commit_drain_task_cancellation hid t rv now))"
  "neutral (commitP (\<lambda>hid. commit_internal_cancellation_deadline hid a arv t rv now))"
  "neutral (commitP (\<lambda>hid. commit_workflow_failure_direction hid w cause now))"
  by (rule neutral_commitP, erule step_retry_ready step_succeeded step_failed step_cancelled step_drain_task
        step_cancel_deadline step_failing)+

lemma neutral_deadline [neutrals]:
  "neutral (transactP (\<lambda>s. bindE (set_cancellation_deadline a dl s) (\<lambda>s'. Inr (s', ()))))"
  by (rule neutral_transactP) (auto simp: bindE_eq_Inr intro: step_set_deadline)

lemma neutral_queue_cancellation [neutrals]: "neutral (queue_cancellation wf_row att)"
  unfolding queue_cancellation_def by (intro neutrals neutral_registryP) (rule backed_queue_cancel)

lemma neutral_drain_workflow [neutrals]: "neutral (drain_workflow w)"
  unfolding drain_workflow_def drain_attempt_def terminalize_drained_def by (intro neutrals)

section \<open>The scheduler queues what it has claimed\<close>

lemma stable_imp [stables]: "stable P \<Longrightarrow> stable (\<lambda>s. c \<longrightarrow> P s)"
  unfolding stable_def by blast

lemma stable_all [stables]: "(\<And>x. stable (P x)) \<Longrightarrow> stable (\<lambda>s. \<forall>x. P x s)"
  unfolding stable_def by blast

text \<open>A committed claim of a task read before backs the assignment built from what was read.\<close>

lemma claim_backs:
  assumes "reachable s" and "runs_spec wid spec s" and "seen_task task_row s" and "tx_workflow_id task_row = wid"
    and c: "commit_attempt_ownership hid (tx_id task_row) (tx_revision task_row) wid sid aid dl now s = Inr (s', out, Some n)"
    and "co_status out = COMMITTED"
    and i: "mk_TaskDefinitionId (tx_task_definition_id task_row) = Inr i" and td: "map_of (vs_tasks spec) i = Some td"
    and p: "assignment_for aid n task_row wid sid td dl = Assignment p"
  shows "assignment_backed s' sid p"
proof -
  obtain r where f: "find (claimable (tx_id task_row) wid (tx_revision task_row)) (db_tasks s) = Some r"
    and n: "n = tx_next_attempt_ordinal r"
    and s': "s' = s\<lparr>db_tasks := update_rows (claimable (tx_id task_row) wid (tx_revision task_row)) (claimed_row now) (db_tasks s),
             db_attempts := db_attempts s @ [claim_attempt aid r sid dl now],
             db_history := db_history s @ [claim_history hid wid (tx_id task_row) aid sid r now]\<rparr>"
    by (rule claim_committed [OF c assms(6)]) blast
  have m: "r \<in> set (db_tasks s)" "claimable (tx_id task_row) wid (tx_revision task_row) r" using find_SomeD [OF f] by auto
  have r: "r = task_row" by (rule seen_task_same [OF assms(3) m(1)]) (use m(2) in simp_all)
  have st: "db_steps s s'" using step_claim [OF c] by blast
  let ?a = "claim_attempt aid r sid dl now" and ?t = "claimed_row now task_row"
  have "?a \<in> set (db_attempts s')" by (simp add: s')
  moreover have "?t \<in> set (db_tasks s')"
    unfolding s' using m r by (auto simp: set_update_rows intro: rev_image_eqI [of task_row])
  moreover have "declared_activity s' ?t (act_name (td_activity_type td))"
    unfolding declared_activity_def using runs_spec_later [OF assms(1) st assms(2)] i td assms(4) by auto
  ultimately show ?thesis
    unfolding assignment_backed_def using p
    by (intro bexI [of _ ?a] bexI [of _ ?t]) (auto simp: assignment_for_def r n assms(4))
qed

lemma triple_option:
  "triple P m Q \<Longrightarrow> (\<And>x. y = Some x \<Longrightarrow> triple P (k x) Q) \<Longrightarrow> triple P (case y of None \<Rightarrow> m | Some x \<Rightarrow> k x) Q"
  by (cases y) simp_all

lemma triple_if: "(c \<Longrightarrow> triple P m Q) \<Longrightarrow> (\<not> c \<Longrightarrow> triple P m' Q) \<Longrightarrow> triple P (if c then m else m') Q"
  by simp

lemma triple_done: "triple P (returnP x) (\<lambda>_ _. True)"
  by (rule tripleI) (simp add: returnP_def)

lemma triple_assume: "(c \<Longrightarrow> triple P m Q) \<Longrightarrow> triple (\<lambda>s. c \<and> P s) m Q"
  by (auto simp: triple_def)

lemma triple_queue_assignment:
  assumes "stable (\<lambda>s. \<forall>p. d = Assignment p \<longrightarrow> assignment_backed s sid p)"
  shows "triple (\<lambda>s. \<forall>p. d = Assignment p \<longrightarrow> assignment_backed s sid p) (registryP (queue_delivery sid d)) (\<lambda>_ _. True)"
  by (rule triple_registryP [OF assms]) (use backed_queue in blast)

lemma triple_deliver_claimed:
  "triple (\<lambda>s. co_status out = COMMITTED \<longrightarrow> (\<forall>n. ord = Some n \<longrightarrow>
           (\<forall>p. assignment_for aid n task_row wid sid td dl = Assignment p \<longrightarrow> assignment_backed s sid p)))
        (if co_status out = COMMITTED then
           (case ord of None \<Rightarrow> returnP ()
            | Some n \<Rightarrow> bindP (registryP (queue_delivery sid (assignment_for aid n task_row wid sid td dl))) (\<lambda>_. returnP ()))
         else returnP ()) (\<lambda>_ _. True)"
proof (rule triple_if [OF _ triple_done], rule triple_option [OF triple_done], rule triple_bindP [OF _ triple_done])
  fix n assume c: "co_status out = COMMITTED" "ord = Some n"
  have "stable (\<lambda>s. \<forall>p. assignment_for aid n task_row wid sid td dl = Assignment p \<longrightarrow> assignment_backed s sid p)"
    by (intro stables)
  note q = triple_queue_assignment [OF this]
  show "triple (\<lambda>s. co_status out = COMMITTED \<longrightarrow> (\<forall>n. ord = Some n \<longrightarrow>
           (\<forall>p. assignment_for aid n task_row wid sid td dl = Assignment p \<longrightarrow> assignment_backed s sid p)))
     (registryP (queue_delivery sid (assignment_for aid n task_row wid sid td dl))) (\<lambda>_ _. True)"
    by (rule triple_weaken [OF q]) (use c in blast)
qed

lemma triple_claim:
  assumes "tx_workflow_id task_row = wid" and i: "mk_TaskDefinitionId (tx_task_definition_id task_row) = Inr i"
    and td: "map_of (vs_tasks spec) i = Some td"
  shows "triple (\<lambda>s. runs_spec wid spec s \<and> seen_task task_row s)
      (commitP (\<lambda>hid. commit_attempt_ownership hid (tx_id task_row) (tx_revision task_row) wid sid aid dl now))
      (\<lambda>x s. co_status (fst x) = COMMITTED \<longrightarrow> (\<forall>n. snd x = Some n \<longrightarrow>
         (\<forall>p. assignment_for aid n task_row wid sid td dl = Assignment p \<longrightarrow> assignment_backed s sid p)))"
proof (rule triple_commitP)
  show "stable (\<lambda>s. runs_spec wid spec s \<and> seen_task task_row s)" by (intro stables)
  fix hid s s' and x :: "commit_outcome \<times> int option"
  assume c: "reachable s" "runs_spec wid spec s \<and> seen_task task_row s"
    "commit_attempt_ownership hid (tx_id task_row) (tx_revision task_row) wid sid aid dl now s = Inr (s', x)"
  obtain out ord where x: "x = (out, ord)" by (cases x)
  have "db_step s s'" using c(3) unfolding x by (rule step_claim)
  moreover have "assignment_backed s' sid p" if "co_status out = COMMITTED" "ord = Some n"
    "assignment_for aid n task_row wid sid td dl = Assignment p" for n p
    using claim_backs [OF c(1) _ _ assms(1) _ that(1) i td that(3)] c(2,3) that(2) x by blast
  ultimately show "db_step s s' \<and> (co_status (fst x) = COMMITTED \<longrightarrow> (\<forall>n. snd x = Some n \<longrightarrow>
      (\<forall>p. assignment_for aid n task_row wid sid td dl = Assignment p \<longrightarrow> assignment_backed s' sid p)))"
    by (simp add: x)
qed

lemma triple_dispatch:
  assumes "tx_workflow_id task_row = wid"
  shows "triple (\<lambda>s. runs_spec wid spec s \<and> seen_task task_row s) (dispatch_task dl wid spec task_row) (\<lambda>_ _. True)"
proof -
  have st: "stable (\<lambda>s. runs_spec wid spec s \<and> seen_task task_row s)" by (intro stables)
  have n: "neutral (registryP (\<lambda>rg. (find_eligible_worker_for_activity act m rg, rg)))" for act m
    by (rule neutral_registryP) simp
  show ?thesis
    unfolding dispatch_task_def
    by (rule triple_bindP [OF triple_liftP], rule triple_assume, rule triple_option [OF triple_done],
        rule triple_bindP [OF triple_draws(2)], rule triple_bindP [OF neutral_triple [OF n st]],
        rule triple_option [OF triple_done], rule triple_bindP [OF triple_draws(1)], rule triple_bindP [OF triple_draws(3)],
        rule triple_bindP [OF triple_claim [OF assms]], assumption, assumption, simp only: split_beta, rule triple_deliver_claimed)
qed

text \<open>A stable fact survives any coroutine that changes the store by transactions only.\<close>

lemma triple_frame:
  assumes "triple P m Q" and "moves_by_steps m" and "stable R"
  shows "triple (\<lambda>s. P s \<and> R s) m (\<lambda>x s. Q x s \<and> R s)"
proof (rule tripleI)
  fix E w assume E: "others_deliver E" "good w" "P (w_db w) \<and> R (w_db w)"
  have "db_steps (w_db w) (w_db (snd (m E w)))"
    using assms(2) E unfolding moves_by_steps_def good_def others_deliver_def by blast
  then have "R (w_db (snd (m E w)))" using assms(3) E unfolding stable_def good_def by blast
  with tripleD [OF assms(1) E(1,2)] E(3)
  show "good (snd (m E w)) \<and> (\<forall>x. fst (m E w) = Inr x \<longrightarrow> Q x (w_db (snd (m E w))) \<and> R (w_db (snd (m E w))))" by blast
qed

lemma moves_dispatch_task [moves]: "moves_by_steps (dispatch_task dl wid spec t)"
  unfolding dispatch_task_def by (intro moves)

lemma stable_ball [stables]: "(\<And>x. stable (P x)) \<Longrightarrow> stable (\<lambda>s. \<forall>x \<in> A. P x s)"
  unfolding stable_def by blast

definition seen_tasks :: "workflow_execution_id \<Rightarrow> task_row list \<Rightarrow> db \<Rightarrow> bool" where
  "seen_tasks wid ts s \<longleftrightarrow> (\<forall>t \<in> set ts. tx_workflow_id t = wid \<and> seen_task t s)"

lemma stable_seen_tasks [stables]: "stable (seen_tasks wid ts)"
  unfolding seen_tasks_def by (intro stables)

lemma triple_dispatch_all:
  "triple (\<lambda>s. runs_spec wid spec s \<and> seen_tasks wid ts s) (forP (dispatch_task dl wid spec) ts) (\<lambda>_ _. True)"
proof -
  have "triple (\<lambda>s. runs_spec wid spec s \<and> seen_tasks wid ts s) (forP (dispatch_task dl wid spec) ts)
      (\<lambda>_ s. runs_spec wid spec s \<and> seen_tasks wid ts s)"
  proof (rule triple_forP)
    fix t assume t: "t \<in> set ts"
    show "triple (\<lambda>s. runs_spec wid spec s \<and> seen_tasks wid ts s) (dispatch_task dl wid spec t)
      (\<lambda>_ s. runs_spec wid spec s \<and> seen_tasks wid ts s)"
    proof (cases "tx_workflow_id t = wid")
      case True
      have "stable (\<lambda>s. runs_spec wid spec s \<and> seen_tasks wid ts s)" by (intro stables)
      from triple_frame [OF triple_dispatch [OF True] moves_dispatch_task this]
      have "triple (\<lambda>s. (runs_spec wid spec s \<and> seen_task t s) \<and> runs_spec wid spec s \<and> seen_tasks wid ts s)
          (dispatch_task dl wid spec t) (\<lambda>_ s. runs_spec wid spec s \<and> seen_tasks wid ts s)" by simp
      then show ?thesis by (rule triple_weaken) (use t in \<open>simp add: seen_tasks_def\<close>)
    next
      case False
      then have "\<not> seen_tasks wid ts s" for s using t by (auto simp: seen_tasks_def)
      then show ?thesis by (simp add: triple_def)
    qed
  qed
  then show ?thesis by (rule triple_post) simp
qed

lemma triple_dispatch_runnable:
  "triple (runs_spec wid spec) (dispatch_runnable_tasks dl wid spec) (\<lambda>_ _. True)"
  unfolding dispatch_runnable_tasks_def
proof (rule triple_bindP [OF triple_selectP], rule stable_runs_spec)
  fix ts
  show "triple (\<lambda>s. runs_spec wid spec s \<and> reachable s \<and> ts = filter (\<lambda>t. tx_state t = TS_RUNNABLE) (tasks_of s wid))
     (forP (dispatch_task dl wid spec) ts) (\<lambda>_ _. True)"
    by (rule triple_weaken [OF triple_dispatch_all]) (auto simp: seen_tasks_def tasks_of_def intro: seen_taskI)
qed

lemma neutral_promote [neutrals]: "neutral (promote_due_retry wid now t)" "neutral (try_succeed_workflow w spec ts)"
  unfolding promote_due_retry_def try_succeed_workflow_def Let_def by (intro neutrals)+

lemma neutral_promote_task [neutrals]: "neutral (evaluate_and_promote_task w spec d t)"
proof -
  have "neutral (commitP (\<lambda>hid. commit_task_readiness hid t rv w v now))" if "json_object v" for t rv w v now
    by (rule neutral_commitP) (rule step_ready [OF that])
  note commit = this [OF resolved_input_object]
  show ?thesis
    unfolding evaluate_and_promote_task_def Let_def by (intro neutrals; (rule commit, assumption)?)
qed

definition has_definition :: "workflow_execution_id \<Rightarrow> definition_id \<Rightarrow> db \<Rightarrow> bool" where
  "has_definition wid d s \<longleftrightarrow> (\<exists>w. get_workflow s wid = Some w \<and> wx_definition_id w = d)"

lemma stable_has_definition [stables]: "stable (has_definition wid d)"
  unfolding stable_def has_definition_def using workflow_survives by metis

lemma triple_neutral: "neutral m \<Longrightarrow> triple P m (\<lambda>_ _. True)"
  by (rule triple_weaken [OF neutral_triple]) (auto intro: stables)

lemma triple_advance: "triple (\<lambda>_. True) (advance_workflow dl wid) (\<lambda>_ _. True)"
  unfolding advance_workflow_def
proof (rule triple_bindP [OF triple_selectP [OF stable_const]], rule triple_option [OF triple_done],
    rule triple_if [OF triple_neutral [OF neutral_drain_workflow]], rule triple_if [OF triple_done])
  fix wf and wf_row :: workflow_row assume wf: "wf = Some wf_row"
  let ?d = "wx_definition_id wf_row"
  let ?rest = "\<lambda>spec. bindP (selectP (\<lambda>s. tasks_of s wid)) (\<lambda>task_rows.
        let tasks_by_def_id = fold (\<lambda>r. dict_set (tx_task_definition_id r) r) task_rows [] in
        if length task_rows = length (vs_tasks spec) \<and> list_all (\<lambda>r. tx_state r = TS_SUCCEEDED) task_rows
        then try_succeed_workflow wf_row spec task_rows
        else bindP clockP (\<lambda>now_utc. bindP (forP (promote_due_retry wid now_utc) task_rows) (\<lambda>_.
          bindP (forP (evaluate_and_promote_task wf_row spec tasks_by_def_id) (filter (\<lambda>r. tx_state r = TS_PENDING) task_rows))
            (\<lambda>_. dispatch_runnable_tasks dl wid spec))))"
  have rest: "triple (runs_spec wid spec) (?rest spec) (\<lambda>_ _. True)" for spec
    unfolding Let_def
    by (rule triple_bindP [OF neutral_triple [OF neutral_basic(4)]], rule stable_runs_spec,
        rule triple_if [OF triple_neutral], intro neutrals, rule triple_bindP [OF triple_draws(1)],
        rule triple_bindP [OF neutral_triple [OF neutral_forP]], intro neutrals, rule stable_runs_spec,
        rule triple_bindP [OF neutral_triple [OF neutral_forP]], intro neutrals, rule stable_runs_spec,
        rule triple_dispatch_runnable)
  have "triple (has_definition wid ?d) (bindP (selectP (stored_document ?d)) (\<lambda>def_row. case def_row of
       None \<Rightarrow> returnP () | Some doc \<Rightarrow> bindP (liftP (deserialize_validated_spec doc)) ?rest)) (\<lambda>_ _. True)"
  proof (rule triple_bindP [OF triple_selectP [OF stable_has_definition]], rule triple_option [OF triple_done],
      rule triple_bindP [OF triple_liftP])
    fix def_row and doc :: pyval and spec assume "def_row = Some doc"
    show "triple (\<lambda>s. deserialize_validated_spec doc = Inr spec \<and> has_definition wid ?d s \<and> reachable s \<and> def_row = stored_document ?d s)
       (?rest spec) (\<lambda>_ _. True)"
      by (rule triple_weaken [OF rest]) (use \<open>def_row = Some doc\<close> in \<open>auto simp: runs_spec_def has_definition_def dest!: sym [of "Some doc"]\<close>)
  qed
  then show "triple (\<lambda>s. True \<and> reachable s \<and> wf = get_workflow s wid) (bindP (selectP (stored_document ?d)) (\<lambda>def_row. case def_row of
       None \<Rightarrow> returnP () | Some doc \<Rightarrow> bindP (liftP (deserialize_validated_spec doc)) ?rest)) (\<lambda>_ _. True)"
    by (rule triple_weaken) (use wf in \<open>auto simp: has_definition_def dest!: sym [of "Some wf_row"]\<close>)
qed

lemma neutral_settle_swept: "internal_cause cause \<Longrightarrow> neutral (settle_swept_attempt cause now lost p)"
  unfolding settle_swept_attempt_def by (intro neutrals neutral_commitP) (rule step_internal_failure)

lemma neutral_sweeps: "neutral sweep_timeouts_and_deadlines" "neutral sweep_worker_loss"
  unfolding sweep_timeouts_and_deadlines_def sweep_worker_loss_def
  by (intro neutrals neutral_settle_swept internal_causes neutral_registryP; simp)+

section \<open>Properties\<close>

text \<open>
  Whatever the scheduler does, it does by the transactions: an advance, a drain or a sweep,
  with any interleaving of others at its await points, moves the store along the step relation,
  so every invariant of the reachable stores holds throughout, even when the coroutine raises.
\<close>

theorem scheduler_moves_by_transactions:
  assumes "others_transact E" and "reachable (w_db w)"
  shows "db_steps (w_db w) (w_db (snd (advance_workflow dl wid E w))) \<and>
     db_steps (w_db w) (w_db (snd (drain_workflow wid E w))) \<and>
     db_steps (w_db w) (w_db (snd (sweep_timeouts_and_deadlines E w))) \<and>
     db_steps (w_db w) (w_db (snd (sweep_worker_loss E w)))"
  using assms moves_advance_workflow [of dl wid] moves_drain_workflow [of wid] moves_sweeps
  unfolding moves_by_steps_def by blast

lemma backed_after:
  assumes "triple (\<lambda>_. True) m (\<lambda>_ _. True)" and "others_deliver E" and "reachable (w_db w)" and "backed (w_db w) (w_registry w)"
  shows "backed (w_db (snd (m E w))) (w_registry (snd (m E w)))"
  using tripleD(1) [OF assms(1,2), of w] assms(3,4) by (simp add: good_def)


text \<open>A run: the runnable task of the sample workflow is dispatched to a registered worker.\<close>

definition dispatch_world :: world where
  "dispatch_world = \<lparr>w_db = db_ready, w_registry =
     snd (register_worker 31 0 0 ''worker'' [ActivityType ''act''] True (new_registry 15000000)), w_events = 0\<rparr>"

theorem scheduler_moves_by_transactions_witness:
  "db_steps db_ready (w_db (snd (advance_workflow 30 2 idle_environment dispatch_world)))"
proof -
  have w: "w_db dispatch_world = db_ready" by (simp add: dispatch_world_def)
  from scheduler_moves_by_transactions [OF quiet_others_transact [OF quiet_idle], of dispatch_world 30 2] reachable_ready
  show ?thesis unfolding w by blast
qed


end
