(* ===== verification/Execution_Rest.thy ===== *)
theory Execution_Rest
  imports Delivery_Guarantee
begin

text \<open>
  An execution comes to rest. Every transition of a row raises a rank that its state machine and
  its attempt budget bound, so the rows of one execution change only a bounded number of times,
  whatever is called, in whatever order and for however long.
\<close>

section \<open>Ranks\<close>

definition total :: "('r \<Rightarrow> int) \<Rightarrow> ('r \<Rightarrow> bool) \<Rightarrow> 'r list \<Rightarrow> int" where
  "total rank S rows = (\<Sum>r \<in> {r \<in> set rows. S r}. rank r)"

text \<open>
  Rows of a table that live on, each with at least its rank, add up to at least the total, and to
  the total only if none changed and none is new.
\<close>

lemma total_grows:
  assumes grow: "\<And>r. r \<in> A \<Longrightarrow> f r \<in> B \<and> key (f r) = key r \<and> rank r \<le> (rank (f r) :: int)"
    and "finite A" and "finite B" and "inj_on key A" and pos: "\<And>r. r \<in> B \<Longrightarrow> 0 < rank r"
  shows "sum rank A \<le> sum rank B"
    and "sum rank A = sum rank B \<Longrightarrow> B = f ` A \<and> (\<forall>r \<in> A. rank (f r) = rank r)"
proof -
  have inj: "inj_on f A" using assms(4) grow unfolding inj_on_def by metis
  have sub: "f ` A \<subseteq> B" using grow by blast
  have img: "sum rank (f ` A) = (\<Sum>r \<in> A. rank (f r))" by (simp add: sum.reindex [OF inj] comp_def)
  have low: "sum rank A \<le> sum rank (f ` A)" unfolding img by (rule sum_mono) (use grow in blast)
  have rest: "sum rank B = sum rank (f ` A) + sum rank (B - f ` A)"
    using sum.subset_diff [OF sub assms(3)] by (simp add: add.commute)
  have new: "0 \<le> sum rank (B - f ` A)" by (rule sum_nonneg) (use pos in \<open>auto intro: less_imp_le\<close>)
  show "sum rank A \<le> sum rank B" using low rest new by simp
  assume eq: "sum rank A = sum rank B"
  with low rest new have "sum rank (B - f ` A) = 0" "sum rank A = (\<Sum>r \<in> A. rank (f r))" unfolding img by simp_all
  have "B - f ` A = {}"
  proof (rule ccontr)
    assume "B - f ` A \<noteq> {}"
    then have "0 < sum rank (B - f ` A)" using assms(3) pos by (intro sum_pos) auto
    with \<open>sum rank (B - f ` A) = 0\<close> show False by simp
  qed
  moreover have "\<forall>r \<in> A. rank (f r) = rank r"
    using sum_mono_inv [OF \<open>sum rank A = (\<Sum>r \<in> A. rank (f r))\<close> _ _ assms(2)] grow by metis
  ultimately show "B = f ` A \<and> (\<forall>r \<in> A. rank (f r) = rank r)" using sub by blast
qed

text \<open>A table whose transitions raise a rank.\<close>

locale ranked_rows = versioned_rows key rev st core trans terminal kept
  for key :: "'r \<Rightarrow> nat" and rev :: "'r \<Rightarrow> int" and st :: "'r \<Rightarrow> 's" and core :: "'r \<Rightarrow> 'c"
    and trans :: "'s \<Rightarrow> 's \<Rightarrow> bool" and terminal :: "'s \<Rightarrow> bool" and kept :: "'r \<Rightarrow> 'r \<Rightarrow> bool" +
  fixes rank :: "'r \<Rightarrow> int"
  assumes rank_core: "core r = core r' \<Longrightarrow> rank r = rank r'"
    and rank_trans: "trans (st r) (st r') \<Longrightarrow> kept r r' \<Longrightarrow> rank r < rank r'"
begin

lemma evolves_rank: "evolves r r' \<Longrightarrow> rank r \<le> rank r' \<and> (rank r = rank r' \<longrightarrow> core r' = core r)"
  unfolding evolves_def
proof (induction rule: rtranclp_induct)
  case (step u v)
  from step.hyps(2) consider "core v = core u" | "rank u < rank v"
    unfolding row_step_def using rank_trans by blast
  then show ?case
  proof cases
    case 1
    with rank_core [OF 1] step.IH show ?thesis by auto
  next
    case 2
    with step.IH show ?thesis by auto
  qed
qed simp

lemma total_evolves:
  assumes "table_evolves rows rows'" and "distinct (map key rows)"
    and keep: "\<forall>r r'. evolves r r' \<longrightarrow> S r \<longrightarrow> S' r'" and pos: "\<forall>r \<in> set rows'. S' r \<longrightarrow> 0 < rank r"
  shows "total rank S rows \<le> total rank S' rows'"
    and "total rank S rows = total rank S' rows' \<Longrightarrow> core ` {r \<in> set rows'. S' r} = core ` {r \<in> set rows. S r}"
proof -
  from assms(1) obtain f where f: "\<And>r. r \<in> set rows \<Longrightarrow> f r \<in> set rows' \<and> evolves r (f r)"
    unfolding table_evolves_def by metis
  let ?A = "{r \<in> set rows. S r}" and ?B = "{r \<in> set rows'. S' r}"
  have grow: "f r \<in> ?B \<and> key (f r) = key r \<and> rank r \<le> rank (f r)" if "r \<in> ?A" for r
    using that f keep evolves_key evolves_rank by auto
  have inj: "inj_on key ?A" using assms(2) by (auto simp: distinct_map inj_on_def)
  note g = total_grows [of ?A f ?B key rank, OF grow _ _ inj]
  show "total rank S rows \<le> total rank S' rows'"
    unfolding total_def by (rule g(1)) (use pos in auto)
  assume "total rank S rows = total rank S' rows'"
  then have B: "?B = f ` ?A" "\<forall>r \<in> ?A. rank (f r) = rank r"
    unfolding total_def using g(2) pos by auto
  have "core (f r) = core r" if "r \<in> ?A" for r
    using evolves_rank [of r "f r"] f [of r] B(2) that by auto
  then have "core ` f ` ?A = core ` ?A" by (simp add: image_image)
  then show "core ` ?B = core ` ?A" using B(1) by simp
qed

end

fun wf_rank :: "workflow_state \<Rightarrow> int" where
  "wf_rank WF_INITIALIZING = 1"
| "wf_rank WF_RUNNING = 2"
| "wf_rank WF_FAILING = 3"
| "wf_rank WF_CANCELLING = 3"
| "wf_rank _ = 4"

fun ts_rank :: "task_state \<Rightarrow> int" where
  "ts_rank TS_RUNNING = 0"
| "ts_rank TS_PENDING = 1"
| "ts_rank TS_RETRY_WAIT = 1"
| "ts_rank TS_RUNNABLE = 2"
| "ts_rank _ = 3"

fun as_rank :: "attempt_state \<Rightarrow> int" where
  "as_rank AS_CLAIMED = 1"
| "as_rank AS_RUNNING = 2"
| "as_rank _ = 3"

text \<open>A task goes round once per attempt: its rank counts the attempts it has used.\<close>

definition task_rank :: "task_row \<Rightarrow> int" where
  "task_rank t = 3 * tx_next_attempt_ordinal t + ts_rank (tx_state t)"

interpretation wf_ranks: ranked_rows wx_id wx_revision wx_state id wf_trans
    "\<lambda>s. wf_terminal s" wf_kept "\<lambda>r. wf_rank (wx_state r)"
  by unfold_locales auto

interpretation task_ranks: ranked_rows tx_id tx_revision tx_state id ts_trans
    "\<lambda>s. ts_terminal s" task_kept task_rank
  by unfold_locales (auto simp: task_rank_def task_kept_def)

interpretation attempt_ranks: ranked_rows ax_id ax_revision ax_state attempt_core as_trans
    "\<lambda>s. as_terminal s" attempt_kept "\<lambda>r. as_rank (ax_state r)"
  by unfold_locales (auto dest: attempt_core_eqD)


section \<open>The rows of an execution\<close>

definition task_ids :: "db \<Rightarrow> workflow_execution_id \<Rightarrow> task_execution_id set" where
  "task_ids s wid = tx_id ` {t \<in> set (db_tasks s). tx_workflow_id t = wid}"

text \<open>All that is stored of an execution, but for the cancellation deadlines of its attempts.\<close>

definition execution_rows :: "workflow_execution_id \<Rightarrow> db \<Rightarrow> workflow_row set \<times> task_row set \<times> attempt_row set" where
  "execution_rows wid s = ({w \<in> set (db_workflows s). wx_id w = wid}, {t \<in> set (db_tasks s). tx_workflow_id t = wid},
     attempt_core ` {a \<in> set (db_attempts s). ax_task_id a \<in> task_ids s wid})"

definition work :: "workflow_execution_id \<Rightarrow> db \<Rightarrow> int" where
  "work wid s = total (\<lambda>r. wf_rank (wx_state r)) (\<lambda>w. wx_id w = wid) (db_workflows s) +
     total task_rank (\<lambda>t. tx_workflow_id t = wid) (db_tasks s) +
     total (\<lambda>r. as_rank (ax_state r)) (\<lambda>a. ax_task_id a \<in> task_ids s wid) (db_attempts s)"

lemma rank_pos: "0 < wf_rank ws" "0 < as_rank st" "0 \<le> ts_rank ts"
  by (cases ws, simp_all) (cases st, simp_all, cases ts, simp_all)

lemma rank_le: "wf_rank ws \<le> 4" "as_rank st \<le> 3" "ts_rank ts \<le> 3"
  by (cases ws, simp_all) (cases st, simp_all, cases ts, simp_all)

lemma task_ids_grow:
  assumes "reachable s" and "db_steps s s'"
  shows "task_ids s wid \<subseteq> task_ids s' wid"
proof
  fix i assume "i \<in> task_ids s wid"
  then obtain t where t: "t \<in> set (db_tasks s)" "tx_workflow_id t = wid" "i = tx_id t" by (auto simp: task_ids_def)
  from task_survives [OF assms t(1)] obtain t' where "t' \<in> set (db_tasks s')" "tx_id t' = tx_id t" "task_rows.evolves t t'" by blast
  moreover from this(3) t(2) have "tx_workflow_id t' = wid" by (simp add: task_evolves_kept)
  ultimately show "i \<in> task_ids s' wid" unfolding task_ids_def using t(3) by (intro image_eqI [of _ _ t']) auto
qed

lemma work_grows:
  assumes "reachable s" and "db_steps s s'"
  shows "work wid s \<le> work wid s' \<and> (work wid s = work wid s' \<longrightarrow> execution_rows wid s' = execution_rows wid s)"
proof -
  note ok = reachable_lifecycle [OF assms(1)]
  have ev: "wf_rows.table_evolves (db_workflows s) (db_workflows s')" "task_rows.table_evolves (db_tasks s) (db_tasks s')"
    "attempt_rows.table_evolves (db_attempts s) (db_attempts s')"
    using db_steps_evolves [OF assms(2) ok] by (simp_all add: db_evolves_def)
  have d: "distinct (map wx_id (db_workflows s))" "distinct (map tx_id (db_tasks s))" "distinct (map ax_id (db_attempts s))"
    using lifecycle_db_ok [OF ok] by (simp_all add: db_ok_def)
  have "\<forall>t \<in> set (db_tasks s'). task_inv t" using db_steps_lifecycle [OF assms(2) ok] by (simp add: lifecycle_ok_def)
  then have pos: "\<forall>t \<in> set (db_tasks s'). tx_workflow_id t = wid \<longrightarrow> 0 < task_rank t"
  proof (intro ballI impI)
    fix t assume "\<forall>t \<in> set (db_tasks s'). task_inv t" "t \<in> set (db_tasks s')"
    then have "1 \<le> tx_next_attempt_ordinal t" by (simp add: task_inv_def)
    with rank_pos(3) [of "tx_state t"] show "0 < task_rank t" by (simp add: task_rank_def)
  qed
  have ka: "\<forall>a b. attempt_rows.evolves a b \<longrightarrow> ax_task_id a \<in> task_ids s wid \<longrightarrow> ax_task_id b \<in> task_ids s' wid"
    using attempt_evolves_kept task_ids_grow [OF assms, of wid] by (fastforce simp: attempt_kept_def)
  have kw: "\<forall>u v. wf_rows.evolves u v \<longrightarrow> wx_id u = wid \<longrightarrow> wx_id v = wid" using wf_rows.evolves_key by auto
  have kt: "\<forall>u v. task_rows.evolves u v \<longrightarrow> tx_workflow_id u = wid \<longrightarrow> tx_workflow_id v = wid"
    using task_evolves_kept by blast
  have pw: "\<forall>r \<in> set (db_workflows s'). wx_id r = wid \<longrightarrow> 0 < wf_rank (wx_state r)"
    and pa: "\<forall>r \<in> set (db_attempts s'). ax_task_id r \<in> task_ids s' wid \<longrightarrow> 0 < as_rank (ax_state r)"
    using rank_pos by blast+
  note w = wf_ranks.total_evolves [OF ev(1) d(1) kw pw] and t = task_ranks.total_evolves [OF ev(2) d(2) kt pos]
    and a = attempt_ranks.total_evolves [OF ev(3) d(3) ka pa]
  note le = w(1) t(1) a(1)
  show ?thesis
  proof
    show "work wid s \<le> work wid s'" unfolding work_def using le by linarith
    show "work wid s = work wid s' \<longrightarrow> execution_rows wid s' = execution_rows wid s"
    proof
      assume "work wid s = work wid s'"
      with le have eq:
        "total (\<lambda>r. wf_rank (wx_state r)) (\<lambda>w. wx_id w = wid) (db_workflows s) = total (\<lambda>r. wf_rank (wx_state r)) (\<lambda>w. wx_id w = wid) (db_workflows s')"
        "total task_rank (\<lambda>t. tx_workflow_id t = wid) (db_tasks s) = total task_rank (\<lambda>t. tx_workflow_id t = wid) (db_tasks s')"
        "total (\<lambda>r. as_rank (ax_state r)) (\<lambda>a. ax_task_id a \<in> task_ids s wid) (db_attempts s) =
         total (\<lambda>r. as_rank (ax_state r)) (\<lambda>a. ax_task_id a \<in> task_ids s' wid) (db_attempts s')"
        unfolding work_def by linarith+
      from w(2) [OF eq(1)] t(2) [OF eq(2)] a(2) [OF eq(3)]
      show "execution_rows wid s' = execution_rows wid s" by (simp add: execution_rows_def)
    qed
  qed
qed

section \<open>The budget of an execution\<close>

definition budget :: "workflow_execution_id \<Rightarrow> db \<Rightarrow> int" where
  "budget wid s = 4 + (\<Sum>t \<in> {t \<in> set (db_tasks s). tx_workflow_id t = wid}. 6 * tx_max_attempts t + 6)"

lemma one_workflow: "db_ok s \<Longrightarrow> sum (\<lambda>r. wf_rank (wx_state r)) {w \<in> set (db_workflows s). wx_id w = wid} \<le> 4"
proof (cases "{w \<in> set (db_workflows s). wx_id w = wid} = {}")
  case False
  assume "db_ok s"
  then have d: "distinct (map wx_id (db_workflows s))" by (simp add: db_ok_def)
  from False obtain w where w: "w \<in> set (db_workflows s)" "wx_id w = wid" by blast
  have "{w \<in> set (db_workflows s). wx_id w = wid} = {w}" using distinct_map_eqD [OF d] w by blast
  then show ?thesis by (simp only: sum.insert_remove finite.emptyI) (simp add: rank_le(1))
qed (simp only: sum.empty)

lemma attempts_of_tasks:
  assumes "lifecycle_ok s"
  shows "int (card {a \<in> set (db_attempts s). ax_task_id a \<in> task_ids s wid}) \<le>
     (\<Sum>t \<in> {t \<in> set (db_tasks s). tx_workflow_id t = wid}. tx_max_attempts t)"
proof -
  let ?T = "{t \<in> set (db_tasks s). tx_workflow_id t = wid}" and ?A = "{a \<in> set (db_attempts s). ax_task_id a \<in> task_ids s wid}"
  let ?of = "\<lambda>t. filter (\<lambda>a. ax_task_id a = tx_id t) (db_attempts s)"
  have sub: "?A \<subseteq> (\<Union>t \<in> ?T. set (?of t))" by (auto simp: task_ids_def)
  have "card ?A \<le> card (\<Union>t \<in> ?T. set (?of t))" by (rule card_mono [OF _ sub]) simp
  also have "\<dots> \<le> (\<Sum>t \<in> ?T. card (set (?of t)))" by (rule card_UN_le) simp
  also have "\<dots> \<le> (\<Sum>t \<in> ?T. length (?of t))" by (rule sum_mono) (rule card_length)
  finally have "int (card ?A) \<le> (\<Sum>t \<in> ?T. int (length (?of t)))" by (simp only: of_nat_sum [symmetric] of_nat_le_iff)
  also have "\<dots> \<le> (\<Sum>t \<in> ?T. tx_max_attempts t)" by (rule sum_mono) (use attempts_within_budget [OF assms] in blast)
  finally show ?thesis .
qed

lemma work_within_budget:
  assumes "lifecycle_ok s"
  shows "work wid s \<le> budget wid s"
proof -
  let ?T = "{t \<in> set (db_tasks s). tx_workflow_id t = wid}" and ?A = "{a \<in> set (db_attempts s). ax_task_id a \<in> task_ids s wid}"
  have w: "sum (\<lambda>r. wf_rank (wx_state r)) {w \<in> set (db_workflows s). wx_id w = wid} \<le> 4"
    by (rule one_workflow [OF lifecycle_db_ok [OF assms]])
  have t: "sum task_rank ?T \<le> (\<Sum>t \<in> ?T. 3 * tx_max_attempts t + 6)"
  proof (rule sum_mono)
    fix t assume "t \<in> ?T"
    with assms have "tx_next_attempt_ordinal t \<le> tx_max_attempts t + 1" by (simp add: lifecycle_ok_def task_inv_def)
    with rank_le(3) [of "tx_state t"] show "task_rank t \<le> 3 * tx_max_attempts t + 6" by (simp add: task_rank_def)
  qed
  have "sum (\<lambda>r. as_rank (ax_state r)) ?A \<le> of_nat (card ?A) * 3" by (rule sum_bounded_above) (rule rank_le(2))
  then have a: "sum (\<lambda>r. as_rank (ax_state r)) ?A \<le> 3 * (\<Sum>t \<in> ?T. tx_max_attempts t)"
    using attempts_of_tasks [OF assms, of wid] by linarith
  have "budget wid s = 4 + (\<Sum>t \<in> ?T. 3 * tx_max_attempts t + 6) + 3 * (\<Sum>t \<in> ?T. tx_max_attempts t)"
    unfolding budget_def sum_distrib_left add.assoc sum.distrib [symmetric] by (simp add: algebra_simps)
  with w t a show ?thesis unfolding work_def total_def by linarith
qed

lemma work_nonneg:
  assumes "lifecycle_ok s" shows "0 \<le> work wid s"
proof -
  have "0 \<le> task_rank t" if "t \<in> set (db_tasks s)" for t
  proof -
    have "1 \<le> tx_next_attempt_ordinal t" using assms that by (simp add: lifecycle_ok_def task_inv_def)
    with rank_pos(3) [of "tx_state t"] show ?thesis by (simp add: task_rank_def)
  qed
  then show ?thesis
    unfolding work_def total_def using rank_pos by (intro add_nonneg_nonneg sum_nonneg) (auto intro: less_imp_le)
qed

text \<open>Once it has begun, the tasks of an execution and so its budget are fixed.\<close>

lemma begun_task_keys:
  assumes "reachable s" and "db_steps s s'" and "get_workflow s wid = Some w" and "wx_state w \<noteq> WF_INITIALIZING"
    and "(wid, name) \<in> set (map task_key (db_tasks s'))"
  shows "(wid, name) \<in> set (map task_key (db_tasks s))"
  using assms(2,5)
proof (induction rule: rtranclp_induct)
  case (step u v)
  obtain w' where "get_workflow u wid = Some w'" "wf_rows.evolves w w'" by (rule workflow_survives [OF assms(1) step.hyps(1) assms(3)])
  with never_initializing_again [OF wf_rows.evolves_state assms(4)] have "workflow_state_of u wid \<noteq> Some WF_INITIALIZING"
    by (simp add: workflow_state_of_def)
  with db_step_tables [OF step.hyps(2)] step.prems have "(wid, name) \<in> set (map task_key (db_tasks u))" by (metis fst_conv)
  then show ?case by (rule step.IH)
qed

lemma evolves_budget: "task_rows.evolves t t' \<Longrightarrow> tx_max_attempts t' = tx_max_attempts t"
  unfolding task_rows.evolves_def
  by (induction rule: rtranclp_induct) (auto simp: task_rows.row_step_def task_kept_def)

lemma budget_fixed:
  assumes "reachable s" and "db_steps s s'" and "get_workflow s wid = Some w" and "wx_state w \<noteq> WF_INITIALIZING"
  shows "budget wid s' = budget wid s"
proof -
  let ?T = "\<lambda>s. {t \<in> set (db_tasks s). tx_workflow_id t = wid}"
  have ok': "db_ok s'" by (rule lifecycle_db_ok [OF db_steps_lifecycle [OF assms(2) reachable_lifecycle [OF assms(1)]]])
  obtain f where f: "\<And>t. t \<in> set (db_tasks s) \<Longrightarrow> f t \<in> set (db_tasks s') \<and> tx_id (f t) = tx_id t \<and> task_rows.evolves t (f t)"
    using task_survives [OF assms(1,2)] by metis
  have key: "task_key (f t) = task_key t" if "t \<in> set (db_tasks s)" for t
    using task_evolves_kept f [OF that] by (simp add: task_key_def)
  have "bij_betw f (?T s) (?T s')"
    unfolding bij_betw_def
  proof
    have "distinct (map tx_id (db_tasks s))" using lifecycle_db_ok [OF reachable_lifecycle [OF assms(1)]] by (simp add: db_ok_def)
    then show "inj_on f (?T s)" using f unfolding distinct_map inj_on_def by (metis (no_types, lifting) mem_Collect_eq)
    show "f ` ?T s = ?T s'"
    proof
      show "f ` ?T s \<subseteq> ?T s'" using f task_evolves_kept by fastforce
      show "?T s' \<subseteq> f ` ?T s"
      proof
        fix t' assume t': "t' \<in> ?T s'"
        then have "(wid, tx_task_definition_id t') \<in> set (map task_key (db_tasks s'))" by (force simp: task_key_def)
        from begun_task_keys [OF assms this] obtain t where t: "t \<in> set (db_tasks s)" "task_key t = (wid, tx_task_definition_id t')" by auto
        have "distinct (map task_key (db_tasks s'))" using ok' by (simp add: db_ok_def)
        from distinct_map_eqD [OF this, of "f t" t'] f [OF t(1)] t' key [OF t(1)] t(2) have "f t = t'" by (simp add: task_key_def)
        moreover have "tx_workflow_id t = wid" using t(2) by (simp add: task_key_def)
        ultimately show "t' \<in> f ` ?T s" using t(1) by blast
      qed
    qed
  qed
  from sum.reindex_bij_betw [OF this, of "\<lambda>t. 6 * tx_max_attempts t + 6"]
  have "(\<Sum>t \<in> ?T s'. 6 * tx_max_attempts t + 6) = (\<Sum>t \<in> ?T s. 6 * tx_max_attempts (f t) + 6)" by simp
  also have "\<dots> = (\<Sum>t \<in> ?T s. 6 * tx_max_attempts t + 6)"
    by (rule sum.cong) (use f evolves_budget in auto)
  finally show ?thesis by (simp add: budget_def)
qed

section \<open>Rest\<close>

text \<open>A sequence that never falls and stays below a bound moves no more often than the bound allows.\<close>

lemma moves_bounded:
  fixes f :: "nat \<Rightarrow> int"
  assumes mono: "\<And>n. f n \<le> f (Suc n)" and bound: "\<And>n. f n \<le> b"
  shows "finite {n. f n \<noteq> f (Suc n)} \<and> int (card {n. f n \<noteq> f (Suc n)}) \<le> b - f 0"
proof -
  let ?S = "{n. f n \<noteq> f (Suc n)}"
  have part: "int (card {n \<in> ?S. n < N}) \<le> f N - f 0" for N
  proof (induction N)
    case (Suc N)
    have "{n \<in> ?S. n < Suc N} = (if f N \<noteq> f (Suc N) then insert N {n \<in> ?S. n < N} else {n \<in> ?S. n < N})"
      by (auto simp: less_Suc_eq)
    then show ?case using Suc mono [of N] by (auto split: if_splits)
  qed simp
  have small: "int (card T) \<le> b - f 0" if "finite T" "T \<subseteq> ?S" for T
  proof -
    have "T \<subseteq> {n \<in> ?S. n < Suc (Max T)}" using that by (auto simp: less_Suc_eq_le)
    then have "card T \<le> card {n \<in> ?S. n < Suc (Max T)}" by (intro card_mono) auto
    with part [of "Suc (Max T)"] bound [of "Suc (Max T)"] show ?thesis by linarith
  qed
  have "finite ?S"
  proof (rule ccontr)
    assume "infinite ?S"
    then obtain T where "T \<subseteq> ?S" "finite T" "card T = Suc (nat (b - f 0))" using infinite_arbitrarily_large by blast
    with small [of T] bound [of 0] show False by simp
  qed
  with small show ?thesis by blast
qed

text \<open>
  C8. An execution comes to rest: along any infinite sequence of transactions, by whomever and in
  whatever order, the rows of an execution that has begun (its own, those of its tasks, and those
  of its attempts but for their cancellation deadlines) change at most 4 + 6 (m + 1) times per task
  with a budget of m attempts, and then never again. So no combination of retries, restarts, races
  and cancellations keeps an execution busy for ever.
\<close>

theorem execution_comes_to_rest:
  assumes "reachable (run 0)" and "\<forall>n. db_steps (run n) (run (Suc n))"
    and "get_workflow (run 0) wid = Some w" and "wx_state w \<noteq> WF_INITIALIZING"
  shows "finite {n. execution_rows wid (run n) \<noteq> execution_rows wid (run (Suc n))} \<and>
     int (card {n. execution_rows wid (run n) \<noteq> execution_rows wid (run (Suc n))}) \<le>
       4 + (\<Sum>t \<in> set (tasks_of (run 0) wid). 6 * (tx_max_attempts t + 1))"
proof -
  have steps: "db_steps (run 0) (run n)" for n
  proof (induction n)
    case (Suc n)
    with assms(2) show ?case by (blast intro: rtranclp_trans)
  qed simp
  have r: "reachable (run n)" for n by (rule reachable_steps [OF assms(1) steps])
  have up: "work wid (run n) \<le> work wid (run (Suc n)) \<and>
     (work wid (run n) = work wid (run (Suc n)) \<longrightarrow> execution_rows wid (run (Suc n)) = execution_rows wid (run n))" for n
    using work_grows [OF r] assms(2) by blast
  have "work wid (run n) \<le> budget wid (run 0)" for n
    using work_within_budget [OF reachable_lifecycle [OF r], of wid n] budget_fixed [OF assms(1) steps assms(3,4), of n] by simp
  from moves_bounded [of "\<lambda>n. work wid (run n)", OF _ this] up
  have m: "finite {n. work wid (run n) \<noteq> work wid (run (Suc n))}"
    "int (card {n. work wid (run n) \<noteq> work wid (run (Suc n))}) \<le> budget wid (run 0) - work wid (run 0)" by blast+
  have sub: "{n. execution_rows wid (run n) \<noteq> execution_rows wid (run (Suc n))} \<subseteq> {n. work wid (run n) \<noteq> work wid (run (Suc n))}"
    using up by force
  have "0 \<le> work wid (run 0)" by (rule work_nonneg [OF reachable_lifecycle [OF assms(1)]])
  with m card_mono [OF m(1) sub] finite_subset [OF sub m(1)] show ?thesis
    by (simp add: budget_def tasks_of_def)
qed


text \<open>The sample execution, transaction by transaction, and then nothing more.\<close>

definition sample_run :: "nat \<Rightarrow> db" where
  "sample_run n = (if n = 0 then db_running else if n = 1 then db_ready else if n = 2 then db_claimed else db_started)"

lemma sample_run_steps: "db_steps (sample_run n) (sample_run (Suc n))"
proof -
  have "db_step db_running db_ready" "db_step db_ready db_claimed" "db_step db_claimed db_started"
    by (rule step_ready [OF _ run_ready], simp add: json_object_def, rule step_claim [OF run_claimed], rule step_start [OF run_started])
  then show ?thesis by (auto simp: sample_run_def)
qed

theorem execution_comes_to_rest_witness:
  "finite {n. execution_rows 2 (sample_run n) \<noteq> execution_rows 2 (sample_run (Suc n))} \<and>
     card {n. execution_rows 2 (sample_run n) \<noteq> execution_rows 2 (sample_run (Suc n))} \<le> 34"
proof -
  have w: "get_workflow (sample_run 0) 2 = Some (sample_workflow WF_RUNNING 2 None 3)" unfolding sample_run_def by code_simp
  have "(\<Sum>t \<in> set (tasks_of (sample_run 0) 2). 6 * (tx_max_attempts t + 1)) = 30" unfolding sample_run_def by code_simp
  with execution_comes_to_rest [of sample_run, OF _ _ w] reachable_running sample_run_steps
  show ?thesis by (simp add: sample_run_def sample_workflow_def)
qed

end
