(* ===== verification/Http_Security.thy ===== *)
theory Http_Security
  imports Execution_Entities Json_Compat
begin

text \<open>
  The error envelope of the HTTP interface (\<open>interfaces/http/errors.py\<close> and the handlers of
  \<open>interfaces/http/app.py\<close>), the bearer-token guards (\<open>interfaces/http/security.py\<close>), the
  credential store they ask (\<open>config/settings.py\<close>) and the startup gate
  (\<open>interfaces/http/dependencies.py\<close>). SHA-256 is an argument; comparing digests in constant
  time is comparing them.
\<close>

section \<open>Errors of the interface\<close>

record api_http_exception =
  ae_status_code :: int
  ae_code :: string
  ae_message :: string
  ae_details :: pyval
  ae_headers :: "(string \<times> string) list option"

text \<open>\<open>self.details = details or {}\<close>.\<close>

definition mk_ApiHttpException ::
  "int \<Rightarrow> string \<Rightarrow> string \<Rightarrow> pyval option \<Rightarrow> (string \<times> string) list option \<Rightarrow> api_http_exception" where
  "mk_ApiHttpException status_code code message details headers =
     \<lparr>ae_status_code = status_code, ae_code = code, ae_message = message,
      ae_details = (case details of None \<Rightarrow> PyDict [] | Some d \<Rightarrow> d), ae_headers = headers\<rparr>"

text \<open>What a route can raise: its own error, or an exception it lets through.\<close>

datatype http_exn = ApiHttpException api_http_exception | Unhandled py_exn

abbreviation api_error :: "int \<Rightarrow> string \<Rightarrow> string \<Rightarrow> http_exn" where
  "api_error status_code code message \<equiv> ApiHttpException (mk_ApiHttpException status_code code message None None)"

record error_payload =
  ep_code :: string
  ep_message :: string
  ep_details :: "pyval option"
  ep_request_id :: "string option"

record json_response =
  jr_status_code :: int
  jr_error :: error_payload
  jr_headers :: "(string \<times> string) list option"

definition api_http_exception_handler :: "string option \<Rightarrow> api_http_exception \<Rightarrow> json_response" where
  "api_http_exception_handler request_id exc =
     \<lparr>jr_status_code = ae_status_code exc,
      jr_error = \<lparr>ep_code = ae_code exc, ep_message = ae_message exc, ep_details = Some (ae_details exc),
                  ep_request_id = request_id\<rparr>,
      jr_headers = ae_headers exc\<rparr>"

definition validation_exception_handler :: "string option \<Rightarrow> pyval \<Rightarrow> json_response" where
  "validation_exception_handler request_id errors =
     \<lparr>jr_status_code = 400,
      jr_error = \<lparr>ep_code = ''STRUCTURAL_VALIDATION_FAILURE'', ep_message = ''Request payload failed schema validation.'',
                  ep_details = Some (PyDict [(PyStr ''errors'', errors)]), ep_request_id = request_id\<rparr>,
      jr_headers = None\<rparr>"

definition unhandled_exception_handler :: "string option \<Rightarrow> json_response" where
  "unhandled_exception_handler request_id =
     \<lparr>jr_status_code = 500,
      jr_error = \<lparr>ep_code = ''INTERNAL_SERVER_ERROR'', ep_message = ''An unexpected internal server error occurred.'',
                  ep_details = Some (PyDict []), ep_request_id = request_id\<rparr>,
      jr_headers = None\<rparr>"

definition error_response :: "string option \<Rightarrow> http_exn \<Rightarrow> json_response" where
  "error_response request_id exc = (case exc of
       ApiHttpException e \<Rightarrow> api_http_exception_handler request_id e
     | Unhandled e \<Rightarrow> unhandled_exception_handler request_id)"

section \<open>Settings and credentials\<close>

record security_settings =
  ss_public_tokens :: string
  ss_worker_token :: string

text \<open>\<open>str.split(",")\<close>: the pieces between the separators, at least one.\<close>

fun py_split_on :: "char \<Rightarrow> string \<Rightarrow> string list" where
  "py_split_on sep [] = [[]]"
| "py_split_on sep (c # s) =
     (if c = sep then [] # py_split_on sep s
      else (case py_split_on sep s of [] \<Rightarrow> [[c]] | w # ws \<Rightarrow> (c # w) # ws))"

text \<open>\<open>str.split()\<close>: the maximal runs without whitespace.\<close>

function py_split_ws :: "string \<Rightarrow> string list" where
  "py_split_ws s = (case dropWhile py_space s of [] \<Rightarrow> []
     | c # r \<Rightarrow> takeWhile (\<lambda>x. \<not> py_space x) (c # r) # py_split_ws (dropWhile (\<lambda>x. \<not> py_space x) (c # r)))"
  by auto
termination
proof (relation "measure length", simp)
  fix s :: string and c r
  assume e: "dropWhile py_space s = c # r"
  then have "\<not> py_space c" using hd_dropWhile [of py_space s] by auto
  then have "length (dropWhile (\<lambda>x. \<not> py_space x) (c # r)) \<le> length r" by (simp add: length_dropWhile_le)
  moreover have "length (c # r) \<le> length s" using length_dropWhile_le [of py_space s] e by simp
  ultimately show "(dropWhile (\<lambda>x. \<not> py_space x) (c # r), s) \<in> measure length" by simp
qed

declare py_split_ws.simps [simp del]

record 'd runtime_security_authority =
  public_token_digests :: "'d list"
  worker_token_digest :: 'd

definition raw_public_tokens :: "security_settings \<Rightarrow> string list" where
  "raw_public_tokens settings = map py_strip (filter (\<lambda>t. py_strip t \<noteq> []) (py_split_on CHR '','' (ss_public_tokens settings)))"

definition from_settings :: "(string \<Rightarrow> 'd) \<Rightarrow> security_settings \<Rightarrow> 'd runtime_security_authority" where
  "from_settings sha256 settings =
     \<lparr>public_token_digests = py_set (map sha256 (raw_public_tokens settings)),
      worker_token_digest = sha256 (ss_worker_token settings)\<rparr>"

definition public_client :: security_context where
  "public_client = \<lparr>principal_id = ''public-client'', principal_kind = PUBLIC_CLIENT,
     permissions = [DEFINITIONS_READ, DEFINITIONS_WRITE, EXECUTIONS_READ, EXECUTIONS_START, EXECUTIONS_CANCEL]\<rparr>"

definition authenticate_public_token ::
  "(string \<Rightarrow> 'd) \<Rightarrow> 'd runtime_security_authority \<Rightarrow> string \<Rightarrow> security_context option" where
  "authenticate_public_token sha256 authority token =
     (if list_ex (\<lambda>expected. expected = sha256 token) (public_token_digests authority) then Some public_client else None)"

definition authenticate_worker_token :: "(string \<Rightarrow> 'd) \<Rightarrow> 'd runtime_security_authority \<Rightarrow> string \<Rightarrow> bool" where
  "authenticate_worker_token sha256 authority token = (worker_token_digest authority = sha256 token)"

section \<open>The guards\<close>

definition unauthorized :: "string \<Rightarrow> http_exn" where
  "unauthorized message = ApiHttpException (mk_ApiHttpException 401 ''UNAUTHORIZED'' message None
     (Some [(''WWW-Authenticate'', ''Bearer error='' @ [CHR 0x22] @ ''invalid_token'' @ [CHR 0x22])]))"

definition header_format_message :: string where
  "header_format_message =
     ''Invalid Authorization header format. Expected '' @ [CHR 0x27] @ ''Bearer <token>'' @ [CHR 0x27] @ ''.''"

text \<open>The token of an \<open>Authorization\<close> header, the part both guards share.\<close>

definition bearer_token :: "string option \<Rightarrow> http_exn + string" where
  "bearer_token authorization = (case authorization of
       None \<Rightarrow> Inl (unauthorized ''Missing Authorization header.'')
     | Some header \<Rightarrow>
         if header = [] then Inl (unauthorized ''Missing Authorization header.'')
         else (case py_split_ws header of
             [scheme, token] \<Rightarrow>
               if py_lower scheme \<noteq> ''bearer''
               then Inl (unauthorized header_format_message)
               else Inr token
           | _ \<Rightarrow> Inl (unauthorized header_format_message)))"

definition get_public_security_context ::
  "(string \<Rightarrow> 'd) \<Rightarrow> 'd runtime_security_authority \<Rightarrow> string option \<Rightarrow> http_exn + security_context" where
  "get_public_security_context sha256 authority authorization =
     bindE (bearer_token authorization) (\<lambda>token.
     case authenticate_public_token sha256 authority token of
       None \<Rightarrow> Inl (unauthorized ''Invalid Bearer credential.'')
     | Some ctx \<Rightarrow> Inr ctx)"

fun public_permission_str :: "public_permission \<Rightarrow> string" where
  "public_permission_str DEFINITIONS_READ = ''definitions:read''"
| "public_permission_str DEFINITIONS_WRITE = ''definitions:write''"
| "public_permission_str EXECUTIONS_READ = ''executions:read''"
| "public_permission_str EXECUTIONS_START = ''executions:start''"
| "public_permission_str EXECUTIONS_CANCEL = ''executions:cancel''"

definition require_permission ::
  "(string \<Rightarrow> 'd) \<Rightarrow> 'd runtime_security_authority \<Rightarrow> public_permission \<Rightarrow> string option \<Rightarrow> http_exn + security_context" where
  "require_permission sha256 authority required authorization =
     bindE (get_public_security_context sha256 authority authorization) (\<lambda>ctx.
     if \<not> has_permission ctx required
     then Inl (api_error 403 ''FORBIDDEN''
            (''Principal lacks required permission: '' @ public_permission_str required @ ''.''))
     else Inr ctx)"

definition require_worker_domain_auth ::
  "(string \<Rightarrow> 'd) \<Rightarrow> 'd runtime_security_authority \<Rightarrow> string option \<Rightarrow> http_exn + bool" where
  "require_worker_domain_auth sha256 authority authorization =
     bindE (bearer_token authorization) (\<lambda>token.
     if \<not> authenticate_worker_token sha256 authority token
     then Inl (unauthorized ''Invalid worker-domain Bearer credential.'')
     else Inr True)"

section \<open>The startup gate\<close>

record startup_recovery_gate = recovery_completed :: bool

definition mark_recovery_completed :: "startup_recovery_gate \<Rightarrow> startup_recovery_gate" where
  "mark_recovery_completed gate = gate\<lparr>recovery_completed := True\<rparr>"

definition mark_recovery_started :: "startup_recovery_gate \<Rightarrow> startup_recovery_gate" where
  "mark_recovery_started gate = gate\<lparr>recovery_completed := False\<rparr>"

definition allows_new_work :: "startup_recovery_gate \<Rightarrow> bool" where
  "allows_new_work gate = recovery_completed gate"

definition allows_existing_settlement :: "startup_recovery_gate \<Rightarrow> bool" where
  "allows_existing_settlement gate = True"

section \<open>Splitting at whitespace\<close>

abbreviation blank :: "string \<Rightarrow> bool" where
  "blank w \<equiv> \<forall>c \<in> set w. py_space c"

abbreviation solid :: "string \<Rightarrow> bool" where
  "solid w \<equiv> w \<noteq> [] \<and> (\<forall>c \<in> set w. \<not> py_space c)"

lemma py_split_ws_blank: "blank w \<Longrightarrow> py_split_ws (w @ s) = py_split_ws s"
  by (subst (1 2) py_split_ws.simps) (simp add: dropWhile_append2)

lemma py_split_ws_all_blank: "blank w \<Longrightarrow> py_split_ws w = []"
proof -
  assume "blank w"
  then have "dropWhile py_space w = []" by (simp add: dropWhile_eq_Nil_conv)
  then show ?thesis unfolding py_split_ws.simps [of w] by (simp only: list.case)
qed

lemma py_split_ws_word:
  assumes "solid a" and "r = [] \<or> py_space (hd r)"
  shows "py_split_ws (a @ r) = a # py_split_ws r"
proof -
  obtain c a' where a: "a = c # a'" "\<not> py_space c" using assms(1) by (cases a) auto
  have "takeWhile (\<lambda>x. \<not> py_space x) (a @ r) = a" "dropWhile (\<lambda>x. \<not> py_space x) (a @ r) = r"
    using assms by (auto simp: takeWhile_append2 dropWhile_append2 takeWhile_eq_Nil_iff) (cases r; simp)+
  then show ?thesis using a by (subst py_split_ws.simps) simp
qed

lemma py_split_ws_Cons:
  assumes "py_split_ws s = a # ws"
  obtains w r where "s = w @ a @ r" and "blank w" and "solid a" and "r = [] \<or> py_space (hd r)" and "py_split_ws r = ws"
proof -
  obtain c u where u: "dropWhile py_space s = c # u"
    using assms by (subst (asm) py_split_ws.simps) (auto split: list.splits)
  with assms have a: "a = takeWhile (\<lambda>x. \<not> py_space x) (c # u)" "ws = py_split_ws (dropWhile (\<lambda>x. \<not> py_space x) (c # u))"
    by (subst (asm) py_split_ws.simps, simp)+
  have "\<not> py_space c" using u hd_dropWhile [of py_space s] by auto
  then have "solid a" by (auto simp: a(1) dest: set_takeWhileD)
  moreover have "s = takeWhile py_space s @ a @ dropWhile (\<lambda>x. \<not> py_space x) (c # u)"
    unfolding a(1) takeWhile_dropWhile_id u [symmetric] by simp
  moreover have "dropWhile (\<lambda>x. \<not> py_space x) (c # u) = [] \<or> py_space (hd (dropWhile (\<lambda>x. \<not> py_space x) (c # u)))"
    using hd_dropWhile [of "\<lambda>x. \<not> py_space x" "c # u"] by blast
  ultimately show thesis using that a(2) by (auto dest: set_takeWhileD)
qed

lemma py_split_ws_two:
  "py_split_ws s = [a, b] \<longleftrightarrow> solid a \<and> solid b \<and>
     (\<exists>w1 w2 w3. s = w1 @ a @ w2 @ b @ w3 \<and> blank w1 \<and> blank w2 \<and> w2 \<noteq> [] \<and> blank w3)"
  (is "?l \<longleftrightarrow> ?r")
proof
  assume ?l
  then obtain w1 r where 1: "s = w1 @ a @ r" "blank w1" "solid a" "py_split_ws r = [b]" and h: "r = [] \<or> py_space (hd r)"
    by (rule py_split_ws_Cons)
  from 1(4) obtain w2 w3 where 2: "r = w2 @ b @ w3" "blank w2" "solid b" "py_split_ws w3 = []" by (rule py_split_ws_Cons)
  have "blank w3"
    using 2(4) by (subst (asm) py_split_ws.simps) (auto split: list.splits simp: dropWhile_eq_Nil_conv)
  moreover have "w2 \<noteq> []" using h 2(1,3) by (cases b) auto
  ultimately show ?r using 1 2 by auto
next
  assume ?r
  then obtain w1 w2 w3 where s: "s = w1 @ a @ w2 @ b @ w3" and w: "blank w1" "blank w2" "w2 \<noteq> []" "blank w3" and ab: "solid a" "solid b"
    by blast
  have "py_split_ws s = py_split_ws (a @ w2 @ b @ w3)" unfolding s by (rule py_split_ws_blank [OF w(1)])
  also have "\<dots> = a # py_split_ws (w2 @ b @ w3)" by (rule py_split_ws_word [OF ab(1)]) (use w in \<open>cases w2; simp\<close>)
  also have "py_split_ws (w2 @ b @ w3) = py_split_ws (b @ w3)" by (rule py_split_ws_blank [OF w(2)])
  also have "\<dots> = b # py_split_ws w3" by (rule py_split_ws_word [OF ab(2)]) (use w in \<open>cases w3; simp\<close>)
  also have "py_split_ws w3 = []" by (rule py_split_ws_all_blank [OF w(4)])
  finally show ?l .
qed

text \<open>A header of the form \<open>Bearer <token>\<close>, with any case of the scheme and any spacing.\<close>

definition carries_token :: "string \<Rightarrow> string \<Rightarrow> bool" where
  "carries_token header token \<longleftrightarrow> solid token \<and> (\<exists>w1 scheme w2 w3. header = w1 @ scheme @ w2 @ token @ w3 \<and>
     py_lower scheme = ''bearer'' \<and> solid scheme \<and> blank w1 \<and> blank w2 \<and> w2 \<noteq> [] \<and> blank w3)"

lemma bearer_token_iff: "bearer_token authorization = Inr token \<longleftrightarrow> (\<exists>h. authorization = Some h \<and> carries_token h token)"
proof -
  have "bearer_token (Some h) = Inr token \<longleftrightarrow> (\<exists>scheme. py_split_ws h = [scheme, token] \<and> py_lower scheme = ''bearer'')" for h
    by (auto simp: bearer_token_def py_split_ws_all_blank split: list.splits if_splits)
  then show ?thesis
    by (cases authorization) (auto simp: bearer_token_def py_split_ws_two carries_token_def)
qed

section \<open>Properties\<close>

lemma authenticate_public_iff:
  "authenticate_public_token sha256 (from_settings sha256 settings) token = Some ctx \<longleftrightarrow>
     ctx = public_client \<and> (\<exists>t \<in> set (raw_public_tokens settings). sha256 t = sha256 token)"
  by (auto simp: authenticate_public_token_def from_settings_def list_ex_iff) (metis imageI)

lemma public_client_permissions: "has_permission public_client p"
  by (cases p) (simp_all add: has_permission_def public_client_def)

text \<open>
  C40. Access is exactly the configured tokens: a public route admits a request if and only if its
  header carries, in any spacing and case of the scheme, a token with the digest of one of the
  comma-separated configured tokens, and then with every permission (so 403 never occurs); a worker
  route if and only if the token has the digest of the worker secret; otherwise the answer is 401.
\<close>

theorem access_exact:
  "(require_permission sha256 (from_settings sha256 settings) p authorization = Inr ctx \<longleftrightarrow>
      ctx = public_client \<and> (\<exists>h token. authorization = Some h \<and> carries_token h token \<and>
        (\<exists>t \<in> set (raw_public_tokens settings). sha256 t = sha256 token))) \<and>
   (require_worker_domain_auth sha256 (from_settings sha256 settings) authorization = Inr ok \<longleftrightarrow>
      ok \<and> (\<exists>h token. authorization = Some h \<and> carries_token h token \<and> sha256 (ss_worker_token settings) = sha256 token)) \<and>
   (case require_permission sha256 (from_settings sha256 settings) p authorization of
      Inl e \<Rightarrow> jr_status_code (error_response rid e) = 401 | Inr _ \<Rightarrow> True) \<and>
   (case require_worker_domain_auth sha256 (from_settings sha256 settings) authorization of
      Inl e \<Rightarrow> jr_status_code (error_response rid e) = 401 | Inr _ \<Rightarrow> True)"
  (is "?public \<and> ?worker \<and> ?denied \<and> ?refused")
proof (intro conjI)
  have ctx: "require_permission sha256 (from_settings sha256 settings) p authorization =
      get_public_security_context sha256 (from_settings sha256 settings) authorization"
    unfolding require_permission_def
  proof (cases "get_public_security_context sha256 (from_settings sha256 settings) authorization")
    case (Inr c)
    then have "c = public_client"
      by (auto simp: get_public_security_context_def bindE_eq_Inr authenticate_public_iff split: option.splits)
    with Inr public_client_permissions show "bindE (get_public_security_context sha256 (from_settings sha256 settings) authorization)
       (\<lambda>ctx. if \<not> has_permission ctx p then Inl (api_error 403 ''FORBIDDEN''
            (''Principal lacks required permission: '' @ public_permission_str p @ ''.'')) else Inr ctx) =
       get_public_security_context sha256 (from_settings sha256 settings) authorization" by simp
  qed simp
  have get: "get_public_security_context sha256 (from_settings sha256 settings) authorization = Inr ctx \<longleftrightarrow>
      (\<exists>token. bearer_token authorization = Inr token \<and> authenticate_public_token sha256 (from_settings sha256 settings) token = Some ctx)"
    by (auto simp: get_public_security_context_def bindE_eq_Inr split: option.splits)
  show ?public unfolding ctx get authenticate_public_iff bearer_token_iff by blast
  show ?worker
    unfolding require_worker_domain_auth_def bindE_eq_Inr bearer_token_iff
    by (auto simp: authenticate_worker_token_def from_settings_def)
  have no_bearer: "jr_status_code (error_response rid e) = 401" if "bearer_token authorization = Inl e" for e
    using that by (auto simp: bearer_token_def unauthorized_def mk_ApiHttpException_def error_response_def
        api_http_exception_handler_def split: option.splits list.splits if_splits)
  show ?denied
  proof (cases "bearer_token authorization")
    case (Inr token)
    then show ?thesis
      unfolding ctx get_public_security_context_def
      by (auto simp: unauthorized_def mk_ApiHttpException_def error_response_def api_http_exception_handler_def split: option.splits)
  qed (simp add: ctx get_public_security_context_def no_bearer)
  show ?refused
  proof (cases "bearer_token authorization")
    case (Inr token)
    then show ?thesis
      unfolding require_worker_domain_auth_def
      by (simp add: unauthorized_def mk_ApiHttpException_def error_response_def api_http_exception_handler_def)
  qed (simp add: require_worker_domain_auth_def no_bearer)
qed

end
