(* ===== verification/Http_Dto.thy ===== *)
theory Http_Dto
  imports Http_Security Service_Process
begin

text \<open>
  The payloads of the HTTP interface, \<open>src/nexusflow/interfaces/http/dto.py\<close>: one record per
  model, with the bounds its fields declare as a predicate (pydantic, which enforces them before a
  route runs, is the library's), and the sum types where a field is a tagged union. Durations are
  microseconds.
\<close>

section \<open>Public payloads\<close>

record create_execution_request =
  cer_definition_id :: definition_id
  cer_workflow_input :: pyval

record definition_response =
  dfr_definition_id :: definition_id
  dfr_workflow_name :: string
  dfr_spec_version :: string
  dfr_created_at_utc :: datetime

record execution_response =
  er_workflow_execution_id :: workflow_execution_id
  er_definition_id :: definition_id
  er_state :: string
  er_has_output :: bool
  er_output :: pyval
  er_created_at_utc :: datetime
  er_updated_at_utc :: datetime

record failure_cause_dto =
  fcd_category :: string
  fcd_code :: string
  fcd_message :: string
  fcd_details :: pyval

record task_execution_response =
  tr_task_execution_id :: task_execution_id
  tr_workflow_execution_id :: workflow_execution_id
  tr_task_definition_id :: string
  tr_state :: string
  tr_current_attempt_ordinal :: int
  tr_has_output :: bool
  tr_output :: pyval
  tr_failure_cause :: "failure_cause_dto option"
  tr_created_at_utc :: datetime
  tr_updated_at_utc :: datetime

record history_entry_response =
  hr_history_id :: history_entry_id
  hr_workflow_execution_id :: workflow_execution_id
  hr_task_execution_id :: "task_execution_id option"
  hr_attempt_id :: "attempt_id option"
  hr_event_category :: string
  hr_occurred_at_utc :: datetime
  hr_details :: pyval

section \<open>Worker payloads\<close>

record worker_registration_request =
  wq_worker_id :: string
  wq_capabilities :: "string list"
  wq_client_version :: string

definition registration_request_ok :: "worker_registration_request \<Rightarrow> bool" where
  "registration_request_ok r = (1 \<le> length (wq_worker_id r) \<and> length (wq_worker_id r) \<le> 256 \<and>
     1 \<le> length (wq_capabilities r) \<and> length (wq_capabilities r) \<le> 1000 \<and> length (wq_client_version r) \<le> 64)"

record worker_registration_response =
  wp_worker_session_id :: worker_session_id
  wp_heartbeat_interval :: int
  wp_worker_liveness_timeout :: int

record worker_heartbeat_request =
  hq_worker_session_id :: worker_session_id
  hq_accepting_new_work :: bool

record worker_heartbeat_response =
  hp_control_plane_draining :: bool

record worker_poll_request =
  pq_worker_session_id :: worker_session_id
  pq_accepting_new_work :: bool
  pq_max_items :: int
  pq_timeout :: int

definition poll_request_ok :: "worker_poll_request \<Rightarrow> bool" where
  "poll_request_ok r = (1 \<le> pq_max_items r \<and> pq_max_items r \<le> 10 \<and> 100000 \<le> pq_timeout r \<and> pq_timeout r \<le> 60000000)"

record task_assignment_dto =
  ta_attempt_id :: attempt_id
  ta_attempt_ordinal :: int
  ta_task_execution_id :: task_execution_id
  ta_workflow_execution_id :: workflow_execution_id
  ta_worker_session_id :: worker_session_id
  ta_activity_type :: string
  ta_stable_input :: pyval
  ta_start_deadline_utc :: string

record task_cancellation_dto =
  tc_attempt_id :: attempt_id
  tc_worker_session_id :: worker_session_id
  tc_task_execution_id :: task_execution_id
  tc_workflow_execution_id :: workflow_execution_id
  tc_reason :: string

datatype worker_poll_response =
  PollAssignment task_assignment_dto | PollCancelCommand task_cancellation_dto | PollNoWork

record worker_start_ack_request =
  sq_attempt_id :: attempt_id
  sq_worker_session_id :: worker_session_id

record worker_start_ack_response =
  sp_attempt_id :: attempt_id

record activity_failure_details =
  af_error_type :: string
  af_message :: string
  af_details :: "pyval option"

definition failure_details_ok :: "activity_failure_details \<Rightarrow> bool" where
  "failure_details_ok d = (length (af_error_type d) \<le> 256 \<and> length (af_message d) \<le> 4096)"

datatype observed_state = COOPERATIVELY_STOPPED | ALREADY_COMPLETED | NOT_FOUND

text \<open>The discriminated union on \<open>outcome_type\<close>.\<close>

datatype worker_callback_outcome =
  ActivitySuccess pyval | ActivityFailure activity_failure_details | ActivityCancelAck observed_state

record worker_callback_request =
  cq_attempt_id :: attempt_id
  cq_worker_session_id :: worker_session_id
  cq_payload :: worker_callback_outcome

record worker_callback_response =
  cb_attempt_id :: attempt_id

section \<open>Parsing identifiers back\<close>

text \<open>
  \<open>UUID(text)\<close> on the canonical spelling the service itself writes: without its hyphens the text
  must be 32 hexadecimal digits. The other spellings the constructor admits are never produced.
\<close>

definition hex_value :: "char \<Rightarrow> nat option" where
  "hex_value c = (let n = of_char c in
     if 48 \<le> n \<and> n \<le> 57 then Some (n - 48)
     else if 97 \<le> n \<and> n \<le> 102 then Some (n - 87)
     else if 65 \<le> n \<and> n \<le> 70 then Some (n - 55) else None)"

fun hex_number :: "string \<Rightarrow> nat \<Rightarrow> nat option" where
  "hex_number [] acc = Some acc"
| "hex_number (c # s) acc = (case hex_value c of None \<Rightarrow> None | Some d \<Rightarrow> hex_number s (acc * 16 + d))"

definition uuid_parse :: "string \<Rightarrow> py_exn + uuid" where
  "uuid_parse text = (let h = filter (\<lambda>c. c \<noteq> CHR ''-'') text in
     if length h \<noteq> 32 then Inl ValueError
     else case hex_number h 0 of None \<Rightarrow> Inl ValueError | Some n \<Rightarrow> Inr n)"

lemma hex_value_digit: "d < 16 \<Longrightarrow> hex_value (hex_digit d) = Some d"
  by (auto simp: hex_value_def hex_digit_def Let_def)

lemma hex_digit_no_hyphen: "d < 16 \<Longrightarrow> hex_digit d \<noteq> CHR ''-''"
  using hex_value_digit [of d] by (auto simp: hex_value_def)

lemma length_hex_fixed [simp]: "length (hex_fixed w n) = w"
  by (induction w arbitrary: n) auto

lemma hex_fixed_no_hyphen: "CHR ''-'' \<notin> set (hex_fixed w n)"
proof (induction w arbitrary: n)
  case (Suc w)
  have "hex_digit (n mod 16) \<noteq> CHR ''-''" by (rule hex_digit_no_hyphen) simp
  with Suc show ?case by auto
qed simp

lemma hex_number_append: "hex_number (s @ t) acc = (case hex_number s acc of None \<Rightarrow> None | Some a \<Rightarrow> hex_number t a)"
  by (induction s arbitrary: acc) (auto split: option.splits)

lemma hex_number_fixed: "hex_number (hex_fixed w n) acc = Some (acc * 16 ^ w + n mod 16 ^ w)"
proof (induction w arbitrary: n acc)
  case (Suc w)
  have "n mod 16 ^ Suc w = 16 * (n div 16 mod 16 ^ w) + n mod 16"
    by (metis mod_mult2_eq power_Suc)
  then show ?case
    by (simp add: hex_number_append Suc hex_value_digit algebra_simps)
qed simp

lemma regroup: "take 8 h @ take 4 (drop 8 h) @ take 4 (drop 12 h) @ take 4 (drop 16 h) @ drop 20 h = h"
  using append_take_drop_id [of 4 "drop 16 h"] append_take_drop_id [of 4 "drop 12 h"] append_take_drop_id [of 4 "drop 8 h"]
    append_take_drop_id [of 8 h] by (simp only: drop_drop numeral_plus_numeral semiring_norm)

lemma unhyphenate:
  assumes "CHR ''-'' \<notin> set h"
  shows "filter (\<lambda>c. c \<noteq> CHR ''-'') (take 8 h @ ''-'' @ take 4 (drop 8 h) @ ''-'' @ take 4 (drop 12 h) @ ''-'' @
     take 4 (drop 16 h) @ ''-'' @ drop 20 h) = h"
proof -
  have "filter (\<lambda>c. c \<noteq> CHR ''-'') xs = xs" if "set xs \<subseteq> set h" for xs
    using that assms by (auto simp: filter_id_conv)
  moreover have "set (take n (drop m h)) \<subseteq> set h" "set (take n h) \<subseteq> set h" "set (drop n h) \<subseteq> set h" for n m
    by (auto dest: in_set_takeD in_set_dropD)
  ultimately show ?thesis by (simp add: regroup)
qed

lemma uuid_parse_str: "u < 2 ^ 128 \<Longrightarrow> uuid_parse (uuid_str u) = Inr u"
  using unhyphenate [OF hex_fixed_no_hyphen [of 32 u]]
  by (simp add: uuid_parse_def uuid_str_def Let_def hex_number_fixed del: hex_fixed.simps filter_append)

end
