(* ===== verification/Route_Process.thy ===== *)
theory Route_Process
  imports Delivery_Guarantee Http_Dto
begin

text \<open>
  What the routes of \<open>src/nexusflow/interfaces/http/routes\<close> share. A route is a coroutine that can
  raise an error of the interface; what the scheduler or a transaction raises passes through it
  unhandled. A request has one database session: a read begins its transaction, the transactions
  it calls then run inside savepoints, and nothing is kept before \<open>session.commit()\<close>. So the
  statements from the first write to that commit are one transaction of the model, undone when the
  route raises on the way. With isolation \<open>READ COMMITTED\<close> each earlier select reads for itself.
\<close>

section \<open>Exceptions pass through\<close>

definition embedE :: "py_exn + 'a \<Rightarrow> http_exn + 'a" where
  "embedE m = (case m of Inl e \<Rightarrow> Inl (Unhandled e) | Inr x \<Rightarrow> Inr x)"

definition embedP :: "'a proc \<Rightarrow> (http_exn, 'a) proc_raising" where
  "embedP m E w = (case m E w of (r, w') \<Rightarrow> (embedE r, w'))"

lemma embedE_eq_Inr [simp]: "embedE m = Inr x \<longleftrightarrow> m = Inr x"
  by (simp add: embedE_def split: sum.split)

lemma embedE_eq_Inl: "embedE m = Inl e \<longleftrightarrow> (\<exists>e'. m = Inl e' \<and> e = Unhandled e')"
  by (auto simp: embedE_def split: sum.split)

lemma embedE_simps [simp]: "embedE (Inr x) = Inr x" "embedE (Inl e) = Inl (Unhandled e)"
  by (simp_all add: embedE_def)

lemma embedP_world [simp]: "snd (embedP m E w) = snd (m E w)"
  by (simp add: embedP_def split: prod.split)

lemma embedP_result [simp]: "fst (embedP m E w) = embedE (fst (m E w))"
  by (simp add: embedP_def split: prod.split)

lemma moves_embedP [moves]: "moves_by_steps m \<Longrightarrow> moves_by_steps (embedP m)"
  by (simp add: moves_by_steps_def)

lemma triple_embedP: "triple P m Q \<Longrightarrow> triple P (embedP m) Q"
  by (rule tripleI) (simp add: tripleD)

lemma neutral_embedP [neutrals]: "neutral m \<Longrightarrow> neutral (embedP m)"
  by (simp add: neutral_def triple_embedP)

section \<open>A request's transaction\<close>

text \<open>Several transactions inside one: the statements of all of them or of none.\<close>

lemma moves_transactP_steps:
  assumes "\<And>s s' x. tx s = Inr (s', x) \<Longrightarrow> db_steps s s'"
  shows "moves_by_steps (transactP tx)"
  unfolding moves_by_steps_def
proof (intro allI impI)
  fix E and w :: world
  assume "others_transact E" and "reachable (w_db w)"
  then have s: "db_steps (w_db w) (w_db (await_others E w))" by (simp add: await_others_def others_transact_def)
  show "db_steps (w_db w) (w_db (snd (transactP tx E w)))"
  proof (cases "tx (w_db (await_others E w))")
    case (Inr r)
    obtain s' x where r: "r = (s', x)" by (cases r)
    from assms [OF Inr [unfolded r]] s show ?thesis by (simp add: transactP_def Inr r)
  qed (use s in \<open>simp add: transactP_def\<close>)
qed

lemma triple_transactP_steps:
  assumes "stable P" and tx: "\<And>s s' x. reachable s \<Longrightarrow> P s \<Longrightarrow> tx s = Inr (s', x) \<Longrightarrow> db_steps s s' \<and> Q x s'"
  shows "triple P (transactP tx) Q"
proof (rule tripleI)
  fix E w assume E: "others_deliver E" "good w" "P (w_db w)"
  note aw = good_await [OF E(1,2) assms(1) E(3)]
  show "good (snd (transactP tx E w)) \<and> (\<forall>x. fst (transactP tx E w) = Inr x \<longrightarrow> Q x (w_db (snd (transactP tx E w))))"
  proof (cases "tx (w_db (await_others E w))")
    case (Inr r)
    obtain s' x where r: "r = (s', x)" by (cases r)
    with Inr aw tx [of "w_db (await_others E w)" s' x]
    have st: "db_steps (w_db (await_others E w)) s'" "Q x s'" by (auto simp: good_def)
    moreover from st(1) aw(1) have "reachable s'" "backed s' (w_registry (await_others E w))"
      unfolding good_def using reachable_steps backed_later by blast+
    ultimately show ?thesis using Inr r by (simp add: transactP_def good_def)
  qed (use aw in \<open>simp add: transactP_def\<close>)
qed

lemma neutral_transactP_steps: "(\<And>s s' x. tx s = Inr (s', x) \<Longrightarrow> db_steps s s') \<Longrightarrow> neutral (transactP tx)"
  unfolding neutral_def stable_def [of "_ :: db \<Rightarrow> bool"]
  by (intro allI impI triple_transactP_steps) (auto simp: stable_def)

section \<open>Quiet runs\<close>

text \<open>With nothing else running, a coroutine that raises an error of the interface left the store alone.\<close>

definition rejects_cleanly :: "(http_exn, 'a) proc_raising \<Rightarrow> bool" where
  "rejects_cleanly m \<longleftrightarrow> (\<forall>E w e w'. quiet E \<longrightarrow> m E w = (Inl (ApiHttpException e), w') \<longrightarrow> w_db w' = w_db w)"

text \<open>It reads only.\<close>

definition reads_only :: "(http_exn, 'a) proc_raising \<Rightarrow> bool" where
  "reads_only m \<longleftrightarrow> (\<forall>E w. quiet E \<longrightarrow> w_db (snd (m E w)) = w_db w)"

text \<open>It raises no error of the interface.\<close>

definition never_rejects :: "(http_exn, 'a) proc_raising \<Rightarrow> bool" where
  "never_rejects m \<longleftrightarrow> (\<forall>E w e w'. m E w \<noteq> (Inl (ApiHttpException e), w'))"

named_theorems clean "how a coroutine rejects"

lemma reads_only_basic [clean]:
  "reads_only (returnP x)" "reads_only (raiseP e)" "reads_only (liftP m)" "reads_only clockP" "reads_only monotonicP"
  "reads_only uuidP" "reads_only (selectP q)" "reads_only (registryP f)"
  by (simp_all add: reads_only_def returnP_def raiseP_def liftP_def clockP_def monotonicP_def uuidP_def selectP_def
      registryP_def await_quiet split: prod.split)

lemma never_rejects_basic [clean]:
  "never_rejects (returnP x)" "never_rejects (embedP m')"
  by (auto simp: never_rejects_def returnP_def embedP_def embedE_def split: prod.splits sum.splits)

lemma rejects_cleanly_read [clean]: "reads_only m \<Longrightarrow> rejects_cleanly m"
  unfolding rejects_cleanly_def reads_only_def by (metis snd_conv)

lemma rejects_cleanly_never [clean]: "never_rejects m \<Longrightarrow> rejects_cleanly m"
  unfolding rejects_cleanly_def never_rejects_def by blast

lemma rejects_cleanly_transactP [clean]: "rejects_cleanly (transactP tx)"
  by (auto simp: rejects_cleanly_def transactP_def await_quiet Let_def split: sum.splits)

lemma bindP_outcome:
  assumes "bindP m k E w = (r, w')"
  obtains e where "m E w = (Inl e, w')" and "r = Inl e" | x w1 where "m E w = (Inr x, w1)" and "k x E w1 = (r, w')"
  using assms by (cases "m E w"; cases "fst (m E w)") (auto simp: bindP_def)

lemma never_rejects_bindP [clean]: "never_rejects m \<Longrightarrow> (\<And>x. never_rejects (k x)) \<Longrightarrow> never_rejects (bindP m k)"
  unfolding never_rejects_def by (blast elim: bindP_outcome)

text \<open>Reading goes on being clean; after a write nothing may be rejected any more.\<close>

lemma rejects_cleanly_after_read [clean]:
  "reads_only m \<Longrightarrow> (\<And>x. rejects_cleanly (k x)) \<Longrightarrow> rejects_cleanly (bindP m k)"
  unfolding rejects_cleanly_def reads_only_def by (metis bindP_outcome snd_conv)

lemma rejects_cleanly_before_rest:
  "rejects_cleanly m \<Longrightarrow> (\<And>x. never_rejects (k x)) \<Longrightarrow> rejects_cleanly (bindP m k)"
  unfolding rejects_cleanly_def never_rejects_def by (blast elim: bindP_outcome)

lemma rejects_cleanly_cases [clean]:
  "rejects_cleanly m \<Longrightarrow> rejects_cleanly m' \<Longrightarrow> rejects_cleanly (if c then m else m')"
  "rejects_cleanly m \<Longrightarrow> (\<And>x. rejects_cleanly (k x)) \<Longrightarrow> rejects_cleanly (case y of None \<Rightarrow> m | Some x \<Rightarrow> k x)"
  "never_rejects l \<Longrightarrow> (\<And>x. never_rejects (n x)) \<Longrightarrow> never_rejects (case y of None \<Rightarrow> l | Some x \<Rightarrow> n x)"
  by (cases y; simp)+

end
