(* ===== verification/Definition_Routes.thy ===== *)
theory Definition_Routes
  imports Route_Process
begin

text \<open>
  Registration and retrieval of definitions, \<open>src/nexusflow/interfaces/http/routes/definitions.py\<close>:
  the whole pipeline from the request body to the committed row. What the libraries do at the
  boundary is an argument: \<open>json.loads\<close> with the wrapper model, UTF-8 decoding, the YAML
  library, the structural model of a definition, canonical JSON text and SHA-256. A message that
  renders an exception keeps only the text before it.
\<close>

section \<open>The libraries at the boundary\<close>

datatype wrapper_failure = WrapperInvalid pyval | WrapperUnparsable

record 'b boundary_library =
  lib_json_wrapper :: "'b \<Rightarrow> wrapper_failure + string"
  lib_decode_utf8 :: "'b \<Rightarrow> string option"
  lib_yaml_compose :: "string \<Rightarrow> yaml_node option option"
  lib_yaml_load :: "string \<Rightarrow> pyval option"
  lib_validate_definition :: "pyval \<Rightarrow> pyval + workflow_definition_dto"
  lib_dumps :: "pyval \<Rightarrow> py_exn + string"
  lib_sha256_hex :: "string \<Rightarrow> string"

section \<open>The stages of the pipeline\<close>

definition detailed_error :: "int \<Rightarrow> string \<Rightarrow> string \<Rightarrow> string \<Rightarrow> pyval \<Rightarrow> http_exn" where
  "detailed_error status_code code message key value =
     ApiHttpException (mk_ApiHttpException status_code code message (Some (PyDict [(PyStr key, value)])) None)"

text \<open>The YAML text of the body, by content type.\<close>

definition raw_yaml_of :: "'b boundary_library \<Rightarrow> string \<Rightarrow> 'b \<Rightarrow> http_exn + string" where
  "raw_yaml_of lib content_type raw_body =
     (if py_contains ''application/json'' content_type then
        (case lib_json_wrapper lib raw_body of
           Inl (WrapperInvalid errors) \<Rightarrow>
             Inl (detailed_error 400 ''STRUCTURAL_VALIDATION_FAILURE'' ''Malformed JSON wrapper for definition registration.''
                    ''validation_errors'' errors)
         | Inl WrapperUnparsable \<Rightarrow> Inl (api_error 400 ''INVALID_JSON'' ''Failed to parse JSON request body: '')
         | Inr text \<Rightarrow> Inr text)
      else if py_contains ''yaml'' content_type \<or> content_type = [] then
        (case lib_decode_utf8 lib raw_body of
           None \<Rightarrow> Inl (api_error 400 ''INVALID_ENCODING'' ''Request body must be valid UTF-8 encoded YAML text.'')
         | Some text \<Rightarrow> Inr text)
      else Inl (api_error 415 ''UNSUPPORTED_MEDIA_TYPE''
             (''Unsupported Content-Type '' @ quoted content_type @ ''. Must be application/yaml or application/json.'')))"

definition parsed_definition :: "'b boundary_library \<Rightarrow> string \<Rightarrow> http_exn + pyval" where
  "parsed_definition lib raw_yaml =
     (case parse_yaml_to_ast (lib_yaml_compose lib) (lib_yaml_load lib) raw_yaml 1000000 16 1000 of
        Inr parsed \<Rightarrow> Inr parsed
      | Inl YamlComplexityError \<Rightarrow> Inl (api_error 422 ''YAML_STRUCTURE_INVALID'' [])
      | Inl YamlSyntaxError \<Rightarrow> Inl (api_error 400 ''MALFORMED_YAML'' [])
      | Inl e \<Rightarrow> Inl (Unhandled e))"

definition structured_definition :: "'b boundary_library \<Rightarrow> pyval \<Rightarrow> http_exn + workflow_definition_dto" where
  "structured_definition lib parsed =
     (case lib_validate_definition lib parsed of
        Inl errors \<Rightarrow> Inl (detailed_error 422 ''VALIDATION_ERROR'' ''Workflow definition failed structural validation.''
                               ''validation_errors'' errors)
      | Inr dto \<Rightarrow> Inr dto)"

fun validation_code_str :: "definition_validation_code \<Rightarrow> string" where
  "validation_code_str PAYLOAD_TOO_LARGE = ''PAYLOAD_TOO_LARGE''"
| "validation_code_str YAML_COMPLEXITY_EXCEEDED = ''YAML_COMPLEXITY_EXCEEDED''"
| "validation_code_str INVALID_YAML = ''INVALID_YAML''"
| "validation_code_str DUPLICATE_KEY = ''DUPLICATE_KEY''"
| "validation_code_str INVALID_ROOT = ''INVALID_ROOT''"
| "validation_code_str MISSING_FIELD = ''MISSING_FIELD''"
| "validation_code_str UNKNOWN_FIELD = ''UNKNOWN_FIELD''"
| "validation_code_str INVALID_FIELD_TYPE = ''INVALID_FIELD_TYPE''"
| "validation_code_str INVALID_BINDING = ''INVALID_BINDING''"
| "validation_code_str EMPTY_WORKFLOW = ''EMPTY_WORKFLOW''"
| "validation_code_str UNKNOWN_DEPENDENCY = ''UNKNOWN_DEPENDENCY''"
| "validation_code_str SELF_DEPENDENCY = ''SELF_DEPENDENCY''"
| "validation_code_str DUPLICATE_DEPENDENCY = ''DUPLICATE_DEPENDENCY''"
| "validation_code_str UNKNOWN_TASK_OUTPUT_SOURCE = ''UNKNOWN_TASK_OUTPUT_SOURCE''"
| "validation_code_str TASK_OUTPUT_SOURCE_NOT_DEPENDENCY = ''TASK_OUTPUT_SOURCE_NOT_DEPENDENCY''"
| "validation_code_str UNKNOWN_WORKFLOW_OUTPUT_SOURCE = ''UNKNOWN_WORKFLOW_OUTPUT_SOURCE''"
| "validation_code_str CYCLE_DETECTED = ''CYCLE_DETECTED''"
| "validation_code_str ATTEMPTS_EXCEEDED_LIMIT = ''ATTEMPTS_EXCEEDED_LIMIT''"

definition default_validator :: validator_settings where
  "default_validator = \<lparr>max_attempts_admission_limit = 100, max_errors = 50\<rparr>"

text \<open>\<open>if outcome.success is None or outcome.errors\<close>.\<close>

definition validated_definition :: "candidate_workflow_spec \<Rightarrow> http_exn + validated_workflow_spec" where
  "validated_definition candidate =
     bindE (embedE (validate default_validator candidate)) (\<lambda>outcome.
     case vo_success outcome of
       Some result \<Rightarrow>
         if vo_errors outcome = [] then Inr (vdr_spec result)
         else Inl (detailed_error 422 ''DEFINITION_VALIDATION_FAILED'' ''Workflow definition failed semantic graph validation.''
                ''semantic_errors'' (PyList (map (\<lambda>e. PyDict [(PyStr ''code'', PyStr (validation_code_str (ve_code e))),
                    (PyStr ''message'', PyStr (ve_message e)), (PyStr ''path'', PyStr (ve_path e))]) (vo_errors outcome))))
     | None \<Rightarrow> Inl (detailed_error 422 ''DEFINITION_VALIDATION_FAILED'' ''Workflow definition failed semantic graph validation.''
                ''semantic_errors'' (PyList (map (\<lambda>e. PyDict [(PyStr ''code'', PyStr (validation_code_str (ve_code e))),
                    (PyStr ''message'', PyStr (ve_message e)), (PyStr ''path'', PyStr (ve_path e))]) (vo_errors outcome)))))"

text \<open>From the body to what is committed: the text, the specification and its fingerprint.\<close>

definition admitted_definition ::
  "'b boundary_library \<Rightarrow> string \<Rightarrow> 'b \<Rightarrow> http_exn + string \<times> validated_workflow_spec \<times> request_fingerprint" where
  "admitted_definition lib content_type raw_body =
     bindE (raw_yaml_of lib content_type raw_body) (\<lambda>raw_yaml.
     bindE (parsed_definition lib raw_yaml) (\<lambda>parsed.
     bindE (structured_definition lib parsed) (\<lambda>dto.
     bindE (embedE (normalize_workflow_dto dto)) (\<lambda>candidate.
     bindE (validated_definition candidate) (\<lambda>spec.
     bindE (embedE (serialize_validated_spec spec)) (\<lambda>canonical.
     bindE (embedE (compute_registration_fingerprint (lib_dumps lib) (lib_sha256_hex lib) canonical)) (\<lambda>fingerprint.
     Inr (raw_yaml, spec, fingerprint))))))))"

section \<open>The routes\<close>

definition typed_key :: "string option \<Rightarrow> py_exn + idempotency_key option" where
  "typed_key key = (case key of None \<Rightarrow> Inr None | Some k \<Rightarrow> bindE (mk_IdempotencyKey k) (\<lambda>t. Inr (Some t)))"

text \<open>The session is fresh when the commit begins, so the commit is a transaction of its own.\<close>

definition register_definition ::
  "'b boundary_library \<Rightarrow> startup_recovery_gate \<Rightarrow> string \<Rightarrow> 'b \<Rightarrow> string option \<Rightarrow> (http_exn, definition_response) proc_raising" where
  "register_definition lib gate content_type raw_body idempotency_key =
     (if \<not> allows_new_work gate
      then raiseP (api_error 503 ''NOT_READY'' ''System is currently recovering; cannot accept new workflow definitions.'')
      else
        bindP (liftP (admitted_definition lib (py_lower content_type) raw_body)) (\<lambda>(raw_yaml, spec, fingerprint).
        bindP clockP (\<lambda>now_utc. bindP uuidP (\<lambda>new_def_id.
        bindP (liftP (embedE (typed_key idempotency_key))) (\<lambda>key.
        bindP (transactP (\<lambda>s. embedE (commit_registered_definition new_def_id (vs_workflow_name spec) spec (Some raw_yaml) key
                 (map_option (\<lambda>_. fingerprint) key) now_utc s))) (\<lambda>(outcome, resulting_id).
        if co_status outcome = PRECONDITION_FAILED
        then raiseP (api_error 409 ''IDEMPOTENCY_CONFLICT''
               ''Idempotency key was previously used with different definition semantics.'')
        else returnP \<lparr>dfr_definition_id = resulting_id, dfr_workflow_name = vs_workflow_name spec,
                      dfr_spec_version = ''v1'', dfr_created_at_utc = now_utc\<rparr>))))))"

definition get_definition_route :: "definition_id \<Rightarrow> (http_exn, definition_response) proc_raising" where
  "get_definition_route definition_id =
     bindP (selectP (\<lambda>s. get_definition s definition_id)) (\<lambda>record. case record of
       None \<Rightarrow> raiseP (api_error 404 ''DEFINITION_NOT_FOUND''
                 (''Definition '' @ quoted (uuid_str definition_id) @ '' was not found.''))
     | Some r \<Rightarrow> returnP \<lparr>dfr_definition_id = dr_definition_id r, dfr_workflow_name = dr_workflow_name r,
                              dfr_spec_version = ''v1'', dfr_created_at_utc = dr_created_at_utc r\<rparr>)"

end
