(* ===== verification/Execution_Routes.thy ===== *)
theory Execution_Routes
  imports Definition_Routes
begin

text \<open>
  Workflow executions over HTTP, \<open>src/nexusflow/interfaces/http/routes/executions.py\<close>: start,
  status, tasks, history and cancel. SHA-256 and \<open>str\<close> of the workflow input are arguments.
\<close>

section \<open>Responses\<close>

definition execution_response_of :: "workflow_row \<Rightarrow> execution_response" where
  "execution_response_of r =
     \<lparr>er_workflow_execution_id = wx_id r, er_definition_id = wx_definition_id r,
      er_state = workflow_state_str (wx_state r), er_has_output = wx_has_output r,
      er_output = column_value (wx_output r), er_created_at_utc = wx_created_at_utc r,
      er_updated_at_utc = wx_updated_at_utc r\<rparr>"

text \<open>The failure is shown when its category, code and message are non-empty texts.\<close>

definition failure_dto_of :: "failure_columns \<Rightarrow> failure_cause_dto option" where
  "failure_dto_of f =
     (case (failure_category_col f, failure_code_col f, failure_message_col f) of
        (Some category, Some code, Some message) \<Rightarrow>
          if category \<noteq> [] \<and> code \<noteq> [] \<and> message \<noteq> []
          then Some \<lparr>fcd_category = category, fcd_code = code, fcd_message = message,
                     fcd_details = column_value (failure_details_col f)\<rparr>
          else None
      | _ \<Rightarrow> None)"

definition task_response_of :: "task_row \<Rightarrow> task_execution_response" where
  "task_response_of r =
     \<lparr>tr_task_execution_id = tx_id r, tr_workflow_execution_id = tx_workflow_id r,
      tr_task_definition_id = tx_task_definition_id r, tr_state = task_state_str (tx_state r),
      tr_current_attempt_ordinal = tx_next_attempt_ordinal r, tr_has_output = tx_has_output r,
      tr_output = column_value (tx_output r), tr_failure_cause = failure_dto_of (tx_failure r),
      tr_created_at_utc = tx_created_at_utc r, tr_updated_at_utc = tx_updated_at_utc r\<rparr>"

definition history_response_of :: "history_row \<Rightarrow> history_entry_response" where
  "history_response_of r =
     \<lparr>hr_history_id = hx_id r, hr_workflow_execution_id = hx_workflow_id r, hr_task_execution_id = hx_task_id r,
      hr_attempt_id = hx_attempt_id r, hr_event_category = hx_event_category r,
      hr_occurred_at_utc = hx_occurred_at_utc r, hr_details = hx_event_payload r\<rparr>"

definition execution_not_found :: "workflow_execution_id \<Rightarrow> http_exn" where
  "execution_not_found workflow_id = api_error 404 ''EXECUTION_NOT_FOUND''
     (''Execution '' @ quoted (uuid_str workflow_id) @ '' not found.'')"

section \<open>Reading\<close>

definition get_execution :: "workflow_execution_id \<Rightarrow> (http_exn, execution_response) proc_raising" where
  "get_execution workflow_id =
     bindP (selectP (\<lambda>s. get_workflow s workflow_id)) (\<lambda>record. case record of
       None \<Rightarrow> raiseP (execution_not_found workflow_id)
     | Some r \<Rightarrow> returnP (execution_response_of r))"

definition list_tasks :: "workflow_execution_id \<Rightarrow> (http_exn, task_execution_response list) proc_raising" where
  "list_tasks workflow_id =
     bindP (selectP (\<lambda>s. tasks_of s workflow_id)) (\<lambda>records. returnP (map task_response_of records))"

text \<open>Ordered by \<open>(occurred_at_utc, history_id)\<close>: a stable sort by the first key after the second.\<close>

definition history_page :: "workflow_execution_id \<Rightarrow> nat \<Rightarrow> db \<Rightarrow> history_row list" where
  "history_page workflow_id limit s =
     take limit (sort_key hx_occurred_at_utc (sort_key hx_id (filter (\<lambda>h. hx_workflow_id h = workflow_id) (db_history s))))"

definition list_history :: "workflow_execution_id \<Rightarrow> nat \<Rightarrow> (http_exn, history_entry_response list) proc_raising" where
  "list_history workflow_id limit =
     bindP (selectP (history_page workflow_id limit)) (\<lambda>records. returnP (map history_response_of records))"

section \<open>Starting\<close>

text \<open>\<open>uuid4()\<close> once per task definition.\<close>

fun uuidsP :: "nat \<Rightarrow> ('e, uuid list) proc_raising" where
  "uuidsP 0 = returnP []"
| "uuidsP (Suc n) = bindP uuidP (\<lambda>u. bindP (uuidsP n) (\<lambda>us. returnP (u # us)))"

text \<open>
  The request's transaction: creation, population and start, each in a savepoint, up to
  \<open>session.commit()\<close>. An execution recorded before under the same key is answered without a
  commit, so nothing of the request is kept.
\<close>

definition start_in_request ::
  "history_entry_id \<Rightarrow> history_entry_id \<Rightarrow> history_entry_id \<Rightarrow> workflow_execution \<Rightarrow> idempotency_key option
    \<Rightarrow> request_fingerprint option \<Rightarrow> (task_execution_id \<times> task_definition) list \<Rightarrow> datetime
    \<Rightarrow> db \<Rightarrow> http_exn + db \<times> workflow_execution_id \<times> workflow_row option" where
  "start_in_request hid1 hid2 hid3 execution_entity key fingerprint task_definitions now_utc s =
     bindE (embedE (commit_workflow_creation hid1 execution_entity key fingerprint now_utc s)) (\<lambda>(s1, outcome, actual_wf_id).
     if co_status outcome = PRECONDITION_FAILED
     then Inl (api_error 409 ''IDEMPOTENCY_CONFLICT'' ''Idempotency key was previously used with different parameters.'')
     else
       case (if co_status outcome = COMMITTED \<and> actual_wf_id \<noteq> we_id execution_entity then get_workflow s1 actual_wf_id else None) of
         Some existing_wf \<Rightarrow> Inr (s, actual_wf_id, Some existing_wf)
       | None \<Rightarrow>
           bindE (embedE (commit_task_population hid2 actual_wf_id task_definitions now_utc s1)) (\<lambda>(s2, pop_outcome).
           if co_status pop_outcome \<noteq> COMMITTED
           then Inl (api_error 500 ''INITIALIZATION_FAILED'' (''Failed populating tasks: '' @ co_message pop_outcome))
           else
             bindE (embedE (commit_initialization_complete hid3 actual_wf_id 1 now_utc s2)) (\<lambda>(s3, init_outcome).
             if co_status init_outcome \<noteq> COMMITTED
             then Inl (api_error 500 ''INITIALIZATION_FAILED'' (''Failed completing initialization: '' @ co_message init_outcome))
             else Inr (s3, actual_wf_id, None))))"

text \<open>The key and the fingerprint of the definition and the input, when the header is present.\<close>

definition start_key ::
  "(pyval \<Rightarrow> string) \<Rightarrow> (string \<Rightarrow> string) \<Rightarrow> create_execution_request \<Rightarrow> string option
    \<Rightarrow> py_exn + idempotency_key option \<times> request_fingerprint option" where
  "start_key py_str sha256_hex payload idempotency_key =
     (case idempotency_key of
        None \<Rightarrow> Inr (None, None)
      | Some k \<Rightarrow>
          bindE (mk_RequestFingerprint (sha256_hex (uuid_str (cer_definition_id payload) @ '':'' @ py_str (cer_workflow_input payload))))
            (\<lambda>fingerprint.
          bindE (mk_IdempotencyKey k) (\<lambda>key. Inr (Some key, Some fingerprint))))"

definition new_execution :: "workflow_execution_id \<Rightarrow> create_execution_request \<Rightarrow> pyval \<Rightarrow> datetime \<Rightarrow> workflow_execution" where
  "new_execution new_wf_id payload frozen_input now_utc =
     \<lparr>we_id = new_wf_id, we_definition_id = cer_definition_id payload, we_state = WF_INITIALIZING, we_revision = 1,
      we_workflow_input = frozen_input, we_output = OutputAbsent, we_failure_cause = None,
      we_created_at_utc = Some now_utc, we_updated_at_utc = Some now_utc\<rparr>"

text \<open>After the commit: advance, then answer with the row as it is.\<close>

definition finish_start :: "workflow_execution_id \<Rightarrow> (http_exn, execution_response) proc_raising" where
  "finish_start actual_wf_id =
     bindP (embedP (advance_workflow (timedelta_seconds 30) actual_wf_id)) (\<lambda>_.
     bindP (selectP (\<lambda>s. get_workflow s actual_wf_id)) (\<lambda>wf_record. case wf_record of
       None \<Rightarrow> raiseP (api_error 500 ''INTERNAL_ERROR'' ''Workflow record disappeared.'')
     | Some r \<Rightarrow> returnP (execution_response_of r)))"

definition start_execution ::
  "(pyval \<Rightarrow> string) \<Rightarrow> (string \<Rightarrow> string) \<Rightarrow> startup_recovery_gate \<Rightarrow> create_execution_request \<Rightarrow> string option
    \<Rightarrow> (http_exn, execution_response) proc_raising" where
  "start_execution py_str sha256_hex gate payload idempotency_key =
     (if \<not> allows_new_work gate
      then raiseP (api_error 503 ''NOT_READY'' ''System is recovering; cannot accept new workflow executions.'')
      else
        bindP (selectP (\<lambda>s. get_definition s (cer_definition_id payload))) (\<lambda>def_row. case def_row of
          None \<Rightarrow> raiseP (api_error 404 ''DEFINITION_NOT_FOUND''
                    (''Definition '' @ quoted (uuid_str (cer_definition_id payload)) @ '' not found.''))
        | Some d \<Rightarrow>
            bindP (liftP (embedE (deserialize_validated_spec (column_value (dr_validated_iws d))))) (\<lambda>spec.
            bindP (liftP (embedE (start_key py_str sha256_hex payload idempotency_key))) (\<lambda>(key, fingerprint).
            bindP clockP (\<lambda>now_utc. bindP uuidP (\<lambda>new_wf_id.
            bindP (liftP (embedE (freeze_json (cer_workflow_input payload)))) (\<lambda>frozen_input.
            bindP uuidP (\<lambda>hid1. bindP (uuidsP (length (vs_tasks spec))) (\<lambda>task_ids. bindP uuidP (\<lambda>hid2. bindP uuidP (\<lambda>hid3.
            bindP (transactP (start_in_request hid1 hid2 hid3 (new_execution new_wf_id payload frozen_input now_utc)
                     key fingerprint (zip task_ids (map snd (vs_tasks spec))) now_utc)) (\<lambda>(actual_wf_id, existing).
            case existing of
              Some existing_wf \<Rightarrow> returnP (execution_response_of existing_wf)
            | None \<Rightarrow> finish_start actual_wf_id))))))))))))"

section \<open>Cancelling\<close>

definition concurrent_modification :: http_exn where
  "concurrent_modification =
     api_error 409 ''CONCURRENT_MODIFICATION'' ''Concurrent modification prevented cancellation.''"

text \<open>
  The request's transaction: rolled back unless the direction was committed.
\<close>

definition cancel_in_request :: "history_entry_id \<Rightarrow> workflow_execution_id \<Rightarrow> datetime \<Rightarrow> db \<Rightarrow> http_exn + db \<times> commit_outcome" where
  "cancel_in_request hid workflow_id now_utc s =
     bindE (embedE (commit_workflow_cancellation_direction hid workflow_id now_utc s)) (\<lambda>(s', outcome).
     if co_status outcome = COMMITTED then Inr (s', outcome) else Inr (s, outcome))"

text \<open>
  The session keeps the row object it loaded first (\<open>expire_on_commit=False\<close>), with what its own
  update set; the last select finds that object again, so the response never shows what the drain
  in another session did.
\<close>

definition cancel_execution :: "workflow_execution_id \<Rightarrow> (http_exn, execution_response) proc_raising" where
  "cancel_execution workflow_id =
     bindP (selectP (\<lambda>s. get_workflow s workflow_id)) (\<lambda>found. case found of
       None \<Rightarrow> raiseP (execution_not_found workflow_id)
     | Some wf_record \<Rightarrow>
         if wx_state wf_record = WF_CANCELLING \<or> wx_state wf_record = WF_CANCELLED
         then returnP (execution_response_of wf_record)
         else if wx_state wf_record = WF_FAILING \<or> wx_state wf_record = WF_FAILED \<or> wx_state wf_record = WF_SUCCEEDED
         then raiseP (api_error 409 ''INVALID_STATE_TRANSITION''
                (''Cannot cancel workflow in terminal or failing state '' @ quoted (workflow_state_str (wx_state wf_record)) @ ''.''))
         else
           bindP clockP (\<lambda>now_utc. bindP uuidP (\<lambda>hid.
           bindP (transactP (cancel_in_request hid workflow_id now_utc)) (\<lambda>outcome.
           if co_status outcome \<noteq> COMMITTED then
             bindP (selectP (\<lambda>s. get_workflow s workflow_id)) (\<lambda>reread. case reread of
               None \<Rightarrow> raiseP concurrent_modification
             | Some r \<Rightarrow>
                 if wx_state r = WF_CANCELLING \<or> wx_state r = WF_CANCELLED then returnP (execution_response_of r)
                 else raiseP concurrent_modification)
           else
             bindP (embedP (drain_workflow workflow_id)) (\<lambda>_.
             bindP (selectP (\<lambda>s. get_workflow s workflow_id)) (\<lambda>wf_updated. case wf_updated of
               None \<Rightarrow> raiseP (api_error 500 ''INTERNAL_ERROR'' ''Workflow record disappeared.'')
             | Some _ \<Rightarrow> returnP (execution_response_of
                          (wf_record\<lparr>wx_state := WF_CANCELLING, wx_revision := wx_revision wf_record + 1,
                                     wx_updated_at_utc := now_utc\<rparr>))))))))"

end
