(* ===== verification/Worker_Routes.thy ===== *)
theory Worker_Routes
  imports Route_Process
begin

text \<open>
  The worker protocol, \<open>src/nexusflow/interfaces/http/routes/worker.py\<close>: register, heartbeat,
  poll, start acknowledgement and result callback, each the whole handler behind its
  authentication. An f-string that renders an exception keeps only the text before it.
\<close>

section \<open>Registration and heartbeat\<close>

definition register_worker_route :: "worker_registration_request \<Rightarrow> (http_exn, worker_registration_response) proc_raising" where
  "register_worker_route payload =
     bindP (liftP (embedE (mapE mk_ActivityType (wq_capabilities payload)))) (\<lambda>capabilities.
     bindP uuidP (\<lambda>session_id. bindP monotonicP (\<lambda>now_monotonic. bindP clockP (\<lambda>now_utc.
     bindP (registryP (register_worker session_id now_monotonic now_utc (wq_worker_id payload) (py_set capabilities) True))
       (\<lambda>record.
     returnP \<lparr>wp_worker_session_id = wr_session_id record, wp_heartbeat_interval = 5000000,
              wp_worker_liveness_timeout = 15000000\<rparr>)))))"

definition stale_session :: "string \<Rightarrow> http_exn" where
  "stale_session message = api_error 409 ''STALE_SESSION'' message"

definition heartbeat_worker_route :: "worker_heartbeat_request \<Rightarrow> (http_exn, worker_heartbeat_response) proc_raising" where
  "heartbeat_worker_route payload =
     bindP monotonicP (\<lambda>now_monotonic. bindP clockP (\<lambda>now_utc.
     bindP (registryP (heartbeat_worker (hq_worker_session_id payload) (hq_accepting_new_work payload) now_monotonic now_utc))
       (\<lambda>ok.
     if \<not> ok then raiseP (stale_session ''Worker session expired or unknown to current control plane.'')
     else returnP \<lparr>hp_control_plane_draining = False\<rparr>)))"

section \<open>Polling\<close>

text \<open>\<open>dict[str, Any]\<close>, as pydantic admits it.\<close>

definition str_mapping :: "pyval \<Rightarrow> bool" where
  "str_mapping v = (case v of
       PyDict es \<Rightarrow> list_all (\<lambda>(k, _). case k of PyStr _ \<Rightarrow> True | _ \<Rightarrow> False) es
     | PyProxy es \<Rightarrow> list_all (\<lambda>(k, _). case k of PyStr _ \<Rightarrow> True | _ \<Rightarrow> False) es
     | _ \<Rightarrow> False)"

definition mk_task_assignment :: "task_assignment_dto \<Rightarrow> py_exn + task_assignment_dto" where
  "mk_task_assignment a = (if str_mapping (ta_stable_input a) then Inr a else Inl ValueError)"

definition queued_assignment :: "assignment_payload \<Rightarrow> py_exn + task_assignment_dto" where
  "queued_assignment asgn =
     bindE (uuid_parse (ap_attempt_id asgn)) (\<lambda>attempt_id.
     bindE (uuid_parse (ap_task_execution_id asgn)) (\<lambda>task_execution_id.
     bindE (uuid_parse (ap_workflow_execution_id asgn)) (\<lambda>workflow_execution_id.
     bindE (uuid_parse (ap_worker_session_id asgn)) (\<lambda>worker_session_id.
     mk_task_assignment
       \<lparr>ta_attempt_id = attempt_id, ta_attempt_ordinal = ap_attempt_ordinal asgn,
        ta_task_execution_id = task_execution_id, ta_workflow_execution_id = workflow_execution_id,
        ta_worker_session_id = worker_session_id, ta_activity_type = ap_activity_type asgn,
        ta_stable_input = ap_stable_input asgn, ta_start_deadline_utc = ap_start_deadline_utc asgn\<rparr>))))"

definition queued_cancellation :: "cancellation_payload \<Rightarrow> py_exn + task_cancellation_dto" where
  "queued_cancellation canc =
     bindE (uuid_parse (cp_attempt_id canc)) (\<lambda>attempt_id.
     bindE (uuid_parse (cp_worker_session_id canc)) (\<lambda>worker_session_id.
     bindE (uuid_parse (cp_task_execution_id canc)) (\<lambda>task_execution_id.
     bindE (uuid_parse (cp_workflow_execution_id canc)) (\<lambda>workflow_execution_id.
     Inr \<lparr>tc_attempt_id = attempt_id, tc_worker_session_id = worker_session_id,
          tc_task_execution_id = task_execution_id, tc_workflow_execution_id = workflow_execution_id,
          tc_reason = cp_reason canc\<rparr>))))"

text \<open>
  The oldest \<open>CLAIMED\<close> attempt of the session; rows created at the same instant, which the
  database may return in any order, are taken in the order of the table.
\<close>

definition claimed_attempt_of_session :: "worker_session_id \<Rightarrow> db \<Rightarrow> attempt_row option" where
  "claimed_attempt_of_session session_id s =
     (case sort_key ax_created_at_utc
             (filter (\<lambda>a. ax_worker_session_id a = session_id \<and> ax_state a = AS_CLAIMED) (db_attempts s)) of
        [] \<Rightarrow> None | a # _ \<Rightarrow> Some a)"

definition durable_assignment :: "worker_session_id \<Rightarrow> attempt_row \<Rightarrow> task_row \<Rightarrow> py_exn + task_assignment_dto" where
  "durable_assignment session_id attempt_row task_row =
     mk_task_assignment
       \<lparr>ta_attempt_id = ax_id attempt_row, ta_attempt_ordinal = ax_ordinal attempt_row,
        ta_task_execution_id = ax_task_id attempt_row, ta_workflow_execution_id = tx_workflow_id task_row,
        ta_worker_session_id = session_id, ta_activity_type = tx_task_definition_id task_row,
        ta_stable_input = or_empty (column_value (tx_stable_input task_row)),
        ta_start_deadline_utc = isoformat (ax_start_deadline_utc attempt_row)\<rparr>"

definition poll_durable :: "worker_session_id \<Rightarrow> (http_exn, worker_poll_response) proc_raising" where
  "poll_durable session_id =
     bindP (selectP (claimed_attempt_of_session session_id)) (\<lambda>attempt. case attempt of
       None \<Rightarrow> returnP PollNoWork
     | Some attempt_row \<Rightarrow>
         bindP (selectP (\<lambda>s. get_task s (ax_task_id attempt_row))) (\<lambda>task. case task of
           None \<Rightarrow> returnP PollNoWork
         | Some task_row \<Rightarrow>
             bindP (liftP (embedE (durable_assignment session_id attempt_row task_row)))
               (\<lambda>a. returnP (PollAssignment a))))"

definition poll_work :: "worker_poll_request \<Rightarrow> (http_exn, worker_poll_response) proc_raising" where
  "poll_work payload =
     (let session_id = pq_worker_session_id payload in
      bindP monotonicP (\<lambda>now_monotonic.
      bindP (registryP (\<lambda>rg. (get_snapshot session_id now_monotonic rg, rg))) (\<lambda>snap.
      if (case snap of None \<Rightarrow> True | Some sn \<Rightarrow> \<not> sn_live sn)
      then raiseP (stale_session ''Worker session expired or unknown.'')
      else
        bindP (registryP (poll_delivery session_id)) (\<lambda>queued. case queued of
          Some (Assignment asgn) \<Rightarrow>
            bindP (liftP (embedE (queued_assignment asgn))) (\<lambda>a. returnP (PollAssignment a))
        | Some (CancelCommand canc) \<Rightarrow>
            bindP (liftP (embedE (queued_cancellation canc))) (\<lambda>c. returnP (PollCancelCommand c))
        | None \<Rightarrow> poll_durable session_id))))"

section \<open>Start acknowledgement\<close>

text \<open>The route read nothing before, so the commit is a transaction of its own.\<close>

definition acknowledge_start :: "worker_start_ack_request \<Rightarrow> (http_exn, worker_start_ack_response) proc_raising" where
  "acknowledge_start payload =
     bindP monotonicP (\<lambda>now_monotonic.
     bindP (registryP (\<lambda>rg. (get_snapshot (sq_worker_session_id payload) now_monotonic rg, rg))) (\<lambda>snap.
     if (case snap of None \<Rightarrow> True | Some sn \<Rightarrow> \<not> sn_live sn)
     then raiseP (stale_session ''Worker session expired or unknown to current control plane.'')
     else
       bindP clockP (\<lambda>now_utc. bindP uuidP (\<lambda>fresh_uuid.
       bindP (embedP (commitP (\<lambda>hid. commit_worker_execution_start hid fresh_uuid (sq_attempt_id payload)
                (sq_worker_session_id payload) 1 now_utc))) (\<lambda>outcome.
       if co_status outcome \<noteq> COMMITTED
       then raiseP (api_error 409 ''STALE_ATTEMPT'' (''Could not start attempt: '' @ co_message outcome))
       else returnP \<lparr>sp_attempt_id = sq_attempt_id payload\<rparr>)))))"

section \<open>Callbacks\<close>

text \<open>
  The request's transaction around one settlement: any outcome but \<open>COMMITTED\<close> raises before
  \<open>session.commit()\<close>, and the statements the settlement made before it gave up are undone.
\<close>

definition settle_in_request ::
  "string \<Rightarrow> (history_entry_id \<Rightarrow> db \<Rightarrow> py_exn + db \<times> commit_outcome \<times> 'x) \<Rightarrow> (http_exn, 'x) proc_raising" where
  "settle_in_request rejection tx = bindP uuidP (\<lambda>hid. transactP (\<lambda>s.
     case tx hid s of
       Inl e \<Rightarrow> Inl (Unhandled e)
     | Inr (s', outcome, x) \<Rightarrow>
         if co_status outcome \<noteq> COMMITTED
         then Inl (api_error 409 ''STALE_ATTEMPT'' (rejection @ co_message outcome))
         else Inr (s', x)))"

text \<open>
  \<open>commit_worker_task_success\<close> in the session of the callback. When the first update matches no
  row, the duplicate check selects the attempt and the task, and the session answers with the
  objects it loaded at the start of the request: the bulk update has already set the attempt
  object to \<open>SUCCEEDED\<close> if it was \<open>RUNNING\<close> when it was read.
\<close>

definition task_success_in_session ::
  "history_entry_id \<Rightarrow> attempt_row \<Rightarrow> task_row \<Rightarrow> pyval \<Rightarrow> datetime \<Rightarrow> db \<Rightarrow> py_exn + db \<times> commit_outcome" where
  "task_success_in_session hid attempt task output now_utc s =
     (if list_ex (\<lambda>r. ax_id r = ax_id attempt \<and> ax_worker_session_id r = ax_worker_session_id attempt \<and>
                      ax_task_id r = tx_id task \<and> ax_state r = AS_RUNNING \<and> ax_revision r = ax_revision attempt)
           (db_attempts s)
      then commit_worker_task_success hid (ax_id attempt) (ax_worker_session_id attempt) (ax_revision attempt)
             (tx_id task) (tx_revision task) output now_utc s
      else if ax_state attempt = AS_RUNNING \<or> ax_state attempt = AS_SUCCEEDED then
        bindE (thaw_json output) (\<lambda>payload.
        if py_eq payload (column_value (tx_output task))
        then Inr (s, committed_with ''Duplicate callback matches'')
        else Inr (s, occ_conflict ''Attempt state/revision conflict''))
      else Inr (s, occ_conflict ''Attempt state/revision conflict''))"

definition report_success :: "attempt_row \<Rightarrow> task_row \<Rightarrow> pyval \<Rightarrow> datetime \<Rightarrow> (http_exn, unit) proc_raising" where
  "report_success attempt task output now_utc =
     bindP (liftP (case freeze_json output of
                     Inl _ \<Rightarrow> Inl (api_error 422 ''INVALID_OUTPUT'' ''Output is not valid JSON: '')
                   | Inr v \<Rightarrow> Inr v)) (\<lambda>frozen_output.
     bindP (settle_in_request ''Callback rejected: '' (\<lambda>hid s.
              bindE (task_success_in_session hid attempt task frozen_output now_utc s)
                (\<lambda>(s', outcome). Inr (s', outcome, ())))) (\<lambda>_.
     embedP (advance_workflow (timedelta_seconds 30) (tx_workflow_id task))))"

text \<open>
  A definitive failure and the failure direction of its workflow, in the same transaction; the
  outcome of the direction is not looked at.
\<close>

definition definitive_failure_with_direction ::
  "history_entry_id \<Rightarrow> history_entry_id \<Rightarrow> attempt_row \<Rightarrow> worker_session_id \<Rightarrow> task_row \<Rightarrow> failure_cause \<Rightarrow> datetime
    \<Rightarrow> db \<Rightarrow> py_exn + db \<times> commit_outcome \<times> workflow_execution_id option" where
  "definitive_failure_with_direction hid hid' attempt session_id task cause now_utc s =
     bindE (commit_worker_definitive_failure hid (ax_id attempt) session_id (ax_revision attempt)
              (tx_id task) (tx_revision task) cause now_utc s) (\<lambda>(s1, outcome, wf_id).
     if co_status outcome \<noteq> COMMITTED then Inr (s1, outcome, wf_id)
     else case wf_id of
       None \<Rightarrow> Inr (s1, outcome, None)
     | Some w \<Rightarrow>
         bindE (commit_workflow_failure_direction hid' w cause now_utc s1) (\<lambda>(s2, _). Inr (s2, outcome, Some w)))"

definition report_failure ::
  "attempt_row \<Rightarrow> worker_session_id \<Rightarrow> task_row \<Rightarrow> activity_failure_details \<Rightarrow> datetime \<Rightarrow> (http_exn, unit) proc_raising" where
  "report_failure attempt session_id task error now_utc =
     bindP (selectP (\<lambda>s. get_workflow s (tx_workflow_id task))) (\<lambda>wf_record.
     let wf_state = (case wf_record of None \<Rightarrow> ''UNKNOWN'' | Some w \<Rightarrow> workflow_state_str (wx_state w));
         (cause, is_classified_retryable) = classify_worker_failure
           \<lparr>wr_error_code = af_error_type error, wr_error_message = af_message error, wr_details = af_details error\<rparr>
     in if evaluate_retry_eligibility (tx_next_attempt_ordinal task) (tx_max_attempts task) is_classified_retryable wf_state
        then settle_in_request ''Retry rejected: '' (\<lambda>hid s.
               bindE (commit_worker_failure_with_retry hid (ax_id attempt) session_id (ax_revision attempt) (tx_id task)
                        (tx_revision task) (tx_workflow_id task) (now_utc + timedelta_seconds 5) cause now_utc s)
                 (\<lambda>(s', outcome). Inr (s', outcome, ())))
        else
          bindP uuidP (\<lambda>hid'.
          bindP (settle_in_request ''Definitive failure rejected: '' (\<lambda>hid s.
                   definitive_failure_with_direction hid hid' attempt session_id task cause now_utc s)) (\<lambda>wf_id.
          case wf_id of None \<Rightarrow> returnP () | Some w \<Rightarrow> embedP (drain_workflow w))))"

definition report_cancel_ack :: "attempt_row \<Rightarrow> worker_session_id \<Rightarrow> task_row \<Rightarrow> datetime \<Rightarrow> (http_exn, unit) proc_raising" where
  "report_cancel_ack attempt session_id task now_utc =
     bindP (settle_in_request ''Cancel ACK rejected: '' (\<lambda>hid s.
              commit_worker_cancellation_ack hid (ax_id attempt) session_id (ax_revision attempt)
                (tx_id task) (tx_revision task) now_utc s)) (\<lambda>_.
     embedP (drain_workflow (tx_workflow_id task)))"

text \<open>The branch on the type of the outcome.\<close>

definition report_outcome :: "worker_callback_request \<Rightarrow> attempt_row \<Rightarrow> task_row \<Rightarrow> datetime \<Rightarrow> (http_exn, unit) proc_raising" where
  "report_outcome payload attempt task now_utc = (case cq_payload payload of
       ActivitySuccess output \<Rightarrow> report_success attempt task output now_utc
     | ActivityFailure error \<Rightarrow> report_failure attempt (cq_worker_session_id payload) task error now_utc
     | ActivityCancelAck observed \<Rightarrow> report_cancel_ack attempt (cq_worker_session_id payload) task now_utc)"

definition report_callback :: "worker_callback_request \<Rightarrow> (http_exn, worker_callback_response) proc_raising" where
  "report_callback payload =
     bindP (selectP (\<lambda>s. get_attempt s (cq_attempt_id payload))) (\<lambda>found. case found of
       None \<Rightarrow> raiseP (api_error 404 ''ATTEMPT_NOT_FOUND''
                 (''Attempt '' @ quoted (uuid_str (cq_attempt_id payload)) @ '' not found.''))
     | Some attempt \<Rightarrow>
         if ax_worker_session_id attempt \<noteq> cq_worker_session_id payload
         then raiseP (api_error 403 ''WRONG_SESSION'' ''Attempt is not owned by this worker session.'')
         else
           bindP (selectP (\<lambda>s. get_task s (ax_task_id attempt))) (\<lambda>found_task. case found_task of
             None \<Rightarrow> raiseP (api_error 500 ''INTERNAL_ERROR'' ''Associated task not found.'')
           | Some task \<Rightarrow>
               bindP clockP (\<lambda>now_utc.
               bindP (report_outcome payload attempt task now_utc) (\<lambda>_.
               returnP \<lparr>cb_attempt_id = cq_attempt_id payload\<rparr>))))"

end
