(* ===== verification/Worker_Protocol.thy ===== *)
theory Worker_Protocol
  imports Worker_Routes
begin

text \<open>
  What the worker protocol promises (\<open>interfaces/http/routes/worker.py\<close>): an accepted callback is
  durable, a rejected one changes nothing, and a poll hands out only what the session durably owns.
\<close>

section \<open>What a settlement leaves\<close>

definition attempt_reached :: "attempt_id \<Rightarrow> attempt_state \<Rightarrow> db \<Rightarrow> bool" where
  "attempt_reached aid st s \<longleftrightarrow> (\<exists>a \<in> set (db_attempts s). ax_id a = aid \<and> ax_state a = st)"

lemma stable_attempt_reached:
  assumes "as_terminal st"
  shows "stable (attempt_reached aid st)"
  unfolding stable_def attempt_reached_def
proof (intro allI impI)
  fix s s' assume s: "reachable s" "db_steps s s'" and "\<exists>a \<in> set (db_attempts s). ax_id a = aid \<and> ax_state a = st"
  then obtain a where a: "a \<in> set (db_attempts s)" "ax_id a = aid" "ax_state a = st" by blast
  then obtain b where b: "b \<in> set (db_attempts s')" "attempt_rows.evolves a b" "ax_id b = ax_id a"
    using attempt_survives [OF s a(1)] by blast
  from attempt_rows.evolves_terminal [OF b(2)] a(3) assms have "attempt_core b = attempt_core a" by simp
  with a(2,3) b(1,3) show "\<exists>a \<in> set (db_attempts s'). ax_id a = aid \<and> ax_state a = st"
    by (auto dest: attempt_core_eqD intro!: bexI [OF _ b(1)])
qed

lemma update_attempts_reaches:
  assumes "update_attempts P f s = Inr (s1, n)" and "n \<noteq> 0" and "\<And>r. P r \<Longrightarrow> ax_id (f r) = aid \<and> ax_state (f r) = st"
  shows "attempt_reached aid st s1"
proof -
  have s1: "s1 = s\<lparr>db_attempts := update_rows P f (db_attempts s)\<rparr>" and n: "n = count_rows P (db_attempts s)"
    using assms(1) by (simp_all only: db_stmt)
  then obtain r where "r \<in> set (db_attempts s)" "P r" using assms(2) by (metis count_rows_pos gr0I)
  with mem_update_rowsI [of r "db_attempts s" P f] assms(3) show ?thesis
    unfolding attempt_reached_def s1 by (intro bexI [of _ "f r"]) auto
qed

lemma reached_frame: "db_attempts s' = db_attempts s \<Longrightarrow> attempt_reached a st s' = attempt_reached a st s"
  by (simp add: attempt_reached_def)

lemma fail_owned_reaches:
  "fail_owned_attempt a ws arv t cause now s = Inr (s1, n) \<Longrightarrow> n \<noteq> 0 \<Longrightarrow> attempt_reached a AS_FAILED s1"
  unfolding fail_owned_attempt_def by (elim bindE_InrE) (erule (1) update_attempts_reaches, simp)

lemma retry_reaches:
  assumes "commit_worker_failure_with_retry hid a ws arv t trv w ready cause now s = Inr (s', out)" and "co_status out = COMMITTED"
  shows "attempt_reached a AS_FAILED s'"
  using assms unfolding commit_worker_failure_with_retry_def Let_def
  by (elim run_elims; simp add: outcome_defs) (auto simp: db_stmt dest!: fail_owned_reaches simp: attempt_reached_def)

lemma definitive_reaches:
  assumes "commit_worker_definitive_failure hid a ws arv t trv cause now s = Inr (s', out, x)" and "co_status out = COMMITTED"
  shows "attempt_reached a AS_FAILED s'"
  using assms unfolding commit_worker_definitive_failure_def fail_task_def Let_def
  by (elim run_elims; simp add: outcome_defs) (auto simp: db_stmt dest!: fail_owned_reaches simp: attempt_reached_def)

lemma direction_reaches:
  assumes "commit_workflow_failure_direction hid w cause now s = Inr (s', out)"
  shows "db_attempts s' = db_attempts s"
  using assms unfolding commit_workflow_failure_direction_def Let_def
  by (elim run_elims; simp add: outcome_defs) (auto simp: db_stmt)

lemma cancel_ack_reaches:
  assumes "commit_worker_cancellation_ack hid a ws arv t trv now s = Inr (s', out, x)" and "co_status out = COMMITTED"
  shows "attempt_reached a AS_CANCELLED s'"
  using assms unfolding commit_worker_cancellation_ack_def cancel_active_attempt_def Let_def
  by (elim run_elims; (force simp: outcome_defs; fail)?)
    (drule update_attempts_reaches [where aid = a and st = AS_CANCELLED], simp, simp, auto simp: db_stmt attempt_reached_def)


section \<open>Accepted callbacks\<close>

text \<open>A reported output is recorded: the task of the attempt has succeeded with it.\<close>

definition output_recorded :: "task_execution_id \<Rightarrow> pyval \<Rightarrow> db \<Rightarrow> bool" where
  "output_recorded task_id p s \<longleftrightarrow> (\<exists>t \<in> set (db_tasks s). tx_id t = task_id \<and> tx_state t = TS_SUCCEEDED \<and>
     py_eq p (column_value (tx_output t)))"

lemma stable_output_recorded [stables]: "stable (output_recorded task_id p)"
  unfolding stable_def output_recorded_def
proof (intro allI impI)
  fix s s' assume s: "reachable s" "db_steps s s'"
    and "\<exists>t \<in> set (db_tasks s). tx_id t = task_id \<and> tx_state t = TS_SUCCEEDED \<and> py_eq p (column_value (tx_output t))"
  then obtain t where t: "t \<in> set (db_tasks s)" "tx_id t = task_id" "tx_state t = TS_SUCCEEDED" "py_eq p (column_value (tx_output t))"
    by blast
  with evolves_task_terminal [OF s t(1)] have "get_task s' task_id = Some t" by simp
  then have "t \<in> set (db_tasks s')" unfolding get_task_def by (rule find_SomeD [THEN conjunct1])
  with t show "\<exists>t \<in> set (db_tasks s'). tx_id t = task_id \<and> tx_state t = TS_SUCCEEDED \<and> py_eq p (column_value (tx_output t))" by blast
qed

lemma py_eq_None_right: "py_eq p PyNone \<Longrightarrow> p = PyNone"
  by (cases p) (auto split: option.splits)

text \<open>What the duplicate check compares with: a task that carries an output has succeeded.\<close>

lemma duplicate_recorded:
  assumes "reachable s" and "t \<in> set (db_tasks s)" and "py_eq p (column_value (tx_output t))" and "p \<noteq> PyNone"
  shows "output_recorded (tx_id t) p s"
proof -
  have "tx_output t \<noteq> None" using assms(3,4) py_eq_None_right by (auto simp: column_value_def split: option.splits)
  then have "tx_state t = TS_SUCCEEDED"
    using lifecycle_task_inv [OF reachable_lifecycle [OF assms(1)] assms(2)]
      lifecycle_db_ok [OF reachable_lifecycle [OF assms(1)]] assms(2)
    by (auto simp: task_inv_def db_ok_def list_all_iff task_row_ok_def presence_ok_def)
  with assms(2,3) show ?thesis unfolding output_recorded_def by blast
qed


lemma success_commit_recorded:
  assumes "commit_worker_task_success hid a ws arv t trv v now s = Inr (s', out)" and "co_status out = COMMITTED"
    and m: "list_ex (success_attempt a ws t arv) (db_attempts s)" and "frozen v"
  shows "\<exists>p. thaw_json v = Inr p \<and> output_recorded t p s'"
proof -
  have pos: "0 < count_rows (success_attempt a ws t arv) (db_attempts s)"
    using m by (auto simp: count_rows_pos list_ex_iff)
  have "out = committed"
    using assms(1,2) unfolding commit_worker_task_success_def Let_def
    by (elim run_elims; use pos in \<open>auto simp: outcome_defs db_stmt\<close>)
  with assms(1) have c: "commit_worker_task_success hid a ws arv t trv v now s = Inr (s', committed)" by simp
  obtain p ar tr where p: "thaw_json v = Inr p" and tr: "tx_id tr = t"
    and t: "tr\<lparr>tx_state := TS_SUCCEEDED, tx_has_output := True, tx_output := jsonb p,
           tx_revision := tx_revision tr + 1, tx_updated_at_utc := now\<rparr> \<in> set (db_tasks s')"
    by (rule success_committed [OF c]) blast
  have "py_eq p (column_value (jsonb p))"
    using py_eq_refl native_unfreeze [OF assms(4)] thaw_frozen [OF assms(4)] p by (auto simp: jsonb_def column_value_def)
  with t tr have "output_recorded t p s'" unfolding output_recorded_def by (intro bexI [OF _ t]) simp
  with p show ?thesis by blast
qed

lemma success_in_session_recorded:
  assumes "task_success_in_session hid att task v now s = Inr (s', out)" and "co_status out = COMMITTED" and "frozen v"
    and dup: "\<And>p. py_eq p (column_value (tx_output task)) \<Longrightarrow> p \<noteq> PyNone \<Longrightarrow> output_recorded (tx_id task) p s"
  shows "db_steps s s' \<and> (\<exists>p. thaw_json v = Inr p \<and> (p = PyNone \<or> output_recorded (tx_id task) p s'))"
proof (cases "list_ex (success_attempt (ax_id att) (ax_worker_session_id att) (tx_id task) (ax_revision att)) (db_attempts s)")
  case True
  with assms(1) have c: "commit_worker_task_success hid (ax_id att) (ax_worker_session_id att) (ax_revision att)
      (tx_id task) (tx_revision task) v now s = Inr (s', out)"
    by (simp add: task_success_in_session_def)
  from success_commit_recorded [OF c assms(2) True assms(3)] step_success [OF c] show ?thesis by blast
next
  case False
  with assms(1,2) have "s' = s \<and> (\<exists>p. thaw_json v = Inr p \<and> py_eq p (column_value (tx_output task)))"
    by (auto simp: task_success_in_session_def bindE_eq_Inr outcome_defs split: if_splits)
  with dup show ?thesis by blast
qed

section \<open>The callback as a coroutine\<close>

lemma triple_settle:
  assumes "stable P"
    and "\<And>hid s s' out x. reachable s \<Longrightarrow> P s \<Longrightarrow> tx hid s = Inr (s', out, x) \<Longrightarrow> co_status out = COMMITTED \<Longrightarrow> db_steps s s' \<and> Q x s'"
  shows "triple P (settle_in_request msg tx) Q"
  unfolding settle_in_request_def
proof (rule triple_bindP [OF triple_draws(3)], rule triple_transactP_steps [OF assms(1)])
  fix hid s s' x
  assume "reachable s" "P s" and t: "(case tx hid s of Inl e \<Rightarrow> Inl (Unhandled e)
     | Inr (s', outcome, x) \<Rightarrow> if co_status outcome \<noteq> COMMITTED
         then Inl (api_error 409 ''STALE_ATTEMPT'' (msg @ co_message outcome)) else Inr (s', x)) = Inr (s', x)"
  from t obtain out where "tx hid s = Inr (s', out, x)" "co_status out = COMMITTED"
    by (auto split: sum.splits if_splits)
  with assms(2) [OF \<open>reachable s\<close> \<open>P s\<close>] show "db_steps s s' \<and> Q x s'" by blast
qed

lemma triple_keeps: "triple (\<lambda>_. True) m (\<lambda>_ _. True) \<Longrightarrow> moves_by_steps m \<Longrightarrow> stable R \<Longrightarrow> triple R m (\<lambda>_. R)"
  using triple_frame [of "\<lambda>_. True" m "\<lambda>_ _. True" R] by simp

lemma triple_scheduler:
  "stable R \<Longrightarrow> triple R (embedP (advance_workflow dl w)) (\<lambda>_. R)"
  "stable R \<Longrightarrow> triple R (embedP (drain_workflow w)) (\<lambda>_. R)"
  by (rule triple_keeps [OF triple_embedP [OF triple_advance] moves_embedP [OF moves_advance_workflow]], assumption)
    (rule neutral_triple [OF neutral_embedP [OF neutral_drain_workflow]], assumption)

definition success_promise :: "pyval \<Rightarrow> task_execution_id \<Rightarrow> db \<Rightarrow> bool" where
  "success_promise v task_id s \<longleftrightarrow>
     (\<exists>f p. freeze_json v = Inr f \<and> thaw_json f = Inr p \<and> (p = PyNone \<or> output_recorded task_id p s))"

lemma stable_success_promise [stables]: "stable (success_promise v task_id)"
  using stable_output_recorded unfolding stable_def success_promise_def by metis

definition duplicates_ok :: "task_row \<Rightarrow> db \<Rightarrow> bool" where
  "duplicates_ok task s \<longleftrightarrow> (\<forall>p. py_eq p (column_value (tx_output task)) \<longrightarrow> p \<noteq> PyNone \<longrightarrow> output_recorded (tx_id task) p s)"

lemma stable_duplicates_ok [stables]: "stable (duplicates_ok task)"
  unfolding duplicates_ok_def by (intro stables)

lemma triple_report_success:
  "triple (duplicates_ok task) (report_success att task v now) (\<lambda>_. success_promise v (tx_id task))"
  unfolding report_success_def
proof (rule triple_bindP [OF triple_liftP], rule triple_bindP [OF _ triple_scheduler(1) [OF stable_success_promise]])
  fix f
  let ?P = "\<lambda>s. (case freeze_json v of Inl _ \<Rightarrow> Inl (api_error 422 ''INVALID_OUTPUT'' ''Output is not valid JSON: '')
       | Inr v \<Rightarrow> Inr v) = Inr f \<and> duplicates_ok task s"
  have st: "stable ?P" by (intro stables)
  show "triple ?P (settle_in_request ''Callback rejected: '' (\<lambda>hid s.
          bindE (task_success_in_session hid att task f now s) (\<lambda>(s', outcome). Inr (s', outcome, ()))))
     (\<lambda>_. success_promise v (tx_id task))"
  proof (rule triple_settle [OF st])
    fix hid s s' out and x :: unit
    assume "reachable s" and P: "?P s" and "co_status out = COMMITTED"
      and "bindE (task_success_in_session hid att task f now s) (\<lambda>(s', outcome). Inr (s', outcome, ())) = Inr (s', out, x)"
    then have t: "task_success_in_session hid att task f now s = Inr (s', out)" by (auto simp: bindE_eq_Inr)
    from P have f: "freeze_json v = Inr f" and d: "duplicates_ok task s" by (auto split: sum.splits)
    from success_in_session_recorded [OF t \<open>co_status out = COMMITTED\<close> freeze_json_frozen [OF f]] d f
    show "db_steps s s' \<and> success_promise v (tx_id task) s'" unfolding success_promise_def duplicates_ok_def by blast
  qed
qed


lemma definitive_with_direction_steps:
  assumes "definitive_failure_with_direction hid hid' att ws task cause now s = Inr (s', out, x)" and "co_status out = COMMITTED"
  shows "db_steps s s' \<and> attempt_reached (ax_id att) AS_FAILED s'"
proof -
  obtain s1 out1 x1 where c: "commit_worker_definitive_failure hid (ax_id att) ws (ax_revision att) (tx_id task)
      (tx_revision task) cause now s = Inr (s1, out1, x1)"
    and rest: "(if co_status out1 \<noteq> COMMITTED then Inr (s1, out1, x1) else case x1 of None \<Rightarrow> Inr (s1, out1, None)
       | Some w \<Rightarrow> bindE (commit_workflow_failure_direction hid' w cause now s1) (\<lambda>(s2, _). Inr (s2, out1, Some w))) = Inr (s', out, x)"
    using assms(1) unfolding definitive_failure_with_direction_def by (auto simp: bindE_eq_Inr)
  from rest assms(2) have o: "co_status out1 = COMMITTED" by (auto split: if_splits option.splits simp: bindE_eq_Inr)
  note r1 = definitive_reaches [OF c o] and s1 = step_failure [OF c]
  show ?thesis
  proof (cases x1)
    case None
    with rest o s1 r1 show ?thesis by auto
  next
    case (Some w)
    with rest o obtain out2 where d: "commit_workflow_failure_direction hid' w cause now s1 = Inr (s', out2)"
      by (auto simp: bindE_eq_Inr)
    from step_failing [OF d] s1 have "db_steps s s'" by (meson r_into_rtranclp rtranclp.rtrancl_into_rtrancl)
    with direction_reaches [OF d] r1 show ?thesis by (simp add: attempt_reached_def)
  qed
qed

lemma triple_report_failure:
  "triple (\<lambda>_. True) (report_failure att ws task error now) (\<lambda>_. attempt_reached (ax_id att) AS_FAILED)"
proof -
  have st: "stable (attempt_reached (ax_id att) AS_FAILED)" by (rule stable_attempt_reached) simp
  have retry: "triple (\<lambda>_. True) (settle_in_request msg (\<lambda>hid s.
         bindE (commit_worker_failure_with_retry hid (ax_id att) ws (ax_revision att) (tx_id task)
                  (tx_revision task) (tx_workflow_id task) ready cause now s) (\<lambda>(s', outcome). Inr (s', outcome, ()))))
       (\<lambda>_. attempt_reached (ax_id att) AS_FAILED)" for msg ready cause
    by (rule triple_settle [OF stable_const]) (auto simp: bindE_eq_Inr dest: retry_reaches step_retry)
  have definitive: "triple (\<lambda>_. True) (bindP uuidP (\<lambda>hid'.
          bindP (settle_in_request msg (\<lambda>hid s. definitive_failure_with_direction hid hid' att ws task cause now s)) (\<lambda>wf_id.
          case wf_id of None \<Rightarrow> returnP () | Some w \<Rightarrow> embedP (drain_workflow w))))
       (\<lambda>_. attempt_reached (ax_id att) AS_FAILED)" for msg cause
    by (rule triple_bindP [OF triple_draws(3)], rule triple_bindP, rule triple_settle [OF stable_const],
        rule definitive_with_direction_steps, assumption+,
        rule triple_option [OF triple_returnP triple_scheduler(2) [OF st]])
  have branch: "triple P (if c then settle_in_request msg (\<lambda>hid s.
         bindE (commit_worker_failure_with_retry hid (ax_id att) ws (ax_revision att) (tx_id task)
                  (tx_revision task) (tx_workflow_id task) ready cause now s) (\<lambda>(s', outcome). Inr (s', outcome, ())))
       else bindP uuidP (\<lambda>hid'.
          bindP (settle_in_request msg' (\<lambda>hid s. definitive_failure_with_direction hid hid' att ws task cause now s)) (\<lambda>wf_id.
          case wf_id of None \<Rightarrow> returnP () | Some w \<Rightarrow> embedP (drain_workflow w))))
       (\<lambda>_. attempt_reached (ax_id att) AS_FAILED)" for P c msg msg' ready cause
    by (rule triple_if) (rule triple_weaken [OF retry], rule TrueI, rule triple_weaken [OF definitive], rule TrueI)
  show ?thesis
    unfolding report_failure_def Let_def split_beta
    by (rule triple_bindP [OF triple_selectP [OF stable_const]]) (rule branch [unfolded split_beta])
qed

lemma triple_report_cancel_ack:
  "triple (\<lambda>_. True) (report_cancel_ack att ws task now) (\<lambda>_. attempt_reached (ax_id att) AS_CANCELLED)"
  unfolding report_cancel_ack_def
proof (rule triple_bindP [OF _ triple_scheduler(2)])
  show "stable (attempt_reached (ax_id att) AS_CANCELLED)" by (rule stable_attempt_reached) simp
  show "triple (\<lambda>_. True) (settle_in_request ''Cancel ACK rejected: '' (\<lambda>hid s.
          commit_worker_cancellation_ack hid (ax_id att) ws (ax_revision att) (tx_id task) (tx_revision task) now s))
     (\<lambda>_. attempt_reached (ax_id att) AS_CANCELLED)"
    by (rule triple_settle [OF stable_const]) (auto dest: cancel_ack_reaches step_cancel_ack)
qed

text \<open>What acceptance of a callback promises of the store.\<close>

definition callback_recorded :: "worker_callback_request \<Rightarrow> db \<Rightarrow> bool" where
  "callback_recorded payload s = (case cq_payload payload of
       ActivitySuccess output \<Rightarrow> (\<exists>a \<in> set (db_attempts s). ax_id a = cq_attempt_id payload \<and>
         ax_worker_session_id a = cq_worker_session_id payload \<and> success_promise output (ax_task_id a) s)
     | ActivityFailure _ \<Rightarrow> attempt_reached (cq_attempt_id payload) AS_FAILED s
     | ActivityCancelAck _ \<Rightarrow> attempt_reached (cq_attempt_id payload) AS_CANCELLED s)"

definition owned_attempt :: "attempt_row \<Rightarrow> db \<Rightarrow> bool" where
  "owned_attempt att s \<longleftrightarrow> (\<exists>a \<in> set (db_attempts s). ax_id a = ax_id att \<and>
     ax_worker_session_id a = ax_worker_session_id att \<and> ax_task_id a = ax_task_id att)"

lemma stable_owned_attempt [stables]: "stable (owned_attempt att)"
  unfolding stable_def owned_attempt_def
proof (intro allI impI)
  fix s s' assume s: "reachable s" "db_steps s s'" and "\<exists>a \<in> set (db_attempts s). ax_id a = ax_id att \<and>
     ax_worker_session_id a = ax_worker_session_id att \<and> ax_task_id a = ax_task_id att"
  then obtain a where a: "a \<in> set (db_attempts s)" "ax_id a = ax_id att" "ax_worker_session_id a = ax_worker_session_id att"
    "ax_task_id a = ax_task_id att" by blast
  from attempt_survives [OF s a(1)] obtain b where b: "b \<in> set (db_attempts s')" "ax_id b = ax_id a" "attempt_rows.evolves a b" by blast
  from attempt_evolves_kept [OF b(3)] a b(2) show "\<exists>a \<in> set (db_attempts s'). ax_id a = ax_id att \<and>
     ax_worker_session_id a = ax_worker_session_id att \<and> ax_task_id a = ax_task_id att"
    by (intro bexI [OF _ b(1)]) (simp add: attempt_kept_def)
qed

lemma get_attempt_someD: "get_attempt s i = Some a \<Longrightarrow> a \<in> set (db_attempts s) \<and> ax_id a = i"
  unfolding get_attempt_def by (auto dest: find_SomeD)

lemma get_task_someD: "get_task s i = Some t \<Longrightarrow> t \<in> set (db_tasks s) \<and> tx_id t = i"
  unfolding get_task_def by (auto dest: find_SomeD)


lemma neutral_settle:
  assumes "\<And>hid s s' out x. tx hid s = Inr (s', out, x) \<Longrightarrow> co_status out = COMMITTED \<Longrightarrow> db_steps s s'"
  shows "neutral (settle_in_request msg tx)"
  unfolding neutral_def
proof (intro allI impI triple_settle, assumption)
  fix P hid s s' out x
  assume "stable P" "reachable s" "P s" and "tx hid s = Inr (s', out, x)" "co_status out = COMMITTED"
  from assms [OF this(4,5)] \<open>stable P\<close> \<open>reachable s\<close> \<open>P s\<close> show "db_steps s s' \<and> P s'" unfolding stable_def by blast
qed

lemma task_success_in_session_steps: "task_success_in_session hid att task v now s = Inr (s', out) \<Longrightarrow> db_steps s s'"
  by (auto simp: task_success_in_session_def bindE_eq_Inr split: if_splits intro: step_success)

lemma moves_settle:
  assumes "\<And>hid s s' out x. tx hid s = Inr (s', out, x) \<Longrightarrow> co_status out = COMMITTED \<Longrightarrow> db_steps s s'"
  shows "moves_by_steps (settle_in_request msg tx)"
  unfolding settle_in_request_def
  by (intro moves moves_transactP_steps) (auto split: sum.splits if_splits dest: assms)

lemma moves_report:
  "moves_by_steps (report_success att task v now)"
  "moves_by_steps (report_failure att ws task error now)"
  "moves_by_steps (report_cancel_ack att ws task now)"
  unfolding report_success_def report_failure_def report_cancel_ack_def Let_def split_beta
  by (intro moves moves_settle; auto simp: bindE_eq_Inr dest: task_success_in_session_steps definitive_with_direction_steps
      intro: step_retry step_cancel_ack)+


lemma callback_recorded_settled:
  "cq_payload payload = ActivityFailure e \<Longrightarrow> callback_recorded payload = attempt_reached (cq_attempt_id payload) AS_FAILED"
  "cq_payload payload = ActivityCancelAck c \<Longrightarrow> callback_recorded payload = attempt_reached (cq_attempt_id payload) AS_CANCELLED"
  by (rule ext, simp add: callback_recorded_def)+

lemma triple_report_outcome:
  assumes "ax_id att = cq_attempt_id payload" and "ax_worker_session_id att = cq_worker_session_id payload"
    and "tx_id task = ax_task_id att"
  shows "triple (\<lambda>s. duplicates_ok task s \<and> owned_attempt att s) (report_outcome payload att task now) (\<lambda>_. callback_recorded payload)"
proof (cases "cq_payload payload")
  case (ActivitySuccess v)
  have "triple (\<lambda>s. duplicates_ok task s \<and> owned_attempt att s) (report_success att task v now) (\<lambda>_. callback_recorded payload)"
    by (rule triple_post [OF triple_frame [OF triple_report_success moves_report(1) stable_owned_attempt]])
      (use ActivitySuccess assms in \<open>auto simp: callback_recorded_def owned_attempt_def\<close>)
  then show ?thesis by (simp add: report_outcome_def ActivitySuccess)
next
  case (ActivityFailure error)
  show ?thesis
    unfolding report_outcome_def ActivityFailure callback_recorded_settled(1) [OF ActivityFailure] assms(1) [symmetric]
    by (simp add: triple_weaken [OF triple_report_failure])
next
  case (ActivityCancelAck observed)
  show ?thesis
    unfolding report_outcome_def ActivityCancelAck callback_recorded_settled(2) [OF ActivityCancelAck] assms(1) [symmetric]
    by (simp add: triple_weaken [OF triple_report_cancel_ack])
qed

lemma triple_report_task:
  assumes "ax_worker_session_id att = cq_worker_session_id payload"
  shows "triple (\<lambda>s. owned_attempt att s \<and> ax_id att = cq_attempt_id payload \<and> reachable s \<and> found = get_task s (ax_task_id att))
     (case found of
        None \<Rightarrow> raiseP e
      | Some task \<Rightarrow> bindP clockP (\<lambda>now. bindP (report_outcome payload att task now) (\<lambda>_. returnP r)))
     (\<lambda>_. callback_recorded payload)"
proof (rule triple_option [OF triple_raiseP], rule triple_bindP [OF triple_draws(1)], rule triple_bindP [OF _ triple_returnP])
  fix task now assume f: "found = Some task"
  show "triple (\<lambda>s. owned_attempt att s \<and> ax_id att = cq_attempt_id payload \<and> reachable s \<and> found = get_task s (ax_task_id att))
     (report_outcome payload att task now) (\<lambda>_. callback_recorded payload)"
  proof (cases "ax_id att = cq_attempt_id payload \<and> tx_id task = ax_task_id att")
    case True
    with triple_report_outcome [of att payload task now] assms
    have b: "triple (\<lambda>s. duplicates_ok task s \<and> owned_attempt att s) (report_outcome payload att task now) (\<lambda>_. callback_recorded payload)"
      by simp
    show ?thesis
      by (rule triple_weaken [OF b])
        (auto simp: duplicates_ok_def f dest!: sym [of "Some task"] dest: get_task_someD intro: duplicate_recorded)
  next
    case False
    then show ?thesis using get_task_someD by (auto simp: triple_def f dest!: sym [of "Some task"])
  qed
qed

lemma triple_report_callback: "triple (\<lambda>_. True) (report_callback payload) (\<lambda>_. callback_recorded payload)"
  unfolding report_callback_def
proof (rule triple_bindP [OF triple_selectP [OF stable_const]], rule triple_option [OF triple_raiseP], rule triple_if [OF triple_raiseP])
  fix found and att :: attempt_row assume f: "found = Some att" and ws: "\<not> ax_worker_session_id att \<noteq> cq_worker_session_id payload"
  let ?rest = "\<lambda>found_task. case found_task of None \<Rightarrow> raiseP (api_error 500 ''INTERNAL_ERROR'' ''Associated task not found.'')
     | Some task \<Rightarrow> bindP clockP (\<lambda>now. bindP (report_outcome payload att task now)
         (\<lambda>_. returnP \<lparr>cb_attempt_id = cq_attempt_id payload\<rparr>))"
  have "triple (\<lambda>s. owned_attempt att s \<and> ax_id att = cq_attempt_id payload)
      (bindP (selectP (\<lambda>s. get_task s (ax_task_id att))) ?rest) (\<lambda>_. callback_recorded payload)"
    by (rule triple_bindP [OF triple_selectP], intro stables, rule triple_weaken [OF triple_report_task]) (use ws in auto)
  then show "triple (\<lambda>s. True \<and> reachable s \<and> found = get_attempt s (cq_attempt_id payload))
     (bindP (selectP (\<lambda>s. get_task s (ax_task_id att))) ?rest) (\<lambda>_. callback_recorded payload)"
    by (rule triple_weaken) (auto simp: f owned_attempt_def dest!: sym [of "Some att"] dest: get_attempt_someD)
qed


section \<open>Rejected callbacks\<close>

lemma clean_settle [clean]: "rejects_cleanly (settle_in_request msg tx)"
  unfolding settle_in_request_def by (intro clean)

lemma clean_report [clean]: "rejects_cleanly (report_outcome payload att task now)"
proof (cases "cq_payload payload")
  case (ActivitySuccess v)
  then show ?thesis
    unfolding report_outcome_def report_success_def
    by (simp, intro rejects_cleanly_after_read rejects_cleanly_before_rest clean)
next
  case (ActivityFailure error)
  then show ?thesis
    unfolding report_outcome_def report_failure_def Let_def split_beta
    by (simp, intro rejects_cleanly_after_read [of "selectP _"] rejects_cleanly_after_read [of uuidP] rejects_cleanly_before_rest clean)
next
  case (ActivityCancelAck observed)
  then show ?thesis
    unfolding report_outcome_def report_cancel_ack_def
    by (simp, intro rejects_cleanly_before_rest clean)
qed


section \<open>Polling\<close>

lemma hex_fixed_mod: "hex_fixed w (n mod 16 ^ w) = hex_fixed w n"
proof (induction w arbitrary: n)
  case (Suc w)
  have "n mod 16 ^ Suc w div 16 = n div 16 mod 16 ^ w" "n mod 16 ^ Suc w mod 16 = n mod 16"
    by (simp_all add: mod_mult2_eq)
  with Suc [of "n div 16"] show ?case by simp
qed simp

lemma uuid_parse_str_mod: "uuid_parse (uuid_str u) = Inr (u mod 2 ^ 128)"
  using unhyphenate [OF hex_fixed_no_hyphen [of 32 u]]
  by (simp add: uuid_parse_def uuid_str_def Let_def hex_number_fixed del: hex_fixed.simps filter_append)

text \<open>A parsed identifier is written as the one it came from.\<close>

lemma uuid_parse_same: "uuid_parse (uuid_str u) = Inr v \<Longrightarrow> uuid_str v = uuid_str u"
  using hex_fixed_mod [of 32 u] by (auto simp: uuid_parse_str_mod, simp add: uuid_str_def Let_def del: hex_fixed.simps)

text \<open>What an offered assignment refers to in the store.\<close>

definition offer_owned :: "worker_session_id \<Rightarrow> task_assignment_dto \<Rightarrow> db \<Rightarrow> bool" where
  "offer_owned session_id d s \<longleftrightarrow> (\<exists>a \<in> set (db_attempts s). \<exists>t \<in> set (db_tasks s).
     ax_task_id a = tx_id t \<and> ax_worker_session_id a = session_id \<and> tx_state t \<noteq> TS_PENDING \<and>
     uuid_str (ta_attempt_id d) = uuid_str (ax_id a) \<and> ta_attempt_ordinal d = ax_ordinal a \<and>
     uuid_str (ta_task_execution_id d) = uuid_str (tx_id t) \<and>
     uuid_str (ta_workflow_execution_id d) = uuid_str (tx_workflow_id t) \<and>
     uuid_str (ta_worker_session_id d) = uuid_str session_id \<and>
     (declared_activity s t (ta_activity_type d) \<or> ta_activity_type d = tx_task_definition_id t) \<and>
     ta_stable_input d = or_empty (column_value (tx_stable_input t)) \<and>
     ta_start_deadline_utc d = isoformat (ax_start_deadline_utc a))"

lemma mk_task_assignment_Inr: "mk_task_assignment a = Inr d \<Longrightarrow> d = a"
  by (simp add: mk_task_assignment_def split: if_splits)

lemma queued_owned:
  assumes "assignment_backed s sid p" and "queued_assignment p = Inr d"
  shows "offer_owned sid d s"
proof -
  from assms(1) obtain a t where a: "a \<in> set (db_attempts s)" and t: "t \<in> set (db_tasks s)"
    and f: "ax_task_id a = tx_id t" "ax_worker_session_id a = sid" "ap_attempt_id p = uuid_str (ax_id a)"
      "ap_attempt_ordinal p = ax_ordinal a" "ap_task_execution_id p = uuid_str (tx_id t)"
      "ap_workflow_execution_id p = uuid_str (tx_workflow_id t)" "ap_worker_session_id p = uuid_str sid"
      "declared_activity s t (ap_activity_type p)" "tx_state t \<noteq> TS_PENDING"
      "ap_stable_input p = or_empty (column_value (tx_stable_input t))"
      "ap_start_deadline_utc p = isoformat (ax_start_deadline_utc a)" unfolding assignment_backed_def by blast
  from assms(2) show ?thesis
    unfolding queued_assignment_def offer_owned_def
    by (elim bindE_InrE) (intro bexI [OF _ a] bexI [OF _ t], use f in \<open>simp add: uuid_parse_same mk_task_assignment_Inr [THEN sym]\<close>,
        auto dest!: mk_task_assignment_Inr simp: uuid_parse_same f)
qed


lemma stable_offer_owned: "stable (offer_owned sid d)"
  unfolding stable_def
proof (intro allI impI)
  fix s s' assume s: "reachable s" "db_steps s s'" and "offer_owned sid d s"
  then obtain a t where a: "a \<in> set (db_attempts s)" and t: "t \<in> set (db_tasks s)"
    and f: "ax_task_id a = tx_id t" "ax_worker_session_id a = sid" "tx_state t \<noteq> TS_PENDING"
     "uuid_str (ta_attempt_id d) = uuid_str (ax_id a)" "ta_attempt_ordinal d = ax_ordinal a"
     "uuid_str (ta_task_execution_id d) = uuid_str (tx_id t)"
     "uuid_str (ta_workflow_execution_id d) = uuid_str (tx_workflow_id t)"
     "uuid_str (ta_worker_session_id d) = uuid_str sid"
     "ta_stable_input d = or_empty (column_value (tx_stable_input t))"
     "ta_start_deadline_utc d = isoformat (ax_start_deadline_utc a)"
    and act: "declared_activity s t (ta_activity_type d) \<or> ta_activity_type d = tx_task_definition_id t"
    unfolding offer_owned_def by blast
  from attempt_survives [OF s a] obtain a' where a': "a' \<in> set (db_attempts s')" "ax_id a' = ax_id a"
    and ae: "attempt_rows.evolves a a'" by blast
  from task_survives [OF s t] obtain t' where t': "t' \<in> set (db_tasks s')" "tx_id t' = tx_id t"
    and te: "task_rows.evolves t t'" by blast
  note kept = attempt_evolves_kept [OF ae] task_evolves_kept [OF te]
  have "declared_activity s' t' (ta_activity_type d) \<or> ta_activity_type d = tx_task_definition_id t'"
    using act kept(2) runs_spec_later [OF s] unfolding declared_activity_def by metis
  then show "offer_owned sid d s'"
    unfolding offer_owned_def
    by (intro bexI [OF _ a'(1)] bexI [OF _ t'(1)]) (use f a'(2) t'(2) kept in \<open>simp add: attempt_kept_def\<close>)
qed

text \<open>A delivery on its way: an attempt of the session as it was read.\<close>

definition claimed_for :: "worker_session_id \<Rightarrow> attempt_row \<Rightarrow> db \<Rightarrow> bool" where
  "claimed_for sid att s \<longleftrightarrow> ax_worker_session_id att = sid \<and> (\<exists>a \<in> set (db_attempts s). ax_id a = ax_id att \<and> attempt_kept att a)"

lemma stable_claimed_for [stables]: "stable (claimed_for sid att)"
  unfolding stable_def claimed_for_def
proof (intro allI impI conjI)
  fix s s' assume s: "reachable s" "db_steps s s'"
    and c: "ax_worker_session_id att = sid \<and> (\<exists>a \<in> set (db_attempts s). ax_id a = ax_id att \<and> attempt_kept att a)"
  then obtain a where a: "a \<in> set (db_attempts s)" "ax_id a = ax_id att" "attempt_kept att a" by blast
  from attempt_survives [OF s a(1)] obtain b where b: "b \<in> set (db_attempts s')" "attempt_rows.evolves a b" "ax_id b = ax_id a" by blast
  from attempt_evolves_kept [OF b(2)] a(2,3) b(1,3) show "\<exists>a \<in> set (db_attempts s'). ax_id a = ax_id att \<and> attempt_kept att a"
    by (auto simp: attempt_kept_def)
qed simp

lemma durable_owned:
  assumes "reachable s" and "claimed_for sid att s" and "get_task s (ax_task_id att) = Some t" and "durable_assignment sid att t = Inr d"
  shows "offer_owned sid d s"
proof -
  obtain a where a: "a \<in> set (db_attempts s)" "attempt_kept att a" "ax_id a = ax_id att" and sid: "ax_worker_session_id att = sid"
    using assms(2) unfolding claimed_for_def by blast
  have t: "t \<in> set (db_tasks s)" "tx_id t = ax_task_id att" using get_task_someD [OF assms(3)] by simp_all
  note inv = reachable_lifecycle [OF assms(1)]
  obtain t' where t': "t' \<in> set (db_tasks s)" "tx_id t' = ax_task_id a" "ax_ordinal a < tx_next_attempt_ordinal t'"
    using inv a(1) unfolding lifecycle_ok_def attempts_inv_def by blast
  have "t' = t" using get_task_mem [OF lifecycle_db_ok [OF inv] t'(1)] t'(2) a(2) assms(3) by (simp add: attempt_kept_def)
  moreover have "1 \<le> ax_ordinal a"
    using lifecycle_db_ok [OF inv] a(1) by (auto simp: db_ok_def list_all_iff attempt_row_ok_def)
  ultimately have "tx_state t \<noteq> TS_PENDING" using t'(3) lifecycle_task_inv [OF inv t(1)] by (auto simp: task_inv_def)
  moreover have "d = \<lparr>ta_attempt_id = ax_id att, ta_attempt_ordinal = ax_ordinal att,
        ta_task_execution_id = ax_task_id att, ta_workflow_execution_id = tx_workflow_id t,
        ta_worker_session_id = sid, ta_activity_type = tx_task_definition_id t,
        ta_stable_input = or_empty (column_value (tx_stable_input t)),
        ta_start_deadline_utc = isoformat (ax_start_deadline_utc att)\<rparr>"
    using assms(4) unfolding durable_assignment_def by (rule mk_task_assignment_Inr)
  ultimately show ?thesis
    unfolding offer_owned_def
    by (intro bexI [OF _ a(1)] bexI [OF _ t(1)]) (use a(2,3) t(2) sid in \<open>simp add: attempt_kept_def\<close>)
qed

lemma claimed_attempt_in: "claimed_attempt_of_session sid s = Some a \<Longrightarrow> claimed_for sid a s"
proof -
  assume c: "claimed_attempt_of_session sid s = Some a"
  then obtain as where "sort_key ax_created_at_utc (filter (\<lambda>a. ax_worker_session_id a = sid \<and> ax_state a = AS_CLAIMED) (db_attempts s)) = a # as"
    unfolding claimed_attempt_of_session_def by (auto split: list.splits)
  from arg_cong [OF this, of set] have "a \<in> set (db_attempts s)" "ax_worker_session_id a = sid" by auto
  then show ?thesis by (auto simp: claimed_for_def attempt_kept_def)
qed


lemma triple_lift_assignment:
  assumes "\<And>s d. P s \<Longrightarrow> m = Inr d \<Longrightarrow> offer_owned sid d s"
  shows "triple P (bindP (liftP (embedE m)) (\<lambda>a. returnP (PollAssignment a)))
     (\<lambda>r s. \<forall>d. r = PollAssignment d \<longrightarrow> offer_owned sid d s)"
  by (rule triple_bindP [OF triple_liftP], rule triple_weaken [OF triple_returnP]) (use assms in auto)

lemma triple_poll_durable:
  "triple (\<lambda>_. True) (poll_durable sid) (\<lambda>r s. \<forall>d. r = PollAssignment d \<longrightarrow> offer_owned sid d s)"
  unfolding poll_durable_def
proof (rule triple_bindP [OF triple_selectP [OF stable_const]], rule triple_option)
  fix att and row :: attempt_row assume att: "att = Some row"
  show "triple (\<lambda>s. True \<and> reachable s \<and> att = claimed_attempt_of_session sid s)
     (bindP (selectP (\<lambda>s. get_task s (ax_task_id row))) (\<lambda>task. case task of None \<Rightarrow> returnP PollNoWork
       | Some task_row \<Rightarrow> bindP (liftP (embedE (durable_assignment sid row task_row))) (\<lambda>a. returnP (PollAssignment a))))
     (\<lambda>r s. \<forall>d. r = PollAssignment d \<longrightarrow> offer_owned sid d s)"
  proof (rule triple_weaken [of "claimed_for sid row"], rule triple_bindP [OF triple_selectP [OF stable_claimed_for]], rule triple_option)
    fix task and t :: task_row assume "task = Some t"
    then show "triple (\<lambda>s. claimed_for sid row s \<and> reachable s \<and> task = get_task s (ax_task_id row))
       (bindP (liftP (embedE (durable_assignment sid row t))) (\<lambda>a. returnP (PollAssignment a)))
       (\<lambda>r s. \<forall>d. r = PollAssignment d \<longrightarrow> offer_owned sid d s)"
      by (intro triple_lift_assignment) (auto dest!: sym [of "Some t"] intro: durable_owned)
  qed (auto simp: att dest!: sym [of "Some row"] claimed_attempt_in intro: triple_weaken [OF triple_returnP])
qed (rule triple_weaken [OF triple_returnP], simp)

lemma poll_delivery_backed:
  assumes "backed s rg" and "poll_delivery sid rg = (item, rg')"
  shows "backed s rg' \<and> (\<forall>p. item = Some (Assignment p) \<longrightarrow> assignment_backed s sid p)"
  using assms by (fastforce simp: poll_delivery_def backed_def split: option.splits list.splits if_splits)

lemma triple_poll_work:
  "triple (\<lambda>_. True) (poll_work payload) (\<lambda>r s. \<forall>d. r = PollAssignment d \<longrightarrow> offer_owned (pq_worker_session_id payload) d s)"
proof -
  let ?sid = "pq_worker_session_id payload" and ?Q = "\<lambda>r s. \<forall>d. r = PollAssignment d \<longrightarrow> offer_owned (pq_worker_session_id payload) d s"
  have snap: "neutral (registryP (\<lambda>rg. (get_snapshot ?sid m rg, rg)))" for m by (rule neutral_registryP) simp
  have queue: "triple (\<lambda>_. True) (registryP (poll_delivery ?sid)) (\<lambda>item s. \<forall>p. item = Some (Assignment p) \<longrightarrow> assignment_backed s ?sid p)"
    by (rule triple_registryP [OF stable_const]) (rule poll_delivery_backed)
  have item: "triple (\<lambda>s. \<forall>p. item = Some (Assignment p) \<longrightarrow> assignment_backed s ?sid p) (case item of
          Some (Assignment asgn) \<Rightarrow> bindP (liftP (embedE (queued_assignment asgn))) (\<lambda>a. returnP (PollAssignment a))
        | Some (CancelCommand canc) \<Rightarrow> bindP (liftP (embedE (queued_cancellation canc))) (\<lambda>c. returnP (PollCancelCommand c))
        | None \<Rightarrow> poll_durable ?sid) ?Q" for item
  proof (cases item)
    case None
    then show ?thesis using triple_weaken [OF triple_poll_durable] by simp
  next
    case (Some d)
    show ?thesis
    proof (cases d)
      case (Assignment p)
      show ?thesis unfolding Some Assignment option.case delivery.case
        by (rule triple_lift_assignment) (use queued_owned in blast)
    next
      case (CancelCommand c)
      show ?thesis unfolding Some CancelCommand option.case delivery.case
        by (rule triple_bindP [OF triple_liftP]) (rule triple_weaken [OF triple_returnP], simp)
    qed
  qed
  show ?thesis
    unfolding poll_work_def Let_def
    by (rule triple_bindP [OF triple_draws(2)], rule triple_bindP [OF neutral_triple [OF snap stable_const]],
        rule triple_if [OF triple_raiseP], rule triple_bindP [OF queue item])
qed

text \<open>
  C13. A poll never invents work: an assignment it hands out, from the session's queue or from the
  durable fallback, is an attempt recorded in the store for that session, with its ordinal, task,
  workflow, start deadline and the input stored for the task. Its activity is the one the stored
  definition declares, or, from the fallback, the identifier of the task definition.
\<close>

theorem poll_hands_out_owned_work:
  assumes "others_deliver E" and "reachable (w_db w)" and "backed (w_db w) (w_registry w)"
    and "poll_work payload E w = (Inr (PollAssignment d), w')"
  shows "offer_owned (pq_worker_session_id payload) d (w_db w')"
  using tripleD(2) [OF triple_poll_work assms(1), of w payload "PollAssignment d"] assms(2-4) by (simp add: good_def)


section \<open>A run of each\<close>

text \<open>The sample attempt reports its result, is refused a cancellation, and is polled for before it starts.\<close>

definition sample_callback :: "worker_callback_outcome \<Rightarrow> worker_callback_request" where
  "sample_callback outcome = \<lparr>cq_attempt_id = 21, cq_worker_session_id = 31, cq_payload = outcome\<rparr>"

definition polled_world :: world where
  "polled_world = (idle_world db_claimed)\<lparr>w_registry :=
     snd (register_worker 31 0 0 ''worker'' [ActivityType ''act''] True (new_registry 15000000))\<rparr>"

lemma pair_fst: "fst p = x \<Longrightarrow> p = (x, snd p)"
  by auto

lemma idle_delivers: "others_deliver idle_environment"
  using quiet_idle quiet_others_transact [OF quiet_idle] by (simp add: others_deliver_def quiet_def)

lemma idle_backed: "backed s (new_registry n)"
  by (simp add: backed_def new_registry_def)



definition sample_poll :: worker_poll_request where
  "sample_poll = \<lparr>pq_worker_session_id = 31, pq_accepting_new_work = True, pq_max_items = 1, pq_timeout = 20000000\<rparr>"

definition sample_offer :: task_assignment_dto where
  "sample_offer = \<lparr>ta_attempt_id = 21, ta_attempt_ordinal = 1, ta_task_execution_id = 11, ta_workflow_execution_id = 2,
     ta_worker_session_id = 31, ta_activity_type = ''a'', ta_stable_input = PyDict [(PyStr ''l'', PyList [PyInt 1])],
     ta_start_deadline_utc = ''1970-01-01T00:00:00.000100+00:00''\<rparr>"

lemma reachable_polled: "reachable (w_db polled_world)" "backed (w_db polled_world) (w_registry polled_world)"
  using reachable_claimed
  by (auto simp: polled_world_def idle_world_def register_worker_def new_registry_def backed_def Let_def split: if_splits)

lemma sample_poll_run:
  "poll_work sample_poll idle_environment polled_world = (Inr (PollAssignment sample_offer), polled_world\<lparr>w_events := 5\<rparr>)"
proof -
  let ?a = "sample_attempt 21 11 AS_CLAIMED 1 5 5" and ?t = "row_a TS_RUNNING 3 None 2 5"
  have e: "claimed_attempt_of_session 31 db_claimed = Some ?a" "get_task db_claimed 11 = Some ?t"
    "durable_assignment 31 ?a ?t = Inr sample_offer" "ax_task_id ?a = 11" by code_simp+
  have rg: "\<not> (case get_snapshot 31 0 (w_registry polled_world) of None \<Rightarrow> True | Some sn \<Rightarrow> \<not> sn_live sn)"
    "poll_delivery 31 (w_registry polled_world) = (None, w_registry polled_world)"
    by (auto simp: polled_world_def register_worker_def new_registry_def get_snapshot_def snapshot_of_def record_live_def poll_delivery_def Let_def)
  have w: "w_db polled_world = db_claimed" "w_events polled_world = 0" "env_monotonic idle_environment n = 0" for n
    by (simp_all add: polled_world_def idle_world_def idle_environment_def)
  show ?thesis
    by (auto simp: poll_work_def poll_durable_def sample_poll_def bindP_def monotonicP_def registryP_def selectP_def liftP_def
        returnP_def await_quiet [OF quiet_idle] e rg w Let_def)
qed

lemma sample_poll_session: "pq_worker_session_id sample_poll = 31"
  by (simp add: sample_poll_def)

theorem poll_hands_out_owned_work_witness: "offer_owned 31 sample_offer db_claimed"
  using poll_hands_out_owned_work [OF idle_delivers reachable_polled sample_poll_run]
  by (simp add: sample_poll_session, simp add: polled_world_def idle_world_def)

end
