(* ===== verification/Execution_Protocol.thy ===== *)
theory Execution_Protocol
  imports Execution_Routes Worker_Protocol
begin

text \<open>
  What the public protocol promises (\<open>interfaces/http/routes/executions.py\<close>,
  \<open>definitions.py\<close>): an accepted start is a complete execution, an accepted cancellation
  is durable, and a refused request has changed nothing.
\<close>

section \<open>An execution that has begun\<close>

text \<open>It left \<open>INITIALIZING\<close> with a task row for every task of its stored definition.\<close>

definition started :: "workflow_execution_id \<Rightarrow> definition_id \<Rightarrow> db \<Rightarrow> bool" where
  "started wid d s \<longleftrightarrow> (\<exists>w. get_workflow s wid = Some w \<and> wx_definition_id w = d \<and> wx_state w \<noteq> WF_INITIALIZING \<and>
     get_definition s d \<noteq> None \<and> covers s w)"

lemma covers_later:
  assumes "reachable s" and "db_steps s s'" and "covers s w" and "get_definition s (wx_definition_id w) = Some r"
    and "wx_id w' = wx_id w" and "wx_definition_id w' = wx_definition_id w"
  shows "covers s' w'"
  unfolding covers_def
proof (intro allI impI)
  fix name assume d: "declared_task s' (wx_definition_id w') name"
  obtain new where "db_definitions s' = db_definitions s @ new"
    using db_steps_evolves [OF assms(2) reachable_lifecycle [OF assms(1)]] by (auto simp: db_evolves_def)
  from get_definition_append_keeps [OF this assms(4)] have "get_definition s' (wx_definition_id w) = Some r" .
  with d assms(4,6) have "declared_task s (wx_definition_id w) name" by (simp add: declared_task_def)
  with assms(3) have "(wx_id w, name) \<in> set (map task_key (db_tasks s))" by (simp add: covers_def)
  then obtain t where t: "t \<in> set (db_tasks s)" "task_key t = (wx_id w, name)" by auto
  from task_survives [OF assms(1,2) t(1)] obtain t' where t': "t' \<in> set (db_tasks s')" "task_rows.evolves t t'" by blast
  from task_evolves_kept [OF t'(2)] t(2) have "task_key t' = (wx_id w', name)" by (simp add: task_key_def assms(5))
  with t'(1) show "(wx_id w', name) \<in> set (map task_key (db_tasks s'))" by force
qed

lemma stable_started [stables]: "stable (started wid d)"
  unfolding stable_def
proof (intro allI impI)
  fix s s' assume s: "reachable s" "db_steps s s'" and "started wid d s"
  then obtain w r where w: "get_workflow s wid = Some w" "wx_definition_id w = d" "wx_state w \<noteq> WF_INITIALIZING" "covers s w"
    and r: "get_definition s d = Some r" by (auto simp: started_def)
  obtain w' where w': "get_workflow s' wid = Some w'" "wf_rows.evolves w w'" "wx_definition_id w' = wx_definition_id w"
    by (rule workflow_survives [OF s w(1)])
  obtain new where "db_definitions s' = db_definitions s @ new"
    using db_steps_evolves [OF s(2) reachable_lifecycle [OF s(1)]] by (auto simp: db_evolves_def)
  from get_definition_append_keeps [OF this r] have "get_definition s' d \<noteq> None" by simp
  moreover have "wx_state w' \<noteq> WF_INITIALIZING" using never_initializing_again [OF wf_rows.evolves_state [OF w'(2)]] w(3) by simp
  moreover have "covers s' w'"
    by (rule covers_later [OF s w(4), of r]) (use r w(2) wf_rows.evolves_key [OF w'(2)] w'(3) in simp_all)
  ultimately show "started wid d s'" using w' w(2) unfolding started_def by blast
qed

text \<open>The row of an update whose condition it meets.\<close>

lemma get_updated_workflow:
  assumes "db_ok s" and u: "update_workflows P f s = Inr (s', n)" and "get_workflow s wid = Some w" and "P w"
    and keep: "\<And>r. wx_id (f r) = wx_id r"
  shows "get_workflow s' wid = Some (f w)"
proof -
  have s': "s' = s\<lparr>db_workflows := update_rows P f (db_workflows s)\<rparr>" using u by (simp only: db_stmt)
  have w: "w \<in> set (db_workflows s)" "wx_id w = wid" using get_workflow_SomeD [OF assms(3)] by auto
  have "f w \<in> set (db_workflows s')" using mem_update_rowsI [of w _ P f] w assms(4) by (simp add: s')
  moreover have "distinct (map wx_id (db_workflows s'))"
    using assms(1) map_key_update_rows [of P wx_id f "db_workflows s"] keep by (simp add: s' db_ok_def)
  ultimately show ?thesis
    unfolding get_workflow_def using find_key [of wx_id "db_workflows s'" "f w"] w(2) keep by simp
qed

text \<open>The start commits only when the rows are exactly the declared tasks.\<close>

lemma initialized_started:
  assumes "db_ok s" and "commit_initialization_complete hid wid rv now s = Inr (s', out)" and "co_status out = COMMITTED"
    and "get_workflow s wid = Some w"
  shows "started wid (wx_definition_id w) s'"
proof -
  define P :: "workflow_row \<Rightarrow> bool" where "P = (\<lambda>r. wx_id r = wid \<and> wx_state r = WF_INITIALIZING \<and> wx_revision r = rv)"
  define f :: "workflow_row \<Rightarrow> workflow_row" where
    "f = (\<lambda>r. r\<lparr>wx_state := WF_RUNNING, wx_revision := wx_revision r + 1, wx_updated_at_utc := now\<rparr>)"
  from assms(2-4) obtain d doc ids s1 n where
    st: "wx_state w = WF_INITIALIZING" "wx_revision w = rv" and d: "get_definition s (wx_definition_id w) = Some d"
    "dr_validated_iws d = Some doc" "document_task_ids doc = Inr ids"
    and ids: "set ids = set (map tx_task_definition_id (tasks_of s wid))"
    and u: "update_workflows P f s = Inr (s1, n)"
    and h: "db_definitions s' = db_definitions s1" "db_workflows s' = db_workflows s1" "db_tasks s' = db_tasks s1"
    unfolding commit_initialization_complete_def P_def f_def Let_def
    by (elim run_elims; (simp add: outcome_defs; fail)?) (auto simp: insert_history_Inr outcome_defs)
  have s1: "s1 = s\<lparr>db_workflows := update_rows P f (db_workflows s)\<rparr>" using u by (simp only: db_stmt)
  have w: "w \<in> set (db_workflows s)" "wx_id w = wid" using get_workflow_SomeD [OF assms(4)] by auto
  have "get_workflow s1 wid = Some (f w)"
    by (rule get_updated_workflow [OF assms(1) u assms(4)]) (use w st in \<open>simp_all add: P_def f_def\<close>)
  then have "get_workflow s' wid = Some (f w)" by (simp add: get_workflow_def h)
  moreover have defs: "get_definition s' = get_definition s" by (rule ext) (simp add: get_definition_def h s1)
  moreover have "covers s' (f w)"
    unfolding covers_def
  proof (intro allI impI)
    fix name assume "declared_task s' (wx_definition_id (f w)) name"
    then have "name \<in> set ids" using d by (auto simp: declared_task_def defs f_def)
    with ids show "(wx_id (f w), name) \<in> set (map task_key (db_tasks s'))"
      by (auto simp: h s1 tasks_of_def task_key_def f_def w(2))
  qed
  ultimately show ?thesis using d(1) unfolding started_def by (intro exI [of _ "f w"]) (simp add: f_def)
qed

section \<open>Reasoning in one environment\<close>

text \<open>
  The identifiers a coroutine draws are fresh only with respect to its own environment, so the
  rules are needed for a fixed one, with facts that its other coroutines keep.
\<close>

definition env_stable :: "environment \<Rightarrow> (db \<Rightarrow> bool) \<Rightarrow> bool" where
  "env_stable E P \<longleftrightarrow> (\<forall>n s. reachable s \<longrightarrow> P s \<longrightarrow> P (env_db E n s))"

definition env_triple :: "environment \<Rightarrow> (db \<Rightarrow> bool) \<Rightarrow> ('e, 'a) proc_raising \<Rightarrow> ('a \<Rightarrow> db \<Rightarrow> bool) \<Rightarrow> bool" where
  "env_triple E P m Q \<longleftrightarrow> (\<forall>w. good w \<longrightarrow> P (w_db w) \<longrightarrow>
     good (snd (m E w)) \<and> (\<forall>x. fst (m E w) = Inr x \<longrightarrow> Q x (w_db (snd (m E w)))))"

lemma env_triple_of: "triple P m Q \<Longrightarrow> others_deliver E \<Longrightarrow> env_triple E P m Q"
  unfolding env_triple_def by (intro allI impI conjI) (rule tripleD(1), assumption+, rule tripleD(2), assumption+)

lemma env_stable_of: "stable P \<Longrightarrow> others_deliver E \<Longrightarrow> env_stable E P"
  unfolding stable_def env_stable_def others_deliver_def others_transact_def by blast

lemma env_stable_conj: "env_stable E P \<Longrightarrow> env_stable E Q \<Longrightarrow> env_stable E (\<lambda>s. P s \<and> Q s)"
  by (simp add: env_stable_def)

lemma env_weaken: "env_triple E P m Q \<Longrightarrow> (\<And>s. P' s \<Longrightarrow> P s) \<Longrightarrow> env_triple E P' m Q"
  by (simp add: env_triple_def)

lemma env_post: "env_triple E P m Q \<Longrightarrow> (\<And>x s. Q x s \<Longrightarrow> Q' x s) \<Longrightarrow> env_triple E P m Q'"
  by (simp add: env_triple_def)

lemma env_bindP:
  assumes "env_triple E P m Q" and "\<And>x. env_triple E (Q x) (k x) R"
  shows "env_triple E P (bindP m k) R"
  unfolding env_triple_def
proof (intro allI impI)
  fix w assume w: "good w" "P (w_db w)"
  obtain x w' where m: "m E w = (x, w')" by (cases "m E w")
  have g: "good w'" and q: "\<And>y. x = Inr y \<Longrightarrow> Q y (w_db w')"
    using assms(1) [unfolded env_triple_def, rule_format, OF w] m by simp_all
  show "good (snd (bindP m k E w)) \<and> (\<forall>x. fst (bindP m k E w) = Inr x \<longrightarrow> R x (w_db (snd (bindP m k E w))))"
  proof (cases x)
    case (Inr y)
    with assms(2) g q show ?thesis unfolding env_triple_def by (simp add: bindP_def m)
  qed (use g m in \<open>simp add: bindP_def\<close>)
qed

lemma env_await:
  assumes "others_deliver E" and "good w" and "env_stable E P" and "P (w_db w)"
  shows "good (await_others E w)" and "P (w_db (await_others E w))"
  using good_await(1) [OF assms(1,2) stable_const [of True]] assms(2-4)
  by (simp_all add: env_stable_def good_def await_others_def)

lemma env_selectP: "others_deliver E \<Longrightarrow> env_stable E P \<Longrightarrow> env_triple E P (selectP q) (\<lambda>x s. P s \<and> reachable s \<and> x = q s)"
  unfolding env_triple_def using env_await [of E _ P] by (auto simp: selectP_def Let_def good_def)

lemma env_draws:
  "env_triple E P clockP (\<lambda>_. P)" "env_triple E P uuidP (\<lambda>x s. P s \<and> (\<exists>n. x = env_uuid E n))"
  by (auto simp: env_triple_def clockP_def uuidP_def good_def)

lemma env_transactP:
  assumes "others_deliver E" and "env_stable E P"
    and tx: "\<And>s s' x. reachable s \<Longrightarrow> P s \<Longrightarrow> tx s = Inr (s', x) \<Longrightarrow> db_steps s s' \<and> Q x s'"
  shows "env_triple E P (transactP tx) Q"
  unfolding env_triple_def
proof (intro allI impI)
  fix w assume w: "good w" "P (w_db w)"
  note aw = env_await [OF assms(1) w(1) assms(2) w(2)]
  show "good (snd (transactP tx E w)) \<and> (\<forall>x. fst (transactP tx E w) = Inr x \<longrightarrow> Q x (w_db (snd (transactP tx E w))))"
  proof (cases "tx (w_db (await_others E w))")
    case (Inr r)
    obtain s' x where r: "r = (s', x)" by (cases r)
    with Inr aw tx [of "w_db (await_others E w)" s' x]
    have st: "db_steps (w_db (await_others E w)) s'" "Q x s'" by (auto simp: good_def)
    moreover from st(1) aw(1) have "reachable s'" "backed s' (w_registry (await_others E w))"
      unfolding good_def using reachable_steps backed_later by blast+
    ultimately show ?thesis using Inr r by (simp add: transactP_def good_def)
  qed (use aw in \<open>simp add: transactP_def\<close>)
qed

lemma env_option:
  "env_triple E P m Q \<Longrightarrow> (\<And>x. y = Some x \<Longrightarrow> env_triple E P (k x) Q) \<Longrightarrow> env_triple E P (case y of None \<Rightarrow> m | Some x \<Rightarrow> k x) Q"
  by (cases y) simp_all

lemma env_raiseP: "env_triple E P (raiseP e) Q"
  by (simp add: env_triple_def raiseP_def)

lemma env_liftP: "env_triple E P (liftP m) (\<lambda>x s. m = Inr x \<and> P s)"
  by (simp add: env_triple_def liftP_def)

lemma env_if: "(c \<Longrightarrow> env_triple E P m Q) \<Longrightarrow> (\<not> c \<Longrightarrow> env_triple E P m' Q) \<Longrightarrow> env_triple E P (if c then m else m') Q"
  by simp

lemma env_assume: "(c \<Longrightarrow> env_triple E P m Q) \<Longrightarrow> env_triple E (\<lambda>s. c \<and> P s) m Q"
  by (auto simp: env_triple_def)

text \<open>No identifier the environment will draw is recorded as the resource of an idempotency key.\<close>

definition unclaimed :: "environment \<Rightarrow> db \<Rightarrow> bool" where
  "unclaimed E s \<longleftrightarrow> (\<forall>n. env_uuid E n \<notin> set (map ix_resource_id (db_idempotency s)))"

definition others_draw_fresh :: "environment \<Rightarrow> bool" where
  "others_draw_fresh E \<longleftrightarrow> env_stable E (unclaimed E)"

section \<open>Starting an execution\<close>

lemma claim_key_effect:
  assumes "claim_idempotency_key op key fp res now s = Inr (sc, early)"
  shows "db_workflows sc = db_workflows s \<and> (\<forall>out r. early = Some (out, r) \<longrightarrow> key \<noteq> None \<and>
     (co_status out \<noteq> PRECONDITION_FAILED \<longrightarrow> co_status out = COMMITTED \<and> r \<in> set (map ix_resource_id (db_idempotency s))))"
proof -
  have ins: "db_workflows s' = db_workflows s \<and> (n = 0 \<longrightarrow> s' = s)" if "insert_idempotency_or_ignore r s = Inr (s', n)" for r s' n
    using that unfolding insert_idempotency_or_ignore_def by (auto simp: bindE_eq_Inr split: if_splits)
  from assms show ?thesis
    unfolding claim_idempotency_key_def by (elim run_elims) (auto simp: outcome_defs dest!: ins find_SomeD)
qed

lemma get_new_workflow:
  "wx_id r \<notin> set (map wx_id (db_workflows s)) \<Longrightarrow> db_workflows s' = db_workflows s @ [r] \<Longrightarrow> get_workflow s' (wx_id r) = Some r"
proof -
  have "find P (xs @ [r]) = Some r" if "\<And>x. x \<in> set xs \<Longrightarrow> \<not> P x" "P r" for P and xs :: "workflow_row list"
    using that by (induction xs) auto
  then show "wx_id r \<notin> set (map wx_id (db_workflows s)) \<Longrightarrow> db_workflows s' = db_workflows s @ [r] \<Longrightarrow> get_workflow s' (wx_id r) = Some r"
    unfolding get_workflow_def by (metis (mono_tags) image_eqI set_map)
qed

lemma creation_effect:
  assumes "commit_workflow_creation hid e key fp now s = Inr (s1, out, i)" and "co_status out \<noteq> PRECONDITION_FAILED"
  shows "co_status out = COMMITTED \<and> (i \<noteq> we_id e \<longrightarrow> key \<noteq> None \<and> db_workflows s1 = db_workflows s) \<and>
     (i = we_id e \<longrightarrow> i \<notin> set (map ix_resource_id (db_idempotency s)) \<longrightarrow> has_definition i (we_definition_id e) s1)"
proof -
  obtain sc early where c: "claim_idempotency_key ''START_EXECUTION'' key fp (we_id e) now s = Inr (sc, early)"
    and rest: "(case early of Some (outcome, resource) \<Rightarrow> Inr (sc, outcome, resource)
        | None \<Rightarrow>
            bindE (thaw_json (we_workflow_input e)) (\<lambda>input.
            bindE (insert_workflow
                     \<lparr>wx_id = we_id e, wx_definition_id = we_definition_id e,
                      wx_state = WF_INITIALIZING, wx_revision = 1, wx_input = jsonb input,
                      wx_has_output = False, wx_output = None, wx_failure = no_failure,
                      wx_created_at_utc = now, wx_updated_at_utc = now\<rparr> sc) (\<lambda>s2.
            bindE (insert_history (mk_history hid (we_id e) None None ''WorkflowExecutionCreated''
                     [(''definition_id'', PyStr (uuid_str (we_definition_id e)))] now) s2)
              (\<lambda>s3. Inr (s3, committed, we_id e))))) = Inr (s1, out, i)"
    using assms(1) unfolding commit_workflow_creation_def by (auto simp: bindE_eq_Inr)
  note ce = claim_key_effect [OF c]
  show ?thesis
  proof (cases early)
    case (Some x)
    with rest obtain outcome resource where "x = (outcome, resource)" "s1 = sc" "out = outcome" "i = resource" by (cases x) auto
    with ce Some assms(2) have "co_status out = COMMITTED" "key \<noteq> None" "i \<in> set (map ix_resource_id (db_idempotency s))" "db_workflows s1 = db_workflows s" by blast+
    then show ?thesis by blast
  next
    case None
    with rest obtain inp s2 where ins: "insert_workflow
                     \<lparr>wx_id = we_id e, wx_definition_id = we_definition_id e,
                      wx_state = WF_INITIALIZING, wx_revision = 1, wx_input = jsonb inp,
                      wx_has_output = False, wx_output = None, wx_failure = no_failure,
                      wx_created_at_utc = now, wx_updated_at_utc = now\<rparr> sc = Inr s2"
      and h: "db_workflows s1 = db_workflows s2" "co_status out = COMMITTED" and i: "i = we_id e"
      by (auto simp: bindE_eq_Inr insert_history_Inr outcome_defs)
    from ins h have "get_workflow s1 i = Some \<lparr>wx_id = we_id e, wx_definition_id = we_definition_id e,
                      wx_state = WF_INITIALIZING, wx_revision = 1, wx_input = jsonb inp,
                      wx_has_output = False, wx_output = None, wx_failure = no_failure,
                      wx_created_at_utc = now, wx_updated_at_utc = now\<rparr>"
      unfolding insert_workflow_Inr i
      by (intro get_new_workflow [of "\<lparr>wx_id = we_id e, wx_definition_id = we_definition_id e,
                      wx_state = WF_INITIALIZING, wx_revision = 1, wx_input = jsonb inp,
                      wx_has_output = False, wx_output = None, wx_failure = no_failure,
                      wx_created_at_utc = now, wx_updated_at_utc = now\<rparr>" sc s1, simplified]) auto
    with i h(2) show ?thesis by (simp add: has_definition_def)
  qed
qed

text \<open>A task of the specification read back is a task the stored document declares.\<close>

lemma deserialized_declared:
  assumes "reachable s" and "get_definition s d = Some r" and "deserialize_validated_spec (column_value (dr_validated_iws r)) = Inr spec"
    and "(t, td) \<in> set (vs_tasks spec)"
  shows "declared_task s d (tdid_value (td_id td))"
proof -
  have "r \<in> set (db_definitions s)" using get_definition_SomeD [OF assms(2)] by simp
  with documents_reachable [OF assms(1)] obtain sp where sp: "spec_ok sp" "vs_workflow_name sp \<noteq> []"
    "dr_validated_iws r = Some (spec_json sp)" unfolding documents_ok_def by blast
  with assms(3) deserialize_serialize(2) [OF sp(1,2)] have spec: "spec = canon_spec sp" by (simp add: column_value_def)
  have "td_id td = t"
    using deserialize_fail_closed(1) [OF assms(3)] assms(4) by (auto simp: spec_ok_def)
  moreover have "t \<in> set (dict_keys (vs_tasks sp))"
  proof -
    have "t \<in> set (dict_keys (vs_tasks spec))" using assms(4) by force
    then show ?thesis unfolding spec canon_tasks_keys by simp
  qed
  ultimately show ?thesis
    using assms(2) sp(3) by (auto simp: declared_task_def document_task_ids_spec)
qed


text \<open>The promise of the transaction: an execution recorded before, or a new one that has begun.\<close>

definition start_promise ::
  "idempotency_key option \<Rightarrow> definition_id \<Rightarrow> workflow_execution_id \<times> workflow_row option \<Rightarrow> db \<Rightarrow> bool" where
  "start_promise key d r s = (case snd r of
       Some existing \<Rightarrow> key \<noteq> None \<and> has_definition (wx_id existing) (wx_definition_id existing) s
     | None \<Rightarrow> started (fst r) d s)"

definition tasks_declared :: "definition_id \<Rightarrow> (task_execution_id \<times> task_definition) list \<Rightarrow> db \<Rightarrow> bool" where
  "tasks_declared d tds s \<longleftrightarrow> (\<forall>(i, td) \<in> set tds. declared_task s d (tdid_value (td_id td)))"

lemma declared_task_later: "reachable s \<Longrightarrow> db_steps s s' \<Longrightarrow> declared_task s d name \<Longrightarrow> declared_task s' d name"
  using db_steps_evolves reachable_lifecycle declared_task_append unfolding db_evolves_def by metis

lemma stable_tasks_declared [stables]: "stable (tasks_declared d tds)"
  unfolding stable_def tasks_declared_def using declared_task_later by fast

text \<open>Population goes on only with the workflow just created.\<close>

lemma start_new_workflow:
  assumes "commit_task_population hid i tds now s1 = Inr (s2, pop)" and "co_status pop = COMMITTED"
    and "(if co_status out = COMMITTED \<and> i \<noteq> we_id e then get_workflow s1 i else None) = None"
    and ce: "co_status out = COMMITTED \<and> (i \<noteq> we_id e \<longrightarrow> key \<noteq> None \<and> db_workflows s1 = db_workflows s) \<and>
     (i = we_id e \<longrightarrow> i \<notin> set (map ix_resource_id (db_idempotency s)) \<longrightarrow> has_definition i (we_definition_id e) s1)"
    and "we_id e \<notin> set (map ix_resource_id (db_idempotency s))"
  shows "\<exists>w. get_workflow s1 i = Some w \<and> wx_definition_id w = we_definition_id e"
proof -
  have "get_workflow s1 i \<noteq> None"
    using assms(1,2) by (auto simp: commit_task_population_def Let_def workflow_state_of_def outcome_defs split: if_splits)
  with assms(3) ce have "i = we_id e" by (auto split: if_splits)
  with ce assms(5) show ?thesis by (simp add: has_definition_def)
qed

lemma start_in_request_promise:
  assumes r0: "reachable s" and "we_id e \<notin> set (map ix_resource_id (db_idempotency s))"
    and decl: "tasks_declared (we_definition_id e) tds s" and "start_in_request h1 h2 h3 e key fp tds now s = Inr (s', r)"
  shows "db_steps s s' \<and> start_promise key (we_definition_id e) r s'"
proof -
  obtain s1 out i where c: "commit_workflow_creation h1 e key fp now s = Inr (s1, out, i)" "co_status out \<noteq> PRECONDITION_FAILED"
    and rest: "(case (if co_status out = COMMITTED \<and> i \<noteq> we_id e then get_workflow s1 i else None) of
        Some existing_wf \<Rightarrow> Inr (s, i, Some existing_wf)
      | None \<Rightarrow>
           bindE (embedE (commit_task_population h2 i tds now s1)) (\<lambda>(s2, pop_outcome).
           if co_status pop_outcome \<noteq> COMMITTED
           then Inl (api_error 500 ''INITIALIZATION_FAILED'' (''Failed populating tasks: '' @ co_message pop_outcome))
           else bindE (embedE (commit_initialization_complete h3 i 1 now s2)) (\<lambda>(s3, init_outcome).
             if co_status init_outcome \<noteq> COMMITTED
             then Inl (api_error 500 ''INITIALIZATION_FAILED'' (''Failed completing initialization: '' @ co_message init_outcome))
             else Inr (s3, i, None)))) = Inr (s', r)"
    using assms(4) unfolding start_in_request_def by (auto simp: bindE_eq_Inr split: if_splits)
  note ce = creation_effect [OF c] and st1 = step_create [OF c(1)]
  have r1: "reachable s1" using r0 st1 by (rule reachable_step)
  show ?thesis
  proof (cases "if co_status out = COMMITTED \<and> i \<noteq> we_id e then get_workflow s1 i else None")
    case (Some w)
    then have i: "i \<noteq> we_id e" "get_workflow s1 i = Some w" by (auto split: if_splits)
    with ce have "get_workflow s i = Some w" "key \<noteq> None" by (auto simp: get_workflow_def)
    moreover have "s' = s" "r = (i, Some w)" using rest unfolding Some by simp_all
    ultimately show ?thesis using get_workflow_SomeD [of s i w] by (auto simp: start_promise_def has_definition_def)
  next
    case None
    from rest obtain s2 pop out3 where p: "commit_task_population h2 i tds now s1 = Inr (s2, pop)" "co_status pop = COMMITTED"
      and ini: "commit_initialization_complete h3 i 1 now s2 = Inr (s', out3)" "co_status out3 = COMMITTED" and r: "r = (i, None)"
      unfolding None by (auto simp: bindE_eq_Inr split: if_splits)
    obtain w1 where w1: "get_workflow s1 i = Some w1" "wx_definition_id w1 = we_definition_id e"
      using start_new_workflow [OF p None ce assms(2)] by blast
    have "tasks_declared (we_definition_id e) tds s1"
      using decl r0 st1 stable_tasks_declared unfolding stable_def by blast
    with w1 have "population_declared s1 i tds" by (auto simp: population_declared_def tasks_declared_def)
    from step_populate [OF this p(1)] have st2: "db_step s1 s2" .
    note st3 = step_initialized [OF ini(1)]
    have r2: "reachable s2" using r1 st2 by (rule reachable_step)
    obtain w2 where w2: "get_workflow s2 i = Some w2" "wx_definition_id w2 = we_definition_id e"
      using workflow_survives [OF r1 r_into_rtranclp [of db_step, OF st2] w1(1)] w1(2) by metis
    have "started i (we_definition_id e) s'"
      using initialized_started [OF lifecycle_db_ok [OF reachable_lifecycle [OF r2]] ini w2(1)] w2(2) by simp
    moreover have "db_steps s s'" using st1 st2 st3 by (meson r_into_rtranclp rtranclp.rtrancl_into_rtrancl)
    ultimately show ?thesis unfolding start_promise_def r by simp
  qed
qed

definition start_answer :: "idempotency_key option \<Rightarrow> definition_id \<Rightarrow> execution_response \<Rightarrow> db \<Rightarrow> bool" where
  "start_answer key d r s \<longleftrightarrow> has_definition (er_workflow_execution_id r) (er_definition_id r) s \<and>
     (key = None \<longrightarrow> er_definition_id r = d \<and> started (er_workflow_execution_id r) d s)"

lemma triple_finish_start: "triple (started wid d) (finish_start wid) (start_answer key d)"
  unfolding finish_start_def
proof (rule triple_bindP [OF triple_scheduler(1) [OF stable_started]], rule triple_bindP [OF triple_selectP [OF stable_started]],
    rule triple_option [OF triple_raiseP])
  fix found and r :: workflow_row assume "found = Some r"
  then show "triple (\<lambda>s. started wid d s \<and> reachable s \<and> found = get_workflow s wid) (returnP (execution_response_of r)) (start_answer key d)"
    by (intro triple_weaken [OF triple_returnP])
      (auto simp: start_answer_def execution_response_of_def started_def has_definition_def dest!: sym [of "Some r"] dest: get_workflow_SomeD)
qed

lemma env_uuidsP: "env_triple E P (uuidsP n) (\<lambda>_. P)"
proof (induction n)
  case 0
  show ?case by (simp add: env_triple_def returnP_def)
next
  case (Suc n)
  have "env_triple E P uuidP (\<lambda>_. P)" by (simp add: env_triple_def uuidP_def good_def)
  then show ?case
    unfolding uuidsP.simps
    by (rule env_bindP) (rule env_bindP [OF Suc], simp add: env_triple_def returnP_def)
qed

text \<open>The definition a start runs: found, read back, and declaring each task that is populated.\<close>

definition runs_definition :: "definition_id \<Rightarrow> validated_workflow_spec \<Rightarrow> db \<Rightarrow> bool" where
  "runs_definition d spec s \<longleftrightarrow> (\<forall>(t, td) \<in> set (vs_tasks spec). declared_task s d (tdid_value (td_id td)))"

lemma stable_runs_definition [stables]: "stable (runs_definition d spec)"
  unfolding stable_def runs_definition_def using declared_task_later by fast

lemma env_start_transaction:
  assumes "others_deliver E" and "others_draw_fresh E" and "we_id e = env_uuid E n"
  shows "env_triple E (\<lambda>s. runs_definition (we_definition_id e) spec s \<and> unclaimed E s)
     (transactP (start_in_request h1 h2 h3 e key fp (zip tids (map snd (vs_tasks spec))) now))
     (\<lambda>r. start_promise key (we_definition_id e) r)"
proof (rule env_transactP [OF assms(1) env_stable_conj [OF env_stable_of [OF stable_runs_definition assms(1)]]])
  show "env_stable E (unclaimed E)" using assms(2) by (simp add: others_draw_fresh_def)
  fix s s' r
  assume s: "reachable s" "runs_definition (we_definition_id e) spec s \<and> unclaimed E s"
    and c: "start_in_request h1 h2 h3 e key fp (zip tids (map snd (vs_tasks spec))) now s = Inr (s', r)"
  have "we_id e \<notin> set (map ix_resource_id (db_idempotency s))" using s(2) assms(3) by (simp add: unclaimed_def)
  moreover have "tasks_declared (we_definition_id e) (zip tids (map snd (vs_tasks spec))) s"
    using s(2) by (fastforce simp: tasks_declared_def runs_definition_def dest: set_zip_rightD)
  ultimately show "db_steps s s' \<and> start_promise key (we_definition_id e) r s'"
    by (rule start_in_request_promise [OF s(1) _ _ c])
qed

lemma env_start_answer:
  assumes "others_deliver E"
  shows "env_triple E (start_promise key d (wid, existing))
     (case existing of Some w \<Rightarrow> returnP (execution_response_of w) | None \<Rightarrow> finish_start wid) (start_answer key d)"
proof (cases existing)
  case None
  have "start_promise key d (wid, None) = started wid d" by (rule ext) (simp add: start_promise_def)
  then show ?thesis using env_triple_of [OF triple_finish_start assms] None by simp
next
  case (Some w)
  then show ?thesis
    by (auto simp: env_triple_def returnP_def start_promise_def start_answer_def execution_response_of_def)
qed

lemma new_execution_simps [simp]:
  "we_id (new_execution i payload v now) = i" "we_definition_id (new_execution i payload v now) = cer_definition_id payload"
  by (simp_all add: new_execution_def)

lemma env_uuidP: "env_triple E P uuidP (\<lambda>_. P)"
  by (simp add: env_triple_def uuidP_def good_def)

lemma env_assume_after: "(\<And>n. x = env_uuid E n \<Longrightarrow> env_triple E P m Q) \<Longrightarrow> env_triple E (\<lambda>s. P s \<and> (\<exists>n. x = env_uuid E n)) m Q"
  by (auto simp: env_triple_def)

text \<open>A start, from the definition it read to its answer.\<close>

lemma env_start_body:
  assumes "others_deliver E" and "others_draw_fresh E"
  shows "env_triple E (\<lambda>s. runs_definition (cer_definition_id payload) spec s \<and> unclaimed E s)
     (bindP clockP (\<lambda>now_utc. bindP uuidP (\<lambda>new_wf_id.
      bindP (liftP (embedE (freeze_json (cer_workflow_input payload)))) (\<lambda>frozen_input.
      bindP uuidP (\<lambda>hid1. bindP (uuidsP (length (vs_tasks spec))) (\<lambda>task_ids. bindP uuidP (\<lambda>hid2. bindP uuidP (\<lambda>hid3.
      bindP (transactP (start_in_request hid1 hid2 hid3 (new_execution new_wf_id payload frozen_input now_utc)
               key fp (zip task_ids (map snd (vs_tasks spec))) now_utc)) (\<lambda>r.
      case r of (actual_wf_id, existing) \<Rightarrow> case existing of
        Some existing_wf \<Rightarrow> returnP (execution_response_of existing_wf) | None \<Rightarrow> finish_start actual_wf_id)))))))))
     (start_answer key (cer_definition_id payload))"
proof (rule env_bindP [OF env_draws(1)], rule env_bindP [OF env_draws(2)], rule env_assume_after,
    rule env_bindP [OF env_liftP], rule env_assume, rule env_bindP [OF env_uuidP], rule env_bindP [OF env_uuidsP],
    rule env_bindP [OF env_uuidP], rule env_bindP [OF env_uuidP], rule env_bindP)
  fix now wid n v h1 tids h2 h3 assume "wid = env_uuid E n"
  then show "env_triple E (\<lambda>s. runs_definition (cer_definition_id payload) spec s \<and> unclaimed E s)
     (transactP (start_in_request h1 h2 h3 (new_execution wid payload v now) key fp (zip tids (map snd (vs_tasks spec))) now))
     (\<lambda>r. start_promise key (cer_definition_id payload) r)"
    using env_start_transaction [OF assms, of "new_execution wid payload v now" n spec h1 h2 h3 key fp tids now] by simp
next
  fix r :: "workflow_execution_id \<times> workflow_row option"
  show "env_triple E (start_promise key (cer_definition_id payload) r)
     (case r of (actual_wf_id, existing) \<Rightarrow> case existing of
        Some existing_wf \<Rightarrow> returnP (execution_response_of existing_wf) | None \<Rightarrow> finish_start actual_wf_id)
     (start_answer key (cer_definition_id payload))"
    using env_start_answer [OF assms(1), of key "cer_definition_id payload" "fst r" "snd r"]
    by (cases r, cases "snd r") simp_all
qed

lemma start_key_presence: "start_key str sha payload None = Inr r \<Longrightarrow> fst r = None"
  by (auto simp: start_key_def)

definition start_accepted :: "create_execution_request \<Rightarrow> string option \<Rightarrow> execution_response \<Rightarrow> db \<Rightarrow> bool" where
  "start_accepted payload header r s \<longleftrightarrow> has_definition (er_workflow_execution_id r) (er_definition_id r) s \<and>
     (header = None \<longrightarrow> er_definition_id r = cer_definition_id payload \<and> started (er_workflow_execution_id r) (er_definition_id r) s)"

lemma env_start_execution:
  assumes "others_deliver E" and "others_draw_fresh E"
  shows "env_triple E (unclaimed E) (start_execution str sha gate payload header) (start_accepted payload header)"
  unfolding start_execution_def
proof (rule env_if [OF env_raiseP], rule env_bindP [OF env_selectP [OF assms(1)]])
  show "env_stable E (unclaimed E)" using assms(2) by (simp add: others_draw_fresh_def)
next
  fix found
  show "env_triple E (\<lambda>s. unclaimed E s \<and> reachable s \<and> found = get_definition s (cer_definition_id payload))
     (case found of
        None \<Rightarrow> raiseP (api_error 404 ''DEFINITION_NOT_FOUND''
                  (''Definition '' @ quoted (uuid_str (cer_definition_id payload)) @ '' not found.''))
      | Some d \<Rightarrow>
          bindP (liftP (embedE (deserialize_validated_spec (column_value (dr_validated_iws d))))) (\<lambda>spec.
          bindP (liftP (embedE (start_key str sha payload header))) (\<lambda>(key, fingerprint).
          bindP clockP (\<lambda>now_utc. bindP uuidP (\<lambda>new_wf_id.
          bindP (liftP (embedE (freeze_json (cer_workflow_input payload)))) (\<lambda>frozen_input.
          bindP uuidP (\<lambda>hid1. bindP (uuidsP (length (vs_tasks spec))) (\<lambda>task_ids. bindP uuidP (\<lambda>hid2. bindP uuidP (\<lambda>hid3.
          bindP (transactP (start_in_request hid1 hid2 hid3 (new_execution new_wf_id payload frozen_input now_utc)
                   key fingerprint (zip task_ids (map snd (vs_tasks spec))) now_utc)) (\<lambda>(actual_wf_id, existing).
          case existing of
            Some existing_wf \<Rightarrow> returnP (execution_response_of existing_wf)
          | None \<Rightarrow> finish_start actual_wf_id)))))))))))
     (start_accepted payload header)"
  proof (rule env_option [OF env_raiseP], rule env_bindP [OF env_liftP], rule env_assume, rule env_bindP [OF env_liftP], rule env_assume)
    fix d spec and r :: "idempotency_key option \<times> request_fingerprint option"
    assume d: "found = Some d" and spec: "embedE (deserialize_validated_spec (column_value (dr_validated_iws d))) = Inr spec"
      and r: "embedE (start_key str sha payload header) = Inr r"
    obtain key fp where kf: "r = (key, fp)" by (cases r)
    have k: "header = None \<Longrightarrow> key = None" using r start_key_presence kf by force
    show "env_triple E (\<lambda>s. unclaimed E s \<and> reachable s \<and> found = get_definition s (cer_definition_id payload))
     (case r of (key, fingerprint) \<Rightarrow>
          bindP clockP (\<lambda>now_utc. bindP uuidP (\<lambda>new_wf_id.
          bindP (liftP (embedE (freeze_json (cer_workflow_input payload)))) (\<lambda>frozen_input.
          bindP uuidP (\<lambda>hid1. bindP (uuidsP (length (vs_tasks spec))) (\<lambda>task_ids. bindP uuidP (\<lambda>hid2. bindP uuidP (\<lambda>hid3.
          bindP (transactP (start_in_request hid1 hid2 hid3 (new_execution new_wf_id payload frozen_input now_utc)
                   key fingerprint (zip task_ids (map snd (vs_tasks spec))) now_utc)) (\<lambda>(actual_wf_id, existing).
          case existing of
            Some existing_wf \<Rightarrow> returnP (execution_response_of existing_wf)
          | None \<Rightarrow> finish_start actual_wf_id)))))))))
     (start_accepted payload header)"
      unfolding kf prod.case
    proof (rule env_weaken [OF env_post [OF env_start_body [OF assms]]])
      fix x s assume "start_answer key (cer_definition_id payload) x s"
      with k show "start_accepted payload header x s" by (auto simp: start_accepted_def start_answer_def)
    next
      fix s assume "unclaimed E s \<and> reachable s \<and> found = get_definition s (cer_definition_id payload)"
      then show "runs_definition (cer_definition_id payload) spec s \<and> unclaimed E s"
        using deserialized_declared [of s "cer_definition_id payload" d spec] d spec by (auto simp: runs_definition_def)
    qed
  qed
qed

end
