(* ===== verification/Session_Process.thy ===== *)
theory Session_Process
  imports Scheduler
begin

text \<open>
  A long database session. Startup recovery keeps one session open across its phases: a
  transaction it calls runs in a savepoint, its statements are seen by the later reads of the same
  session, and the rest of the service sees them only after \<open>session.commit()\<close>. The scheduler, which
  recovery calls in between, opens sessions of its own and so sees the committed store alone.

  The session is the list of what it has done since its last commit. Its view of the store is the
  committed store with that list applied, and a commit applies it for good. The rows it has changed
  stay locked until then, so nobody else changes them in between. Waiting for a lock is not
  modelled: the model describes the runs in which no call of the scheduler waits for a lock of the
  session itself (such a call would never return).
\<close>

section \<open>Sessions\<close>

type_synonym pending = "(db \<Rightarrow> py_exn + db) list"
type_synonym 'a session_proc = "pending \<Rightarrow> ('a \<times> pending) proc"

definition session_view :: "pending \<Rightarrow> db \<Rightarrow> py_exn + db" where
  "session_view pend s = foldE (\<lambda>tx s. tx s) pend s"

definition returnS :: "'a \<Rightarrow> 'a session_proc" where
  "returnS x pend = returnP (x, pend)"

definition bindS :: "'a session_proc \<Rightarrow> ('a \<Rightarrow> 'b session_proc) \<Rightarrow> 'b session_proc" where
  "bindS m k pend = bindP (m pend) (\<lambda>(x, pend'). k x pend')"

text \<open>What runs outside the session: clocks, the registry, the scheduler.\<close>

definition outsideS :: "'a proc \<Rightarrow> 'a session_proc" where
  "outsideS m pend = bindP m (\<lambda>x. returnP (x, pend))"

definition readS :: "(db \<Rightarrow> 'a) \<Rightarrow> 'a session_proc" where
  "readS q pend = bindP (selectP (session_view pend)) (\<lambda>v. bindP (liftP v) (\<lambda>s. returnP (q s, pend)))"

text \<open>A transaction in a savepoint of the session.\<close>

definition savepointS :: "(db \<Rightarrow> py_exn + db \<times> 'a) \<Rightarrow> 'a session_proc" where
  "savepointS tx pend =
     bindP (selectP (\<lambda>s. bindE (session_view pend s) tx)) (\<lambda>r. bindP (liftP r) (\<lambda>(_, x).
     returnP (x, pend @ [\<lambda>s. bindE (tx s) (\<lambda>(s', _). Inr s')])))"

text \<open>\<open>session.commit()\<close>.\<close>

definition commitS :: "unit session_proc" where
  "commitS pend = bindP (transactP (\<lambda>s. bindE (session_view pend s) (\<lambda>s'. Inr (s', ())))) (\<lambda>_. returnP ((), []))"

text \<open>A transaction that writes a history entry.\<close>

definition recordS :: "(history_entry_id \<Rightarrow> db \<Rightarrow> py_exn + db \<times> 'a) \<Rightarrow> 'a session_proc" where
  "recordS tx = bindS (outsideS uuidP) (\<lambda>hid. savepointS (tx hid))"

text \<open>A loop that counts.\<close>

fun countS :: "('a \<Rightarrow> int session_proc) \<Rightarrow> 'a list \<Rightarrow> int session_proc" where
  "countS f [] = returnS 0"
| "countS f (x # xs) = bindS (f x) (\<lambda>n. bindS (countS f xs) (\<lambda>m. returnS (n + m)))"

text \<open>A look at the registry without waiting.\<close>

definition peekP :: "(delivery worker_registry \<Rightarrow> 'a) \<Rightarrow> 'a proc" where
  "peekP f E w = (Inr (f (w_registry w)), w)"

section \<open>Sessions change the store by transactions only\<close>

definition by_steps :: "(db \<Rightarrow> py_exn + db) \<Rightarrow> bool" where
  "by_steps tx \<longleftrightarrow> (\<forall>s s'. tx s = Inr s' \<longrightarrow> db_steps s s')"

definition session_moves :: "'a session_proc \<Rightarrow> bool" where
  "session_moves m \<longleftrightarrow> (\<forall>pend E w. list_all by_steps pend \<longrightarrow> others_transact E \<longrightarrow> reachable (w_db w) \<longrightarrow>
     db_steps (w_db w) (w_db (snd (m pend E w))) \<and>
     (\<forall>x pend'. fst (m pend E w) = Inr (x, pend') \<longrightarrow> list_all by_steps pend'))"

named_theorems session_rules "sessions move by transactions"

lemma session_view_steps: "list_all by_steps pend \<Longrightarrow> session_view pend s = Inr s' \<Longrightarrow> db_steps s s'"
  unfolding session_view_def
proof (induction pend arbitrary: s)
  case (Cons tx pend)
  then obtain s1 where "tx s = Inr s1" "foldE (\<lambda>tx s. tx s) pend s1 = Inr s'" by (auto simp: bindE_eq_Inr)
  with Cons show ?case by (auto simp: by_steps_def intro: rtranclp_trans)
qed simp

lemma peekP_moves [moves]: "moves_by_steps (peekP f)"
  by (simp add: moves_by_steps_def peekP_def)

lemma session_returnS [session_rules]: "session_moves (returnS x)"
  by (simp add: session_moves_def returnS_def returnP_def)

lemma session_of_moves:
  assumes "\<And>pend. list_all by_steps pend \<Longrightarrow> moves_by_steps (m pend)"
    and "\<And>pend E w x pend'. list_all by_steps pend \<Longrightarrow> fst (m pend E w) = Inr (x, pend') \<Longrightarrow> list_all by_steps pend'"
  shows "session_moves m"
  using assms unfolding session_moves_def moves_by_steps_def by blast

lemma session_outsideS [session_rules]: "moves_by_steps m \<Longrightarrow> session_moves (outsideS m)"
  unfolding outsideS_def
  by (rule session_of_moves, intro moves, assumption)
    (auto simp: bindP_def returnP_def split: prod.splits sum.splits)

lemma session_readS [session_rules]: "session_moves (readS q)"
  unfolding readS_def
  by (rule session_of_moves, intro moves) (auto simp: bindP_def returnP_def liftP_def split: prod.splits sum.splits)

lemma session_savepointS:
  assumes "\<And>s s' x. tx s = Inr (s', x) \<Longrightarrow> db_step s s'"
  shows "session_moves (savepointS tx)"
proof -
  have "by_steps (\<lambda>s. bindE (tx s) (\<lambda>(s', _). Inr s'))"
    unfolding by_steps_def by (auto simp: bindE_eq_Inr intro: assms)
  then show ?thesis
    unfolding savepointS_def
    by (intro session_of_moves moves) (auto simp: bindP_def returnP_def liftP_def split: prod.splits sum.splits)
qed

lemma session_bindS [session_rules]:
  assumes "session_moves m" and "\<And>x. session_moves (k x)"
  shows "session_moves (bindS m k)"
  unfolding session_moves_def
proof (intro allI impI)
  fix pend E and w :: world
  assume p: "list_all by_steps pend" and E: "others_transact E" and r: "reachable (w_db w)"
  obtain y w1 where m: "m pend E w = (y, w1)" by (cases "m pend E w")
  have s1: "db_steps (w_db w) (w_db w1)" and p1: "\<And>x pend'. y = Inr (x, pend') \<Longrightarrow> list_all by_steps pend'"
    using assms(1) p E r m unfolding session_moves_def by fastforce+
  show "db_steps (w_db w) (w_db (snd (bindS m k pend E w))) \<and>
     (\<forall>x pend'. fst (bindS m k pend E w) = Inr (x, pend') \<longrightarrow> list_all by_steps pend')"
  proof (cases y)
    case (Inl e)
    then show ?thesis using s1 by (simp add: bindS_def bindP_def m)
  next
    case (Inr z)
    obtain x pend1 where z: "z = (x, pend1)" by (cases z)
    have "db_steps (w_db w1) (w_db (snd (k x pend1 E w1))) \<and>
       (\<forall>v pend'. fst (k x pend1 E w1) = Inr (v, pend') \<longrightarrow> list_all by_steps pend')"
      using assms(2) p1 [of x pend1] Inr z E reachable_steps [OF r s1] unfolding session_moves_def by blast
    with s1 show ?thesis by (auto simp: bindS_def bindP_def m Inr z intro: rtranclp_trans)
  qed
qed

lemma session_commitS [session_rules]: "session_moves commitS"
  unfolding session_moves_def
proof (intro allI impI)
  fix pend E and w :: world
  assume p: "list_all by_steps pend" and E: "others_transact E" and r: "reachable (w_db w)"
  then have s: "db_steps (w_db w) (w_db (await_others E w))" by (simp add: await_others_def others_transact_def)
  show "db_steps (w_db w) (w_db (snd (commitS pend E w))) \<and>
     (\<forall>x pend'. fst (commitS pend E w) = Inr (x, pend') \<longrightarrow> list_all by_steps pend')"
  proof (cases "session_view pend (w_db (await_others E w))")
    case (Inl e)
    with s show ?thesis by (simp add: commitS_def bindP_def transactP_def)
  next
    case (Inr s')
    with s session_view_steps [OF p Inr] show ?thesis
      by (auto simp: commitS_def bindP_def transactP_def returnP_def intro: rtranclp_trans)
  qed
qed

lemma session_recordS: "(\<And>hid s s' x. tx hid s = Inr (s', x) \<Longrightarrow> db_step s s') \<Longrightarrow> session_moves (recordS tx)"
  unfolding recordS_def by (intro session_rules moves session_savepointS)

lemma session_countS [session_rules]: "(\<And>x. session_moves (f x)) \<Longrightarrow> session_moves (countS f xs)"
  by (induction xs) (auto intro!: session_rules)

lemma session_cases [session_rules]:
  "session_moves m \<Longrightarrow> session_moves m' \<Longrightarrow> session_moves (if c then m else m')"
  "session_moves m \<Longrightarrow> (\<And>x. session_moves (k x)) \<Longrightarrow> session_moves (case y of None \<Rightarrow> m | Some x \<Rightarrow> k x)"
  "(\<And>x y. session_moves (l x y)) \<Longrightarrow> session_moves (case p of (x, y) \<Rightarrow> l x y)"
  by (cases y; cases p; simp)+

end
