(* ===== verification/Recovery.thy ===== *)
theory Recovery
  imports Session_Process Drain_Progress Http_Security
begin

text \<open>
  Startup recovery, \<open>src/nexusflow/orchestration/recovery.py\<close>: the eight phases in the order of the
  code, the bounded loop over them, and the startup of the application
  (\<open>interfaces/http/app.py\<close>, \<open>lifespan\<close>), which opens the gate when the loop has returned. Within
  a pass all phases share one session; the scheduler they call has its own. The row object that
  phase 1 writes back is written by \<open>recover_initializing\<close>: nothing else runs at startup, so the
  row is still the one it read.
\<close>

section \<open>Settings\<close>

record recovery_settings =
  keyset_batch_size :: nat
  convergence_max_passes :: nat
  retry_fixed_delay :: int

definition default_recovery :: recovery_settings where
  "default_recovery = \<lparr>keyset_batch_size = 100, convergence_max_passes = 10, retry_fixed_delay = 5000000\<rparr>"

text \<open>\<open>order_by(...).limit(batch_size)\<close>.\<close>

definition first_batch :: "recovery_settings \<Rightarrow> ('r \<Rightarrow> 'k::linorder) \<Rightarrow> 'r list \<Rightarrow> 'r list" where
  "first_batch cfg key rows = take (keyset_batch_size cfg) (sort_key key rows)"

abbreviation advanceS :: "workflow_execution_id \<Rightarrow> unit session_proc" where
  "advanceS wf_id \<equiv> outsideS (advance_workflow (timedelta_seconds 30) wf_id)"

section \<open>Phases 1 and 2\<close>

definition repair_initializing :: "workflow_row \<Rightarrow> int session_proc" where
  "repair_initializing wf_rec =
     bindS (readS (\<lambda>s. tasks_of s (wx_id wf_rec))) (\<lambda>tasks.
     if tasks = [] then returnS 0
     else
       bindS (outsideS clockP) (\<lambda>now_utc.
       bindS (savepointS (recover_initializing (wx_id wf_rec) now_utc)) (\<lambda>_.
       bindS commitS (\<lambda>_.
       bindS (advanceS (wx_id wf_rec)) (\<lambda>_. returnS 1)))))"

definition phase_1_repair_initializing :: "recovery_settings \<Rightarrow> int session_proc" where
  "phase_1_repair_initializing cfg =
     bindS (readS (\<lambda>s. first_batch cfg wx_created_at_utc (filter (\<lambda>w. wx_state w = WF_INITIALIZING) (db_workflows s))))
       (countS repair_initializing)"

text \<open>\<open>drain_workflow\<close> returns nothing, so its truth value never counts.\<close>

definition phase_2_resume_draining :: "recovery_settings \<Rightarrow> int session_proc" where
  "phase_2_resume_draining cfg =
     bindS (readS (\<lambda>s. first_batch cfg wx_created_at_utc
              (filter (\<lambda>w. wx_state w = WF_FAILING \<or> wx_state w = WF_CANCELLING) (db_workflows s))))
       (countS (\<lambda>wf_rec. bindS (outsideS (drain_workflow (wx_id wf_rec))) (\<lambda>_. returnS 0)))"

section \<open>Phases 3 and 4\<close>

text \<open>The settlement both phases share.\<close>

definition settle_recovered ::
  "recovery_settings \<Rightarrow> failure_cause \<Rightarrow> worker_session_id option \<Rightarrow> datetime \<Rightarrow> attempt_row \<Rightarrow> task_row \<Rightarrow> int session_proc" where
  "settle_recovered cfg cause lost now_utc att t_rec =
     bindS (recordS (\<lambda>hid. commit_internal_attempt_failure hid (ax_id att) (ax_revision att) (tx_id t_rec)
              (tx_revision t_rec) cause True (Some (now_utc + retry_fixed_delay cfg)) lost now_utc))
       (\<lambda>(outcome, wf_id, new_state).
         if co_status outcome \<noteq> COMMITTED then returnS 0
         else case wf_id of
           None \<Rightarrow> returnS 1
         | Some w \<Rightarrow>
             if new_state = ''FAILED'' then
               bindS (recordS (\<lambda>hid. commit_workflow_failure_direction hid w cause now_utc)) (\<lambda>_.
               bindS (outsideS (drain_workflow w)) (\<lambda>_. returnS 1))
             else returnS 1)"

definition session_is_dead :: "attempt_row \<Rightarrow> delivery worker_registry \<Rightarrow> bool" where
  "session_is_dead att rg = (ax_worker_session_id att \<notin> set (dict_keys (rg_sessions rg)))"

definition claimed_cause :: "bool \<Rightarrow> failure_cause" where
  "claimed_cause is_dead_session =
     \<lparr>fc_category = (if is_dead_session then WORKER_AVAILABILITY else TIME_BASED),
      fc_code = (if is_dead_session then ''WORKER_LOSS'' else ''START_DEADLINE_EXPIRED''),
      fc_message = ''Claimed attempt expired or worker session lost across restart'', fc_details = None\<rparr>"

definition settle_claimed :: "recovery_settings \<Rightarrow> datetime \<Rightarrow> attempt_row \<Rightarrow> int session_proc" where
  "settle_claimed cfg now_utc att =
     bindS (readS (\<lambda>s. get_task s (ax_task_id att))) (\<lambda>task. case task of
       None \<Rightarrow> returnS 0
     | Some t_rec \<Rightarrow>
         bindS (outsideS (peekP (session_is_dead att))) (\<lambda>is_dead_session.
         if is_dead_session \<or> ax_start_deadline_utc att \<le> now_utc
         then settle_recovered cfg (claimed_cause is_dead_session)
                (if is_dead_session then Some (ax_worker_session_id att) else None) now_utc att t_rec
         else returnS 0))"

definition phase_3_settle_claimed_attempts :: "recovery_settings \<Rightarrow> int session_proc" where
  "phase_3_settle_claimed_attempts cfg =
     bindS (readS (\<lambda>s. first_batch cfg ax_created_at_utc (filter (\<lambda>a. ax_state a = AS_CLAIMED) (db_attempts s)))) (\<lambda>records.
     bindS (outsideS clockP) (\<lambda>now_utc. countS (settle_claimed cfg now_utc) records))"

definition running_cause :: "bool \<Rightarrow> failure_cause" where
  "running_cause is_timeout =
     \<lparr>fc_category = (if is_timeout then TIME_BASED else WORKER_AVAILABILITY),
      fc_code = (if is_timeout then ''EXECUTION_TIMEOUT'' else ''WORKER_LOSS''),
      fc_message = ''Task execution timeout expired or worker session lost across restart'', fc_details = None\<rparr>"

definition settle_running :: "recovery_settings \<Rightarrow> datetime \<Rightarrow> attempt_row \<Rightarrow> int session_proc" where
  "settle_running cfg now_utc att =
     bindS (readS (\<lambda>s. get_task s (ax_task_id att))) (\<lambda>task. case task of
       None \<Rightarrow> returnS 0
     | Some t_rec \<Rightarrow>
         bindS (outsideS (peekP (session_is_dead att))) (\<lambda>is_dead_session.
         let is_timeout = (case ax_execution_timeout_utc att of None \<Rightarrow> False | Some t \<Rightarrow> t \<le> now_utc) in
         if is_dead_session \<or> is_timeout
         then settle_recovered cfg (running_cause is_timeout)
                (if is_dead_session then Some (ax_worker_session_id att) else None) now_utc att t_rec
         else returnS 0))"

definition phase_4_settle_running_attempts :: "recovery_settings \<Rightarrow> int session_proc" where
  "phase_4_settle_running_attempts cfg =
     bindS (readS (\<lambda>s. first_batch cfg ax_id (filter (\<lambda>a. ax_state a = AS_RUNNING) (db_attempts s)))) (\<lambda>records.
     bindS (outsideS clockP) (\<lambda>now_utc. countS (settle_running cfg now_utc) records))"

section \<open>Phases 5 to 7\<close>

definition promote_retry :: "datetime \<Rightarrow> task_row \<Rightarrow> int session_proc" where
  "promote_retry now_utc t_rec =
     bindS (recordS (\<lambda>hid. commit_retry_ready hid (tx_id t_rec) (tx_revision t_rec) (tx_workflow_id t_rec) now_utc)) (\<lambda>outcome.
     if co_status outcome = COMMITTED then
       bindS commitS (\<lambda>_. bindS (advanceS (tx_workflow_id t_rec)) (\<lambda>_. returnS 1))
     else returnS 0)"

definition phase_5_promote_retry_wait :: "recovery_settings \<Rightarrow> int session_proc" where
  "phase_5_promote_retry_wait cfg =
     bindS (outsideS clockP) (\<lambda>now_utc.
     bindS (readS (\<lambda>s. first_batch cfg tx_created_at_utc (filter (\<lambda>t. tx_state t = TS_RETRY_WAIT \<and>
              (case tx_retry_ready_at_utc t of None \<Rightarrow> False | Some d \<Rightarrow> d \<le> now_utc)) (db_tasks s))))
       (countS (promote_retry now_utc)))"

definition phase_6_rediscover_runnable :: "recovery_settings \<Rightarrow> int session_proc" where
  "phase_6_rediscover_runnable cfg =
     bindS (readS (\<lambda>s. first_batch cfg tx_created_at_utc (filter (\<lambda>t. tx_state t = TS_RUNNABLE) (db_tasks s))))
       (countS (\<lambda>t_rec. bindS (advanceS (tx_workflow_id t_rec)) (\<lambda>_. returnS 0)))"

text \<open>Each workflow once, at its first pending task.\<close>

fun advance_unseen :: "workflow_execution_id list \<Rightarrow> task_row list \<Rightarrow> int session_proc" where
  "advance_unseen seen [] = returnS 0"
| "advance_unseen seen (t_rec # records) =
     (if tx_workflow_id t_rec \<in> set seen then advance_unseen seen records
      else bindS (advanceS (tx_workflow_id t_rec)) (\<lambda>_. advance_unseen (tx_workflow_id t_rec # seen) records))"

definition phase_7_repair_pending_readiness :: "recovery_settings \<Rightarrow> int session_proc" where
  "phase_7_repair_pending_readiness cfg =
     bindS (readS (\<lambda>s. first_batch cfg tx_created_at_utc (filter (\<lambda>t. tx_state t = TS_PENDING) (db_tasks s))))
       (advance_unseen [])"

section \<open>Phase 8\<close>

definition failure_categories :: "failure_category list" where
  "failure_categories = [CLIENT_INPUT, VALIDATION, DOMAIN_CONFLICT, DOMAIN_EXECUTION, TIME_BASED, WORKER_AVAILABILITY,
     SYSTEM_TRANSIENT, SYSTEM_PERMANENT, CONCURRENCY]"

text \<open>\<open>FailureCategory(text)\<close>.\<close>

definition parse_failure_category :: "string \<Rightarrow> py_exn + failure_category" where
  "parse_failure_category text = (case find (\<lambda>c. failure_category_str c = text) failure_categories of
     None \<Rightarrow> Inl ValueError | Some c \<Rightarrow> Inr c)"

text \<open>The cause a failed task recorded, column by column, with a default for each.\<close>

definition non_empty :: "string option \<Rightarrow> string option" where
  "non_empty col = (case col of None \<Rightarrow> None | Some t \<Rightarrow> if t = [] then None else Some t)"

definition recorded_cause :: "task_row list \<Rightarrow> py_exn + failure_cause" where
  "recorded_cause failed_tasks =
     (let cols = (case failed_tasks of [] \<Rightarrow> no_failure | t # _ \<Rightarrow> tx_failure t) in
      bindE (case non_empty (failure_category_col cols) of
               None \<Rightarrow> Inr SYSTEM_PERMANENT | Some c \<Rightarrow> parse_failure_category c) (\<lambda>category.
      Inr \<lparr>fc_category = category,
           fc_code = (case non_empty (failure_code_col cols) of None \<Rightarrow> ''TERMINALIZATION_FAILURE'' | Some c \<Rightarrow> c),
           fc_message = (case non_empty (failure_message_col cols) of None \<Rightarrow> ''Task failed during execution'' | Some m \<Rightarrow> m),
           fc_details = None\<rparr>))"

definition terminalize_running :: "workflow_row \<Rightarrow> task_row list \<Rightarrow> datetime \<Rightarrow> int session_proc" where
  "terminalize_running wf_rec tasks now_utc =
     (if list_ex (\<lambda>t. tx_state t = TS_FAILED) tasks then
        bindS (outsideS (liftP (recorded_cause (filter (\<lambda>t. tx_state t = TS_FAILED) tasks)))) (\<lambda>cause.
        bindS (recordS (\<lambda>hid. commit_workflow_failure_direction hid (wx_id wf_rec) cause now_utc)) (\<lambda>outcome.
        if co_status outcome = COMMITTED then bindS (outsideS (drain_workflow (wx_id wf_rec))) (\<lambda>_. returnS 1)
        else returnS 0))
      else if list_all (\<lambda>t. tx_state t = TS_SUCCEEDED) tasks then
        bindS (outsideS (liftP (freeze_json (PyDict [])))) (\<lambda>value.
        bindS (recordS (\<lambda>hid. commit_workflow_success hid (wx_id wf_rec) (wx_revision wf_rec) value now_utc)) (\<lambda>outcome.
        returnS (if co_status outcome = COMMITTED then 1 else 0)))
      else returnS 0)"

definition terminalize_recovered :: "datetime \<Rightarrow> workflow_row \<Rightarrow> int session_proc" where
  "terminalize_recovered now_utc wf_rec =
     bindS (readS (\<lambda>s. tasks_of s (wx_id wf_rec))) (\<lambda>tasks.
     if tasks = [] \<or> \<not> list_all (\<lambda>t. ts_terminal (tx_state t)) tasks then returnS 0
     else if wx_state wf_rec = WF_FAILING then
       bindS (outsideS (liftP (recorded_cause (filter (\<lambda>t. tx_state t = TS_FAILED) tasks)))) (\<lambda>_.
       bindS (recordS (\<lambda>hid. commit_workflow_failure hid (wx_id wf_rec) (wx_revision wf_rec) now_utc)) (\<lambda>outcome.
       returnS (if co_status outcome = COMMITTED then 1 else 0)))
     else if wx_state wf_rec = WF_CANCELLING then
       bindS (recordS (\<lambda>hid. commit_workflow_cancellation hid (wx_id wf_rec) (wx_revision wf_rec) now_utc)) (\<lambda>outcome.
       returnS (if co_status outcome = COMMITTED then 1 else 0))
     else if wx_state wf_rec = WF_RUNNING then terminalize_running wf_rec tasks now_utc
     else returnS 0)"

definition phase_8_repair_terminalization :: "recovery_settings \<Rightarrow> int session_proc" where
  "phase_8_repair_terminalization cfg =
     bindS (readS (\<lambda>s. first_batch cfg wx_created_at_utc
              (filter (\<lambda>w. wx_state w \<in> {WF_RUNNING, WF_FAILING, WF_CANCELLING}) (db_workflows s)))) (\<lambda>records.
     bindS (outsideS clockP) (\<lambda>now_utc. countS (terminalize_recovered now_utc) records))"

section \<open>The loop and the startup\<close>

definition recovery_phases :: "recovery_settings \<Rightarrow> int session_proc list" where
  "recovery_phases cfg =
     [phase_1_repair_initializing cfg, phase_2_resume_draining cfg, phase_3_settle_claimed_attempts cfg,
      phase_4_settle_running_attempts cfg, phase_5_promote_retry_wait cfg, phase_6_rediscover_runnable cfg,
      phase_7_repair_pending_readiness cfg, phase_8_repair_terminalization cfg]"

fun run_phases :: "int session_proc list \<Rightarrow> int session_proc" where
  "run_phases [] = returnS 0"
| "run_phases (phase # phases) = bindS phase (\<lambda>n. bindS (run_phases phases) (\<lambda>m. returnS (n + m)))"

text \<open>One pass in a session of its own: the phases, then the commit.\<close>

definition recovery_pass :: "recovery_settings \<Rightarrow> int proc" where
  "recovery_pass cfg =
     bindP (bindS (run_phases (recovery_phases cfg)) (\<lambda>mutations. bindS commitS (\<lambda>_. returnS mutations)) [])
       (\<lambda>(mutations, _). returnP mutations)"

fun recover_passes :: "recovery_settings \<Rightarrow> nat \<Rightarrow> unit proc" where
  "recover_passes cfg 0 = returnP ()"
| "recover_passes cfg (Suc n) =
     bindP (recovery_pass cfg) (\<lambda>mutations. if mutations = 0 then returnP () else recover_passes cfg n)"

definition recover_system :: "recovery_settings \<Rightarrow> unit proc" where
  "recover_system cfg = recover_passes cfg (convergence_max_passes cfg)"

definition lifespan :: "recovery_settings \<Rightarrow> startup_recovery_gate \<Rightarrow> startup_recovery_gate proc" where
  "lifespan cfg gate = bindP (recover_system cfg) (\<lambda>_. returnP (mark_recovery_completed gate))"

section \<open>Recovery moves by transactions\<close>

lemma internal_recovery_causes: "internal_cause (claimed_cause b)" "internal_cause (running_cause b)"
  by (simp_all add: internal_cause_def claimed_cause_def running_cause_def)

lemma session_settle_recovered: "internal_cause cause \<Longrightarrow> session_moves (settle_recovered cfg cause lost now att t)"
  unfolding settle_recovered_def
  by (intro session_rules session_recordS moves; (rule step_internal_failure, assumption, assumption)?)
    (erule step_failing)

lemma session_advance_unseen [session_rules]: "session_moves (advance_unseen seen records)"
  by (induction records arbitrary: seen) (auto intro!: session_rules moves)

lemma session_terminalize [session_rules]: "session_moves (terminalize_recovered now wf_rec)"
  unfolding terminalize_recovered_def terminalize_running_def
  by (intro session_rules session_recordS moves; erule step_failed step_cancelled step_failing step_succeeded)

lemma session_phases:
  "m \<in> set (recovery_phases cfg) \<Longrightarrow> session_moves m"
proof -
  have "session_moves (repair_initializing wf_rec)" for wf_rec
    unfolding repair_initializing_def
    by (intro session_rules session_savepointS moves) (erule step_recover)
  moreover have "session_moves (settle_claimed cfg now att)" "session_moves (settle_running cfg now att)" for now att
    unfolding settle_claimed_def settle_running_def Let_def
    by (intro session_rules session_settle_recovered internal_recovery_causes moves)+
  moreover have "session_moves (promote_retry now t)" for now t
    unfolding promote_retry_def by (intro session_rules session_recordS moves) (erule step_retry_ready)
  ultimately show "m \<in> set (recovery_phases cfg) \<Longrightarrow> session_moves m"
    by (auto simp: recovery_phases_def phase_1_repair_initializing_def phase_2_resume_draining_def
        phase_3_settle_claimed_attempts_def phase_4_settle_running_attempts_def phase_5_promote_retry_wait_def
        phase_6_rediscover_runnable_def phase_7_repair_pending_readiness_def phase_8_repair_terminalization_def
        intro!: session_rules moves)
qed

end
