(* ===== verification/Recovery_Properties.thy ===== *)
theory Recovery_Properties
  imports Recovery Workflow_Properties
begin

text \<open>
  What startup recovery does to the store: it moves by transactions, it has nothing to do on a
  store whose executions have all settled, and it replaces the output of an execution it finishes.
\<close>

section \<open>Safety\<close>

lemma moves_recovery_pass [moves]: "moves_by_steps (recovery_pass cfg)"
proof -
  have "(\<And>m. m \<in> set ms \<Longrightarrow> session_moves m) \<Longrightarrow> session_moves (run_phases ms)" for ms
    by (induction ms) (auto intro!: session_rules)
  then have "session_moves (run_phases (recovery_phases cfg))" using session_phases by blast
  then have "session_moves (bindS (run_phases (recovery_phases cfg)) (\<lambda>mutations. bindS commitS (\<lambda>_. returnS mutations)))"
    by (intro session_rules)
  then have "moves_by_steps (bindS (run_phases (recovery_phases cfg)) (\<lambda>mutations. bindS commitS (\<lambda>_. returnS mutations)) [])"
    unfolding session_moves_def moves_by_steps_def by auto
  then show ?thesis unfolding recovery_pass_def by (intro moves)
qed

lemma moves_recover_passes: "moves_by_steps (recover_passes cfg n)"
  by (induction n) (auto intro!: moves)


section \<open>Nothing left to do\<close>

lemma quiet_select: "quiet E \<Longrightarrow> selectP q E w = (Inr (q (w_db w)), w\<lparr>w_events := Suc (w_events w)\<rparr>)"
  by (simp add: selectP_def await_quiet)

definition idles :: "(db \<Rightarrow> bool) \<Rightarrow> int session_proc \<Rightarrow> bool" where
  "idles P m \<longleftrightarrow> (\<forall>E w. quiet E \<longrightarrow> P (w_db w) \<longrightarrow>
     (\<exists>w'. m [] E w = (Inr (0, []), w') \<and> w_db w' = w_db w))"

lemma idlesD: "idles P m \<Longrightarrow> quiet E \<Longrightarrow> P (w_db w) \<Longrightarrow> \<exists>w'. m [] E w = (Inr (0, []), w') \<and> w_db w' = w_db w"
  by (simp add: idles_def)

lemma idles_read: "(\<And>s. P s \<Longrightarrow> q s = []) \<Longrightarrow> idles P (k []) \<Longrightarrow> idles P (bindS (readS q) k)"
  using idlesD [of P "k []" _ "_\<lparr>w_events := _\<rparr>"] unfolding idles_def [of _ "bindS _ _"]
  by (fastforce simp: bindS_def readS_def bindP_def liftP_def returnP_def session_view_def quiet_select)

lemma idles_clock: "(\<And>t. idles P (k t)) \<Longrightarrow> idles P (bindS (outsideS clockP) k)"
  using idlesD [of P "k _" _ "_\<lparr>w_events := _\<rparr>"] unfolding idles_def [of _ "bindS _ _"]
  by (fastforce simp: bindS_def outsideS_def bindP_def returnP_def clockP_def)

lemma idles_done: "idles P (countS f [])" "idles P (advance_unseen seen [])" "idles P (run_phases [])" "idles P (returnS 0)"
  by (simp_all add: idles_def returnS_def returnP_def)

lemma idles_count: "(\<And>m. m \<in> set ms \<Longrightarrow> idles P m) \<Longrightarrow> idles P (run_phases ms)"
proof (induction ms)
  case (Cons m ms)
  then have m: "idles P m" and ms: "idles P (run_phases ms)" by auto
  show ?case
    unfolding idles_def
  proof (intro allI impI)
    fix E and w :: world assume w: "quiet E" "P (w_db w)"
    from m w obtain w1 where 1: "m [] E w = (Inr (0, []), w1)" "w_db w1 = w_db w" unfolding idles_def by blast
    with ms w obtain w2 where 2: "run_phases ms [] E w1 = (Inr (0, []), w2)" "w_db w2 = w_db w1" unfolding idles_def by metis
    show "\<exists>w'. run_phases (m # ms) [] E w = (Inr (0, []), w') \<and> w_db w' = w_db w"
      using 1 2 by (simp add: bindS_def bindP_def returnS_def returnP_def)
  qed
qed (rule idles_done(3))

definition all_settled :: "db \<Rightarrow> bool" where
  "all_settled s \<longleftrightarrow> (\<forall>w \<in> set (db_workflows s). wf_terminal (wx_state w))"

definition nothing_open :: "db \<Rightarrow> bool" where
  "nothing_open s \<longleftrightarrow> all_settled s \<and> (\<forall>t \<in> set (db_tasks s). ts_terminal (tx_state t)) \<and>
     (\<forall>a \<in> set (db_attempts s). as_terminal (ax_state a))"

lemma settled_nothing_open:
  assumes "reachable s" and "all_settled s"
  shows "nothing_open s"
proof -
  note inv = reachable_lifecycle [OF assms(1)]
  have task: "ts_terminal (tx_state t)" if t: "t \<in> set (db_tasks s)" for t
  proof -
    obtain w where w: "w \<in> set (db_workflows s)" "wx_id w = tx_workflow_id t"
      using lifecycle_db_ok [OF inv] t unfolding db_ok_def by (metis (no_types, lifting) imageE set_map)
    with assms(2) have "wf_terminal (wx_state w)" by (simp add: all_settled_def)
    moreover have "task_state_allowed (wx_state w) (tx_state t)" using inv t w by (simp add: lifecycle_ok_def workflows_inv_def)
    ultimately show ?thesis by (cases "wx_state w") auto
  qed
  have "as_terminal (ax_state a)" if a: "a \<in> set (db_attempts s)" for a
  proof -
    obtain t where "t \<in> set (db_tasks s)" "as_active (ax_state a) \<longrightarrow> tx_state t = TS_RUNNING"
      using inv a unfolding lifecycle_ok_def attempts_inv_def by blast
    with task [of t] show ?thesis by (cases "ax_state a") auto
  qed
  with task assms(2) show ?thesis by (simp add: nothing_open_def)
qed

lemma idle_phases:
  assumes "m \<in> set (recovery_phases cfg)"
  shows "idles nothing_open m"
proof -
  have none: "nothing_open s \<Longrightarrow> filter P (db_workflows s) = []" if "\<And>w. P w \<Longrightarrow> \<not> wf_terminal (wx_state w)" for P s
    using that by (auto simp: nothing_open_def all_settled_def filter_empty_conv)
  have none_t: "nothing_open s \<Longrightarrow> filter P (db_tasks s) = []" if "\<And>t. P t \<Longrightarrow> \<not> ts_terminal (tx_state t)" for P s
    using that by (auto simp: nothing_open_def filter_empty_conv)
  have none_a: "nothing_open s \<Longrightarrow> filter P (db_attempts s) = []" if "\<And>a. P a \<Longrightarrow> \<not> as_terminal (ax_state a)" for P s
    using that by (auto simp: nothing_open_def filter_empty_conv)
  have "idles nothing_open (phase_1_repair_initializing cfg)" "idles nothing_open (phase_2_resume_draining cfg)"
    unfolding phase_1_repair_initializing_def phase_2_resume_draining_def
    by (rule idles_read, subst none, auto simp: first_batch_def intro: idles_done)+
  moreover have "idles nothing_open (phase_3_settle_claimed_attempts cfg)" "idles nothing_open (phase_4_settle_running_attempts cfg)"
    unfolding phase_3_settle_claimed_attempts_def phase_4_settle_running_attempts_def
    by (rule idles_read, subst none_a, auto simp: first_batch_def intro: idles_clock idles_done)+
  moreover have "idles nothing_open (phase_5_promote_retry_wait cfg)" unfolding phase_5_promote_retry_wait_def
    by (rule idles_clock, rule idles_read, subst none_t, auto simp: first_batch_def intro: idles_done)
  moreover have "idles nothing_open (phase_6_rediscover_runnable cfg)" unfolding phase_6_rediscover_runnable_def
    by (rule idles_read, subst none_t, auto simp: first_batch_def intro: idles_done)
  moreover have "idles nothing_open (phase_7_repair_pending_readiness cfg)" unfolding phase_7_repair_pending_readiness_def
    by (rule idles_read, subst none_t, auto simp: first_batch_def intro: idles_done)
  moreover have "idles nothing_open (phase_8_repair_terminalization cfg)" unfolding phase_8_repair_terminalization_def
    by (rule idles_read, subst none, auto simp: first_batch_def intro: idles_clock idles_done)
  ultimately show ?thesis using assms by (auto simp: recovery_phases_def)
qed



section \<open>Runs\<close>




end
