(* ===== verification/Worker_Runtime.thy ===== *)
theory Worker_Runtime
  imports Worker_Protocol
begin

text \<open>
  The reference worker, \<open>src/nexusflow/worker/runtime.py\<close>: the registry of activity handlers, the
  registration of the session, the poll-execute-callback cycle, and one turn of the two background
  loops, composed with the routes of the control plane they call. The activity handlers are an
  argument; the HTTP client is the composition itself, so network failures are not modelled, and a
  response is the payload or the status code of the error.
\<close>

section \<open>Activity handlers\<close>

text \<open>How a handler ends: the three cases the cycle tells apart, an exception with its type and text.\<close>

datatype activity_result = Returned pyval | RaisedTypeError string | RaisedException string string

datatype call_style = Keywords | SingleArgument

type_synonym activity_handler = "call_style \<Rightarrow> pyval \<Rightarrow> activity_result"
type_synonym activity_registry = "(activity_type, activity_handler) dict"

text \<open>\<open>ActivityRegistry.register\<close>; a handler of the model is always callable.\<close>

definition register_activity :: "string \<Rightarrow> activity_handler \<Rightarrow> activity_registry \<Rightarrow> py_exn + activity_registry" where
  "register_activity name handler handlers =
     bindE (mk_ActivityType name) (\<lambda>act_type.
     if act_type \<in> set (dict_keys handlers) then Inl ValueError
     else Inr (dict_set act_type handler handlers))"

definition get_handler :: "activity_type \<Rightarrow> activity_registry \<Rightarrow> activity_handler option" where
  "get_handler act_type handlers = map_of handlers act_type"

definition worker_capabilities :: "activity_registry \<Rightarrow> activity_type list" where
  "worker_capabilities handlers = dict_keys handlers"

record worker_runtime_config =
  wc_worker_token :: string
  wc_worker_id :: string
  wc_heartbeat_interval :: int
  wc_poll_timeout :: int

record nexus_worker =
  nw_config :: worker_runtime_config
  nw_handlers :: activity_registry
  nw_session_id :: "worker_session_id option"
  nw_running :: bool

definition new_worker :: "worker_runtime_config \<Rightarrow> nexus_worker" where
  "new_worker config = \<lparr>nw_config = config, nw_handlers = [], nw_session_id = None, nw_running = False\<rparr>"

text \<open>The decorator \<open>@worker.activity(name)\<close>.\<close>

definition worker_activity :: "string \<Rightarrow> activity_handler \<Rightarrow> nexus_worker \<Rightarrow> py_exn + nexus_worker" where
  "worker_activity name fn worker =
     bindE (register_activity name fn (nw_handlers worker)) (\<lambda>handlers. Inr (worker\<lparr>nw_handlers := handlers\<rparr>))"

section \<open>Calling the control plane\<close>

datatype worker_exn = PythonError py_exn | HttpStatusError int

text \<open>
  One request: the guard of the worker domain, then the bounds of the payload, then the route. The
  caller gets the response or a status code.
\<close>

definition post_worker :: "http_exn + bool \<Rightarrow> bool \<Rightarrow> (http_exn, 'a) proc_raising \<Rightarrow> (worker_exn, int + 'a) proc_raising" where
  "post_worker guard payload_ok route E w = (case guard of
       Inl e \<Rightarrow> (Inr (Inl (jr_status_code (error_response None e))), w)
     | Inr _ \<Rightarrow>
         if \<not> payload_ok then (Inr (Inl (jr_status_code (validation_exception_handler None (PyList [])))), w)
         else (case route E w of
             (Inl e, w') \<Rightarrow> (Inr (Inl (jr_status_code (error_response None e))), w')
           | (Inr x, w') \<Rightarrow> (Inr (Inr x), w')))"

definition raise_for_status :: "int + 'a \<Rightarrow> worker_exn + 'a" where
  "raise_for_status response = (case response of Inl status \<Rightarrow> Inl (HttpStatusError status) | Inr x \<Rightarrow> Inr x)"

definition pyE :: "py_exn + 'a \<Rightarrow> worker_exn + 'a" where
  "pyE m = (case m of Inl e \<Rightarrow> Inl (PythonError e) | Inr x \<Rightarrow> Inr x)"

section \<open>Starting\<close>

definition start_worker :: "http_exn + bool \<Rightarrow> nexus_worker \<Rightarrow> (worker_exn, nexus_worker) proc_raising" where
  "start_worker guard worker =
     (let reg_payload = \<lparr>wq_worker_id = wc_worker_id (nw_config worker),
            wq_capabilities = map act_name (worker_capabilities (nw_handlers worker)), wq_client_version = ''1.0.0''\<rparr> in
      bindP (post_worker guard (registration_request_ok reg_payload) (register_worker_route reg_payload)) (\<lambda>resp.
      bindP (liftP (raise_for_status resp)) (\<lambda>data.
      returnP (worker\<lparr>nw_session_id := Some (wp_worker_session_id data), nw_running := True\<rparr>))))"

definition stop_worker :: "nexus_worker \<Rightarrow> nexus_worker" where
  "stop_worker worker = worker\<lparr>nw_running := False\<rparr>"

section \<open>The cycle\<close>

text \<open>A \<open>TypeError\<close>, also one raised inside the handler, makes the call again with the mapping.\<close>

definition invoke_handler :: "activity_handler \<Rightarrow> pyval \<Rightarrow> activity_result" where
  "invoke_handler handler stable_input =
     (let kwargs = (case stable_input of PyDict es \<Rightarrow> PyDict es | _ \<Rightarrow> PyDict []) in
      case handler Keywords kwargs of
        RaisedTypeError _ \<Rightarrow> handler SingleArgument kwargs
      | r \<Rightarrow> r)"

definition outcome_ok :: "worker_callback_outcome \<Rightarrow> bool" where
  "outcome_ok outcome = (case outcome of ActivityFailure d \<Rightarrow> failure_details_ok d | _ \<Rightarrow> True)"

definition post_callback ::
  "http_exn + bool \<Rightarrow> attempt_id \<Rightarrow> worker_session_id \<Rightarrow> worker_callback_outcome
    \<Rightarrow> (worker_exn, int + worker_callback_response) proc_raising" where
  "post_callback guard attempt_id session_id outcome =
     post_worker guard (outcome_ok outcome)
       (report_callback \<lparr>cq_attempt_id = attempt_id, cq_worker_session_id = session_id, cq_payload = outcome\<rparr>)"

definition report_failed ::
  "http_exn + bool \<Rightarrow> attempt_id \<Rightarrow> worker_session_id \<Rightarrow> string \<Rightarrow> string \<Rightarrow> (worker_exn, bool) proc_raising" where
  "report_failed guard attempt_id session_id error_type message =
     bindP (post_callback guard attempt_id session_id
              (ActivityFailure \<lparr>af_error_type = error_type, af_message = message, af_details = Some (PyDict [])\<rparr>)) (\<lambda>cb_resp.
     bindP (liftP (raise_for_status cb_resp)) (\<lambda>_. returnP True))"

definition report_returned ::
  "http_exn + bool \<Rightarrow> attempt_id \<Rightarrow> worker_session_id \<Rightarrow> pyval \<Rightarrow> (worker_exn, bool) proc_raising" where
  "report_returned guard attempt_id session_id output =
     bindP (liftP (pyE (freeze_json output))) (\<lambda>_.
     bindP (liftP (pyE (thaw_json output))) (\<lambda>thawed.
     bindP (post_callback guard attempt_id session_id (ActivitySuccess thawed)) (\<lambda>cb_resp.
     bindP (liftP (raise_for_status cb_resp)) (\<lambda>_. returnP True))))"

text \<open>From the assignment to the callback.\<close>

definition execute_assignment ::
  "http_exn + bool \<Rightarrow> nexus_worker \<Rightarrow> worker_session_id \<Rightarrow> task_assignment_dto \<Rightarrow> (worker_exn, bool) proc_raising" where
  "execute_assignment guard worker session_id assignment =
     (let attempt_id = ta_attempt_id assignment in
      bindP (post_worker guard True (acknowledge_start \<lparr>sq_attempt_id = attempt_id, sq_worker_session_id = session_id\<rparr>))
        (\<lambda>start_resp. case start_resp of
          Inl status \<Rightarrow> returnP False
        | Inr _ \<Rightarrow>
            bindP (liftP (pyE (mk_ActivityType (ta_activity_type assignment)))) (\<lambda>act_type.
            case get_handler act_type (nw_handlers worker) of
              None \<Rightarrow> raiseP (PythonError RuntimeError)
            | Some handler \<Rightarrow>
                (case invoke_handler handler (ta_stable_input assignment) of
                   Returned output \<Rightarrow> report_returned guard attempt_id session_id output
                 | RaisedTypeError text \<Rightarrow> report_failed guard attempt_id session_id ''TypeError'' text
                 | RaisedException error_type text \<Rightarrow> report_failed guard attempt_id session_id error_type text))))"

definition run_once :: "http_exn + bool \<Rightarrow> nexus_worker \<Rightarrow> (worker_exn, bool) proc_raising" where
  "run_once guard worker = (case nw_session_id worker of
       None \<Rightarrow> raiseP (PythonError RuntimeError)
     | Some session_id \<Rightarrow>
         let poll_payload = \<lparr>pq_worker_session_id = session_id, pq_accepting_new_work = True, pq_max_items = 1,
                             pq_timeout = wc_poll_timeout (nw_config worker)\<rparr> in
         bindP (post_worker guard (poll_request_ok poll_payload) (poll_work poll_payload)) (\<lambda>resp. case resp of
           Inl status \<Rightarrow> returnP False
         | Inr (PollCancelCommand canc) \<Rightarrow>
             bindP (post_callback guard (tc_attempt_id canc) session_id (ActivityCancelAck COOPERATIVELY_STOPPED))
               (\<lambda>_. returnP True)
         | Inr PollNoWork \<Rightarrow> returnP False
         | Inr (PollAssignment assignment) \<Rightarrow> execute_assignment guard worker session_id assignment))"

section \<open>The background loops\<close>

text \<open>
  One turn of each loop. A turn of the poll loop ends with the microseconds it sleeps; it swallows
  every exception, as the heartbeat does.
\<close>

definition poll_turn :: "http_exn + bool \<Rightarrow> nexus_worker \<Rightarrow> (worker_exn, int) proc_raising" where
  "poll_turn guard worker E w = (case run_once guard worker E w of
       (Inr executed, w') \<Rightarrow> (Inr (if executed then 0 else 500000), w')
     | (Inl e, w') \<Rightarrow> (Inr 1000000, w'))"

definition heartbeat_turn :: "http_exn + bool \<Rightarrow> nexus_worker \<Rightarrow> (worker_exn, unit) proc_raising" where
  "heartbeat_turn guard worker = (case nw_session_id worker of
       None \<Rightarrow> returnP ()
     | Some session_id \<Rightarrow>
         if \<not> nw_running worker then returnP ()
         else
           bindP (post_worker guard True
                    (heartbeat_worker_route \<lparr>hq_worker_session_id = session_id, hq_accepting_new_work = True\<rparr>))
             (\<lambda>_. returnP ()))"

text \<open>The poll loop for a number of turns, while the worker is running.\<close>

fun poll_turns :: "http_exn + bool \<Rightarrow> nexus_worker \<Rightarrow> nat \<Rightarrow> (worker_exn, int list) proc_raising" where
  "poll_turns guard worker 0 = returnP []"
| "poll_turns guard worker (Suc n) =
     (if \<not> nw_running worker then returnP []
      else bindP (poll_turn guard worker) (\<lambda>t. bindP (poll_turns guard worker n) (\<lambda>ts. returnP (t # ts))))"

section \<open>An executed assignment is settled\<close>

text \<open>What the store owes the result of a handler.\<close>

definition settled_by :: "activity_result \<Rightarrow> attempt_id \<Rightarrow> db \<Rightarrow> bool" where
  "settled_by result attempt_id s = (case result of
       Returned output \<Rightarrow> (\<exists>a \<in> set (db_attempts s). \<exists>v. ax_id a = attempt_id \<and> thaw_json output = Inr v \<and>
         success_promise v (ax_task_id a) s)
     | _ \<Rightarrow> attempt_reached attempt_id AS_FAILED s)"

lemma triple_post_worker:
  assumes "triple (\<lambda>_. True) route (\<lambda>x. Q x)"
  shows "triple (\<lambda>_. True) (post_worker guard ok route) (\<lambda>r s. \<forall>x. r = Inr x \<longrightarrow> Q x s)"
proof (rule tripleI)
  fix E w assume E: "others_deliver E" "good w" "True"
  show "good (snd (post_worker guard ok route E w)) \<and>
     (\<forall>r. fst (post_worker guard ok route E w) = Inr r \<longrightarrow> (\<forall>x. r = Inr x \<longrightarrow> Q x (w_db (snd (post_worker guard ok route E w)))))"
  proof (cases guard)
    case (Inr b)
    obtain x w' where x: "route E w = (x, w')" by (cases "route E w")
    with tripleD(1) [OF assms E(1,2)] tripleD(2) [OF assms E(1,2)] Inr E(2) show ?thesis
      by (cases x) (auto simp: post_worker_def)
  qed (use E in \<open>simp add: post_worker_def\<close>)
qed


lemma triple_post_callback:
  "triple (\<lambda>_. True) (post_callback guard i sid outcome)
     (\<lambda>r s. \<forall>x. r = Inr x \<longrightarrow> callback_recorded \<lparr>cq_attempt_id = i, cq_worker_session_id = sid, cq_payload = outcome\<rparr> s)"
  unfolding post_callback_def by (rule triple_post_worker [OF triple_report_callback])

lemma triple_raise_for_status:
  "triple (\<lambda>s. \<forall>x. resp = Inr x \<longrightarrow> P s) (bindP (liftP (raise_for_status resp)) (\<lambda>_. returnP True)) (\<lambda>_ s. P s)"
  by (rule triple_bindP [OF triple_liftP], rule triple_weaken [OF triple_returnP])
    (auto simp: raise_for_status_def split: sum.splits)

lemma triple_report_failed:
  "triple (\<lambda>_. True) (report_failed guard i sid t m) (\<lambda>_. attempt_reached i AS_FAILED)"
  unfolding report_failed_def
  by (rule triple_bindP [OF triple_post_callback], rule triple_weaken [OF triple_raise_for_status])
    (auto simp: callback_recorded_def)

lemma triple_report_returned:
  "triple (\<lambda>_. True) (report_returned guard i sid output) (\<lambda>_. settled_by (Returned output) i)"
  unfolding report_returned_def
proof (rule triple_bindP [OF triple_liftP], rule triple_bindP [OF triple_weaken [OF triple_liftP]], simp)
  fix f v
  show "triple (\<lambda>s. pyE (thaw_json output) = Inr v \<and> True)
     (bindP (post_callback guard i sid (ActivitySuccess v)) (\<lambda>cb_resp. bindP (liftP (raise_for_status cb_resp)) (\<lambda>_. returnP True)))
     (\<lambda>_. settled_by (Returned output) i)"
  proof (rule triple_assume)
    assume v: "pyE (thaw_json output) = Inr v"
    show "triple (\<lambda>_. True)
     (bindP (post_callback guard i sid (ActivitySuccess v)) (\<lambda>cb_resp. bindP (liftP (raise_for_status cb_resp)) (\<lambda>_. returnP True)))
     (\<lambda>_. settled_by (Returned output) i)"
      by (rule triple_bindP [OF triple_post_callback], rule triple_weaken [OF triple_raise_for_status])
        (use v in \<open>auto simp: callback_recorded_def settled_by_def pyE_def split: sum.splits\<close>)
  qed
qed

lemma triple_acknowledge: "triple (\<lambda>_. True) (acknowledge_start payload) (\<lambda>_ _. True)"
proof -
  have "neutral (acknowledge_start payload)"
    unfolding acknowledge_start_def
    by (intro neutrals neutral_registryP neutral_commitP; (erule step_start)?; (simp; fail)?)
  then show ?thesis by (rule neutral_triple [OF _ stable_const])
qed

lemma settled_by_raised:
  "settled_by (RaisedTypeError m) i = attempt_reached i AS_FAILED" "settled_by (RaisedException t m) i = attempt_reached i AS_FAILED"
  by (rule ext, simp add: settled_by_def)+

lemma triple_execute_assignment:
  "triple (\<lambda>_. True) (execute_assignment guard worker sid asg)
     (\<lambda>executed s. executed \<longrightarrow> (\<exists>handler. get_handler (ActivityType (ta_activity_type asg)) (nw_handlers worker) = Some handler \<and>
        settled_by (invoke_handler handler (ta_stable_input asg)) (ta_attempt_id asg) s))"
  (is "triple _ _ ?Q")
  unfolding execute_assignment_def Let_def
proof (rule triple_bindP [OF triple_post_worker [OF triple_acknowledge]])
  fix resp :: "int + worker_start_ack_response"
  let ?run = "\<lambda>result. case result of
       Returned output \<Rightarrow> report_returned guard (ta_attempt_id asg) sid output
     | RaisedTypeError text \<Rightarrow> report_failed guard (ta_attempt_id asg) sid ''TypeError'' text
     | RaisedException error_type text \<Rightarrow> report_failed guard (ta_attempt_id asg) sid error_type text"
  have run: "triple (\<lambda>_. True) (?run result) (\<lambda>_. settled_by result (ta_attempt_id asg))" for result
    by (cases result) (simp_all add: settled_by_raised triple_report_failed triple_report_returned)
  show "triple (\<lambda>s. \<forall>x. resp = Inr x \<longrightarrow> True)
     (case resp of Inl status \<Rightarrow> returnP False
      | Inr _ \<Rightarrow> bindP (liftP (pyE (mk_ActivityType (ta_activity_type asg)))) (\<lambda>act_type.
          case get_handler act_type (nw_handlers worker) of
            None \<Rightarrow> raiseP (PythonError RuntimeError)
          | Some handler \<Rightarrow> ?run (invoke_handler handler (ta_stable_input asg)))) ?Q"
  proof (cases resp)
    case (Inl status)
    then show ?thesis by (simp add: triple_weaken [OF triple_returnP])
  next
    case (Inr x)
    have "triple (\<lambda>_. True) (bindP (liftP (pyE (mk_ActivityType (ta_activity_type asg)))) (\<lambda>act_type.
          case get_handler act_type (nw_handlers worker) of
            None \<Rightarrow> raiseP (PythonError RuntimeError)
          | Some handler \<Rightarrow> ?run (invoke_handler handler (ta_stable_input asg)))) ?Q"
    proof (rule triple_bindP [OF triple_liftP], rule triple_assume, rule triple_option [OF triple_raiseP])
      fix act_type handler
      assume "pyE (mk_ActivityType (ta_activity_type asg)) = Inr act_type" and h: "get_handler act_type (nw_handlers worker) = Some handler"
      then have "act_type = ActivityType (ta_activity_type asg)"
        by (auto simp: pyE_def mk_ActivityType_def split: sum.splits if_splits)
      with h have "get_handler (ActivityType (ta_activity_type asg)) (nw_handlers worker) = Some handler" by simp
      then show "triple (\<lambda>_. True) (?run (invoke_handler handler (ta_stable_input asg))) ?Q"
        by (intro triple_post [OF run]) blast
    qed
    then show ?thesis by (simp add: Inr)
  qed
qed



section \<open>Runs\<close>

text \<open>A worker whose session 31 is registered, with a handler for the activity the sample declares.\<close>

definition sample_worker :: "string \<Rightarrow> nexus_worker" where
  "sample_worker activity = \<lparr>nw_config = \<lparr>wc_worker_token = ''secret'', wc_worker_id = ''worker'',
       wc_heartbeat_interval = 5000000, wc_poll_timeout = 20000000\<rparr>,
     nw_handlers = [(ActivityType activity, \<lambda>_ _. Returned (PyInt 5))], nw_session_id = Some 31, nw_running = True\<rparr>"


lemma sample_worker_polls:
  "run_once (Inr True) (sample_worker activity) idle_environment polled_world =
     execute_assignment (Inr True) (sample_worker activity) 31 sample_offer idle_environment (polled_world\<lparr>w_events := 5\<rparr>)"
proof -
  have p: "\<lparr>pq_worker_session_id = 31, pq_accepting_new_work = True, pq_max_items = 1,
      pq_timeout = wc_poll_timeout (nw_config (sample_worker activity))\<rparr> = sample_poll"
    "nw_session_id (sample_worker activity) = Some 31" "poll_request_ok sample_poll"
    by (simp_all add: sample_worker_def sample_poll_def poll_request_ok_def)
  show ?thesis
    unfolding run_once_def p(2) option.case Let_def p(1)
    by (simp add: bindP_def post_worker_def p(3) sample_poll_run)
qed


end
