(* ===== verification/Control_Plane.thy ===== *)
theory Control_Plane
  imports Execution_Promises Recovery_Properties Worker_Runtime
begin

text \<open>
  The application of \<open>src/nexusflow/interfaces/http/app.py\<close>: the routers it includes, each route
  behind its guard, as one function from a request to an answer. Every request, with whatever runs
  at its await points, keeps the store reachable by the transactions and the queued deliveries
  backed by it; so everything proved of reachable stores holds of the running service.
\<close>

section \<open>Health\<close>

definition healthz :: "(string \<times> string) list" where
  "healthz = [(''status'', ''ok'')]"

text \<open>
  The answer and its status code. Whether the two queries succeed is the database's answer, and
  \<open>scheduler is None\<close> an argument; the rendered exception is left out of the reason.
\<close>

definition readyz :: "bool \<Rightarrow> startup_recovery_gate \<Rightarrow> bool \<Rightarrow> int \<times> (string \<times> string) list" where
  "readyz database_answers gate has_scheduler =
     (if \<not> database_answers
      then (503, [(''status'', ''unavailable''), (''code'', ''DB_UNAVAILABLE''),
                  (''reason'', ''Database unreachable or unmigrated: '')])
      else if \<not> allows_new_work gate
      then (503, [(''status'', ''unavailable''), (''code'', ''NOT_READY''), (''reason'', ''Recovery not yet converged'')])
      else if \<not> has_scheduler
      then (503, [(''status'', ''unavailable''), (''code'', ''RUNTIME_UNHEALTHY''), (''reason'', ''Scheduler runtime unavailable'')])
      else (200, [(''status'', ''ready'')]))"

section \<open>The routes and their guards\<close>

text \<open>What the process is built with: its libraries, its credentials and its gate.\<close>

record ('b, 'd) control_plane =
  app_library :: "'b boundary_library"
  app_py_str :: "pyval \<Rightarrow> string"
  app_sha256 :: "string \<Rightarrow> 'd"
  app_authority :: "'d runtime_security_authority"
  app_gate :: startup_recovery_gate

text \<open>The requests of the routers, with the payloads pydantic has admitted.\<close>

datatype 'b request =
    PostDefinition string 'b "string option"
  | GetDefinition definition_id
  | PostExecution create_execution_request "string option"
  | GetExecution workflow_execution_id
  | GetTasks workflow_execution_id
  | GetHistory workflow_execution_id nat
  | PostCancellation workflow_execution_id
  | PostWorker worker_registration_request
  | PostHeartbeat worker_heartbeat_request
  | PostPoll worker_poll_request
  | PostStart worker_start_ack_request
  | PostCallback worker_callback_request

datatype reply =
    DefinitionReply definition_response
  | ExecutionReply execution_response
  | TasksReply "task_execution_response list"
  | HistoryReply "history_entry_response list"
  | WorkerReply worker_registration_response
  | HeartbeatReply worker_heartbeat_response
  | PollReply worker_poll_response
  | StartReply worker_start_ack_response
  | CallbackReply worker_callback_response

text \<open>\<open>Depends(require_permission(...))\<close> and \<open>Depends(require_worker_domain_auth)\<close>: the guard first.\<close>

definition behind_permission ::
  "('b, 'd) control_plane \<Rightarrow> public_permission \<Rightarrow> string option \<Rightarrow> (http_exn, reply) proc_raising \<Rightarrow> (http_exn, reply) proc_raising" where
  "behind_permission app permission authorization route =
     bindP (liftP (require_permission (app_sha256 app) (app_authority app) permission authorization)) (\<lambda>_. route)"

definition behind_worker_domain ::
  "('b, 'd) control_plane \<Rightarrow> string option \<Rightarrow> (http_exn, reply) proc_raising \<Rightarrow> (http_exn, reply) proc_raising" where
  "behind_worker_domain app authorization route =
     bindP (liftP (require_worker_domain_auth (app_sha256 app) (app_authority app) authorization)) (\<lambda>_. route)"

definition replying :: "('a \<Rightarrow> reply) \<Rightarrow> (http_exn, 'a) proc_raising \<Rightarrow> (http_exn, reply) proc_raising" where
  "replying f route = bindP route (\<lambda>x. returnP (f x))"

fun serve :: "('b, 'd) control_plane \<Rightarrow> string option \<Rightarrow> 'b request \<Rightarrow> (http_exn, reply) proc_raising" where
  "serve app auth (PostDefinition content_type body key) = behind_permission app DEFINITIONS_WRITE auth
     (replying DefinitionReply (register_definition (app_library app) (app_gate app) content_type body key))"
| "serve app auth (GetDefinition d) = behind_permission app DEFINITIONS_READ auth
     (replying DefinitionReply (get_definition_route d))"
| "serve app auth (PostExecution payload key) = behind_permission app EXECUTIONS_START auth
     (replying ExecutionReply
       (start_execution (app_py_str app) (lib_sha256_hex (app_library app)) (app_gate app) payload key))"
| "serve app auth (GetExecution wid) = behind_permission app EXECUTIONS_READ auth (replying ExecutionReply (get_execution wid))"
| "serve app auth (GetTasks wid) = behind_permission app EXECUTIONS_READ auth (replying TasksReply (list_tasks wid))"
| "serve app auth (GetHistory wid limit) = behind_permission app EXECUTIONS_READ auth (replying HistoryReply (list_history wid limit))"
| "serve app auth (PostCancellation wid) = behind_permission app EXECUTIONS_CANCEL auth (replying ExecutionReply (cancel_execution wid))"
| "serve app auth (PostWorker payload) = behind_worker_domain app auth (replying WorkerReply (register_worker_route payload))"
| "serve app auth (PostHeartbeat payload) = behind_worker_domain app auth (replying HeartbeatReply (heartbeat_worker_route payload))"
| "serve app auth (PostPoll payload) = behind_worker_domain app auth (replying PollReply (poll_work payload))"
| "serve app auth (PostStart payload) = behind_worker_domain app auth (replying StartReply (acknowledge_start payload))"
| "serve app auth (PostCallback payload) = behind_worker_domain app auth (replying CallbackReply (report_callback payload))"

text \<open>What the client receives: the reply, or the envelope the exception handlers make.\<close>

definition answer ::
  "('b, 'd) control_plane \<Rightarrow> string option \<Rightarrow> string option \<Rightarrow> 'b request \<Rightarrow> environment \<Rightarrow> world \<Rightarrow> (json_response + reply) \<times> world" where
  "answer app request_id auth r E w = (case serve app auth r E w of
       (Inl e, w') \<Rightarrow> (Inl (error_response request_id e), w')
     | (Inr reply, w') \<Rightarrow> (Inr reply, w'))"

text \<open>Requests one after the other, each with its own other coroutines.\<close>

fun answer_all :: "('b, 'd) control_plane \<Rightarrow> (environment \<times> string option \<times> 'b request) list \<Rightarrow> world \<Rightarrow> world" where
  "answer_all app [] w = w"
| "answer_all app ((E, auth, r) # rs) w = answer_all app rs (snd (answer app None auth r E w))"

section \<open>Every request keeps the store reachable and the queues backed\<close>

text \<open>What a Python dictionary is: its keys are distinct.\<close>

definition library_ok :: "'b boundary_library \<Rightarrow> bool" where
  "library_ok lib \<longleftrightarrow> (\<forall>v dto. lib_validate_definition lib v = Inr dto \<longrightarrow> dto_wf dto)"

lemma admitted_spec_ok:
  assumes "library_ok lib" and "admitted_definition lib ct body = Inr (yaml, spec, fp)"
  shows "spec_ok spec"
proof -
  from assms(2) obtain parsed dto candidate where dto: "structured_definition lib parsed = Inr dto"
    and c: "normalize_workflow_dto dto = Inr candidate" and v: "validated_definition candidate = Inr spec"
    unfolding admitted_definition_def bindE_eq_Inr by (elim exE conjE) simp
  have "dto_wf dto" using dto assms(1) by (auto simp: structured_definition_def library_ok_def split: sum.splits)
  from normalize_candidate_wf [OF c this] have "candidate_wf candidate" by simp
  moreover obtain out r where "validate default_validator candidate = Inr out" "vo_success out = Some r" "spec = vdr_spec r"
    using v unfolding validated_definition_def bindE_eq_Inr embedE_eq_Inr
    by (elim exE conjE) (simp split: option.splits if_splits)
  ultimately show ?thesis using validate_success_iff(2) by blast
qed

lemma triple_register_definition:
  assumes "library_ok lib"
  shows "triple (\<lambda>_. True) (register_definition lib gate ct body key) (\<lambda>_ _. True)"
  unfolding register_definition_def
proof (rule triple_if [OF triple_raiseP], rule triple_bindP [OF triple_liftP], rule triple_assume)
  fix x assume x: "admitted_definition lib (py_lower ct) body = Inr x"
  obtain yaml spec fp where y: "x = (yaml, spec, fp)" by (cases x)
  note ok = admitted_spec_ok [OF assms x [unfolded y]]
  have "neutral (transactP (\<lambda>s. embedE (commit_registered_definition d (vs_workflow_name spec) spec (Some yaml) k f now s)))" for d k f now
    by (rule neutral_transactP) (auto dest!: step_register [OF ok])
  then show "triple (\<lambda>_. True) (case x of (raw_yaml, spec, fingerprint) \<Rightarrow>
        bindP clockP (\<lambda>now_utc. bindP uuidP (\<lambda>new_def_id.
        bindP (liftP (embedE (typed_key key))) (\<lambda>key.
        bindP (transactP (\<lambda>s. embedE (commit_registered_definition new_def_id (vs_workflow_name spec) spec (Some raw_yaml) key
                 (map_option (\<lambda>_. fingerprint) key) now_utc s))) (\<lambda>(outcome, resulting_id).
        if co_status outcome = PRECONDITION_FAILED
        then raiseP (api_error 409 ''IDEMPOTENCY_CONFLICT''
               ''Idempotency key was previously used with different definition semantics.'')
        else returnP \<lparr>dfr_definition_id = resulting_id, dfr_workflow_name = vs_workflow_name spec,
                      dfr_spec_version = ''v1'', dfr_created_at_utc = now_utc\<rparr>))))) (\<lambda>_ _. True)"
    unfolding y prod.case by (intro triple_neutral neutrals)
qed

lemma backed_registration: "backed s rg \<Longrightarrow> register_worker sid m now wid caps acc rg = (r, rg') \<Longrightarrow> backed s rg'"
  by (auto simp: register_worker_def backed_def Let_def split: if_splits)

lemma backed_heartbeat: "backed s rg \<Longrightarrow> heartbeat_worker sid acc m now rg = (ok, rg') \<Longrightarrow> backed s rg'"
  by (auto simp: heartbeat_worker_def backed_def Let_def split: option.splits)

lemma neutral_worker_registration: "neutral (register_worker_route payload)" "neutral (heartbeat_worker_route beat)"
  unfolding register_worker_route_def heartbeat_worker_route_def
  by (intro neutrals neutral_registryP; (erule backed_registration backed_heartbeat, assumption)?)+

lemma neutral_reading:
  "neutral (get_definition_route d)" "neutral (get_execution wid)" "neutral (list_tasks wid)" "neutral (list_history wid limit)"
  unfolding get_definition_route_def get_execution_def list_tasks_def list_history_def by (intro neutrals)+

lemma env_replying: "env_triple E P m (\<lambda>_ _. True) \<Longrightarrow> env_triple E P (replying f m) (\<lambda>_ _. True)"
  unfolding replying_def by (erule env_bindP) (simp add: env_triple_def returnP_def)

lemma env_guarded:
  assumes "env_triple E P m Q"
  shows "env_triple E P (behind_permission app p auth m) Q" "env_triple E P (behind_worker_domain app auth m) Q"
  unfolding behind_permission_def behind_worker_domain_def
  by (rule env_bindP [OF env_liftP], rule env_assume, rule assms)+

lemma env_any: "others_deliver E \<Longrightarrow> triple (\<lambda>_. True) m Q \<Longrightarrow> env_triple E P m (\<lambda>_ _. True)"
  by (rule env_post, erule env_weaken [OF env_triple_of], simp_all)

lemma env_serve:
  assumes "library_ok (app_library app)" and "others_deliver E" and "others_draw_fresh E"
  shows "env_triple E (unclaimed E) (serve app auth r) (\<lambda>_ _. True)"
proof -
  note any = env_any [OF assms(2)] and neutral = triple_neutral [of _ "\<lambda>_. True"]
  show ?thesis
    by (cases r; simp only: serve.simps; intro env_guarded env_replying)
      (rule env_post [OF env_start_execution [OF assms(2,3)]] any [OF triple_register_definition [OF assms(1)]]
         any [OF triple_cancel_execution] any [OF triple_poll_work] any [OF triple_acknowledge] any [OF triple_report_callback]
         any [OF neutral [OF neutral_reading(1)]] any [OF neutral [OF neutral_reading(2)]] any [OF neutral [OF neutral_reading(3)]]
         any [OF neutral [OF neutral_reading(4)]] any [OF neutral [OF neutral_worker_registration(1)]]
         any [OF neutral [OF neutral_worker_registration(2)]], simp?)+
qed

text \<open>
  What is asked of the environment of each request in a run: the other coroutines transact, keep
  deliveries backed and never use an identifier the request will draw from \<open>uuid4()\<close>.
\<close>

fun undisturbed :: "('b, 'd) control_plane \<Rightarrow> (environment \<times> string option \<times> 'b request) list \<Rightarrow> world \<Rightarrow> bool" where
  "undisturbed app [] w \<longleftrightarrow> True"
| "undisturbed app ((E, auth, r) # rs) w \<longleftrightarrow> others_deliver E \<and> others_draw_fresh E \<and> unclaimed E (w_db w) \<and>
     undisturbed app rs (snd (answer app None auth r E w))"

lemma answer_world: "snd (answer app request_id auth r E w) = snd (serve app auth r E w)"
  by (simp add: answer_def split: prod.split sum.split)

lemma answer_good:
  assumes "library_ok (app_library app)" and "others_deliver E" and "others_draw_fresh E" and "unclaimed E (w_db w)" and "good w"
  shows "good (snd (answer app request_id auth r E w))"
  using env_serve [OF assms(1-3)] assms(4,5) unfolding env_triple_def answer_world by blast

text \<open>
  C2. The running service: from an empty database and a registry without queues, after any
  requests with any credentials, each interleaved at its await points with others that do the same,
  whether answered or rejected, the store is one the transactions reach, it satisfies the lifecycle
  invariant, and every assignment queued for a worker is backed by the store.
\<close>

theorem service_keeps_its_invariants:
  assumes "library_ok (app_library app)" and "w_db w = empty_db" and "rg_delivery_queues (w_registry w) = []"
    and "undisturbed app rs w"
  shows "reachable (w_db (answer_all app rs w)) \<and> lifecycle_ok (w_db (answer_all app rs w)) \<and>
     backed (w_db (answer_all app rs w)) (w_registry (answer_all app rs w))"
proof -
  have "good w \<Longrightarrow> undisturbed app rs w \<Longrightarrow> good (answer_all app rs w)" for w
  proof (induction rs arbitrary: w)
    case (Cons x rs)
    obtain E auth r where x: "x = (E, auth, r)" by (cases x)
    from Cons.prems have "good (snd (answer app None auth r E w))" by (intro answer_good [OF assms(1)]) (simp_all add: x)
    with Cons show ?case by (simp add: x)
  qed simp
  moreover have "good w" using assms(2,3) by (simp add: good_def backed_def reachable_empty)
  ultimately have "good (answer_all app rs w)" using assms(4) by blast
  then show ?thesis using reachable_lifecycle by (simp add: good_def)
qed

section \<open>A run\<close>

text \<open>A worker registers, a client registers the sample definition, and starts it.\<close>

definition sample_app :: "(string, string) control_plane" where
  "sample_app = \<lparr>app_library = \<lparr>lib_json_wrapper = Inr, lib_decode_utf8 = Some,
       lib_yaml_compose = (\<lambda>_. Some (Some (MappingNode \<lparr>nm_anchor = None, nm_is_alias = False\<rparr> []))),
       lib_yaml_load = (\<lambda>_. Some (PyDict [])), lib_validate_definition = (\<lambda>_. Inr sample_dto),
       lib_dumps = (\<lambda>_. Inr []), lib_sha256_hex = (\<lambda>_. replicate 64 CHR ''0'')\<rparr>,
     app_py_str = (\<lambda>_. []), app_sha256 = (\<lambda>t. t),
     app_authority = from_settings (\<lambda>t. t) \<lparr>ss_public_tokens = ''public'', ss_worker_token = ''worker''\<rparr>,
     app_gate = \<lparr>recovery_completed = True\<rparr>\<rparr>"

definition sample_requests :: "(string option \<times> string request) list" where
  "sample_requests =
     [(Some ''Bearer worker'', PostWorker \<lparr>wq_worker_id = ''w'', wq_capabilities = [''act''], wq_client_version = ''1''\<rparr>),
      (Some ''Bearer public'', PostDefinition ''application/yaml'' ''name: w'' None),
      (Some ''Bearer wrong'', PostCancellation 1),
      (Some ''Bearer public'', PostExecution (sample_start\<lparr>cer_definition_id := 205\<rparr>) None)]"

lemma undisturbed_idle:
  "list_all (\<lambda>k. db_idempotency (w_db (answer_all app (map (Pair idle_environment) (take k rs)) w)) = []) [0..<length rs] \<Longrightarrow>
     undisturbed app (map (Pair idle_environment) rs) w"
proof (induction rs arbitrary: w)
  case (Cons x rs)
  obtain auth r where x: "x = (auth, r)" by (cases x)
  have at: "db_idempotency (w_db (answer_all app (map (Pair idle_environment) (take k ((auth, r) # rs))) w)) = []"
    if "k \<le> length rs" for k
    using Cons.prems that by (simp add: list_all_iff x del: upt_Suc)
  from at [of 0] at [of "Suc k" for k] have "db_idempotency (w_db w) = []"
    and "list_all (\<lambda>k. db_idempotency (w_db (answer_all app (map (Pair idle_environment) (take k rs))
      (snd (answer app None auth r idle_environment w)))) = []) [0..<length rs]"
    by (simp_all add: list_all_iff)
  with Cons.IH show ?case
    using idle_delivers idle_draws_fresh by (simp add: x unclaimed_def)
qed simp

text \<open>The first three requests leave the definition the fourth one starts.\<close>

lemma sample_requests_run:
  "map dr_definition_id (db_definitions (w_db (answer_all sample_app (map (Pair idle_environment) (take 3 sample_requests)) (idle_world empty_db)))) = [205]"
  by code_simp

lemma sample_requests_undisturbed: "undisturbed sample_app (map (Pair idle_environment) sample_requests) (idle_world empty_db)"
  by (rule undisturbed_idle) code_simp

lemma sample_library_ok: "library_ok (app_library sample_app)"
proof -
  have "dto_wf sample_dto" by code_simp
  then show ?thesis by (simp add: library_ok_def sample_app_def)
qed

theorem service_keeps_its_invariants_witness:
  "lifecycle_ok (w_db (answer_all sample_app (map (Pair idle_environment) sample_requests) (idle_world empty_db)))"
proof -
  have "rg_delivery_queues (w_registry (idle_world empty_db)) = []" "w_db (idle_world empty_db) = empty_db"
    by (simp_all add: idle_world_def new_registry_def)
  then show ?thesis
    using service_keeps_its_invariants [OF sample_library_ok _ _ sample_requests_undisturbed] by simp
qed

end
