(* ===== verification/Deployed_Schema.thy ===== *)
theory Deployed_Schema
  imports Static_Tables Sample_Run
begin

text \<open>
  The schema the service runs on, \<open>migrations/versions/20260909_0001_initial_schema.py\<close>. It is
  stricter than the tables of \<open>persistence/orm.py\<close> that \<open>Store\<close> models: two \<open>CHECK\<close> constraints
  exist only here, and its \<open>INTEGER\<close> columns have 32 bits. The store of the model checks its
  statements by the constraints of \<open>orm.py\<close>; this theory shows that whatever transactions commit
  there also satisfies the stricter schema of the deployed database.
\<close>

section \<open>The migration\<close>

text \<open>The statements of \<open>upgrade\<close> and \<open>downgrade\<close> on tables: a name with the tables it refers to.\<close>

datatype ddl = CreateTable string "string list" | DropTable string

type_synonym catalog = "(string \<times> string list) list"

definition upgrade :: "ddl list" where
  "upgrade =
     [CreateTable ''registered_definitions'' [],
      CreateTable ''workflow_executions'' [''registered_definitions''],
      CreateTable ''task_executions'' [''workflow_executions''],
      CreateTable ''execution_attempts'' [''task_executions''],
      CreateTable ''history_entries'' [''workflow_executions'', ''task_executions'', ''execution_attempts''],
      CreateTable ''idempotency_records'' []]"

definition downgrade :: "ddl list" where
  "downgrade =
     [DropTable ''idempotency_records'', DropTable ''history_entries'', DropTable ''execution_attempts'',
      DropTable ''task_executions'', DropTable ''workflow_executions'', DropTable ''registered_definitions'']"

text \<open>
  PostgreSQL refuses to create a table that exists or that refers to one that does not, and to
  drop one another table refers to; the migration then fails, which is \<open>None\<close>.
\<close>

fun run_ddl :: "ddl list \<Rightarrow> catalog \<Rightarrow> catalog option" where
  "run_ddl [] c = Some c"
| "run_ddl (CreateTable name refs # ds) c =
     (if name \<in> set (map fst c) \<or> \<not> set refs \<subseteq> set (map fst c) then None
      else run_ddl ds (c @ [(name, refs)]))"
| "run_ddl (DropTable name # ds) c =
     (if name \<notin> set (map fst c) \<or> (\<exists>(other, refs) \<in> set c. other \<noteq> name \<and> name \<in> set refs) then None
      else run_ddl ds (filter (\<lambda>(other, refs). other \<noteq> name) c))"

text \<open>The migration applies to an empty database, and its downgrade undoes it.\<close>

lemma migration_round_trip:
  "run_ddl upgrade [] \<noteq> None \<and> run_ddl (upgrade @ downgrade) [] = Some []"
  by code_simp

section \<open>Columns and checks\<close>

text \<open>\<open>sa.Integer()\<close> is PostgreSQL's 32-bit \<open>INTEGER\<close>.\<close>

definition int4 :: "int \<Rightarrow> bool" where
  "int4 i = (- (2 ^ 31) \<le> i \<and> i < 2 ^ 31)"

fun jsonb_typeof :: "pyval \<Rightarrow> string" where
  "jsonb_typeof PyNone = ''null''"
| "jsonb_typeof (PyBool b) = ''boolean''"
| "jsonb_typeof (PyInt i) = ''number''"
| "jsonb_typeof (PyFloat f) = ''number''"
| "jsonb_typeof (PyStr s) = ''string''"
| "jsonb_typeof (PyList xs) = ''array''"
| "jsonb_typeof (PyTuple xs) = ''array''"
| "jsonb_typeof (PyDict es) = ''object''"
| "jsonb_typeof (PyProxy es) = ''object''"
| "jsonb_typeof (PyOther t) = []"

text \<open>The logic of SQL, where \<open>None\<close> is \<open>NULL\<close>; a \<open>CHECK\<close> rejects only what is false.\<close>

fun sql_or :: "bool option \<Rightarrow> bool option \<Rightarrow> bool option" where
  "sql_or (Some True) b = Some True"
| "sql_or (Some False) b = b"
| "sql_or None b = (if b = Some True then Some True else None)"

fun sql_and :: "bool option \<Rightarrow> bool option \<Rightarrow> bool option" where
  "sql_and (Some True) b = b"
| "sql_and (Some False) b = Some False"
| "sql_and None b = (if b = Some False then Some False else None)"

definition sql_check :: "bool option \<Rightarrow> bool" where
  "sql_check c = (c \<noteq> Some False)"

definition migrated_definition_row :: "definition_row \<Rightarrow> bool" where
  "migrated_definition_row r = (dr_validated_iws r \<noteq> None \<and> list_ex (\<lambda>c. c \<noteq> CHR '' '') (dr_workflow_name r))"

definition migrated_workflow_row :: "workflow_row \<Rightarrow> bool" where
  "migrated_workflow_row r = (int4 (wx_revision r) \<and> wx_input r \<noteq> None \<and> wx_revision r \<ge> 1 \<and>
     presence_ok (wx_has_output r) (wx_output r) \<and>
     (wx_state r \<noteq> WF_SUCCEEDED \<or> wx_has_output r))"

definition chk_task_stable_input_established :: "task_row \<Rightarrow> bool" where
  "chk_task_stable_input_established r = sql_check (sql_or
     (Some (tx_state r \<notin> {TS_RUNNABLE, TS_RUNNING, TS_RETRY_WAIT, TS_SUCCEEDED, TS_FAILED}))
     (sql_and (Some (tx_has_input r)) (map_option (\<lambda>v. jsonb_typeof v = ''object'') (tx_stable_input r))))"

definition chk_task_retry_wait_deadline :: "task_row \<Rightarrow> bool" where
  "chk_task_retry_wait_deadline r = (tx_state r \<noteq> TS_RETRY_WAIT \<or> tx_retry_ready_at_utc r \<noteq> None)"

definition migrated_task_row :: "task_row \<Rightarrow> bool" where
  "migrated_task_row r = (int4 (tx_revision r) \<and> int4 (tx_max_attempts r) \<and> int4 (tx_next_attempt_ordinal r) \<and>
     tx_revision r \<ge> 1 \<and> tx_max_attempts r \<ge> 1 \<and> tx_next_attempt_ordinal r \<ge> 1 \<and>
     presence_ok (tx_has_input r) (tx_stable_input r) \<and>
     chk_task_stable_input_established r \<and>
     presence_ok (tx_has_output r) (tx_output r) \<and>
     (tx_state r \<noteq> TS_SUCCEEDED \<or> tx_has_output r) \<and>
     chk_task_retry_wait_deadline r)"

definition migrated_attempt_row :: "attempt_row \<Rightarrow> bool" where
  "migrated_attempt_row r = (int4 (ax_ordinal r) \<and> int4 (ax_revision r) \<and> ax_ordinal r \<ge> 1 \<and> ax_revision r \<ge> 1)"

definition migrated_idempotency_row :: "idempotency_row \<Rightarrow> bool" where
  "migrated_idempotency_row r = (ix_operation_type r \<in> {''REGISTER_DEFINITION'', ''START_EXECUTION''} \<and>
     length (ix_request_fingerprint r) = 64)"

definition history_refs :: "db \<Rightarrow> history_row \<Rightarrow> bool" where
  "history_refs s h = (hx_workflow_id h \<in> set (map wx_id (db_workflows s)) \<and>
     (case hx_task_id h of None \<Rightarrow> True | Some t \<Rightarrow> t \<in> set (map tx_id (db_tasks s))) \<and>
     (case hx_attempt_id h of None \<Rightarrow> True | Some a \<Rightarrow> a \<in> set (map ax_id (db_attempts s))))"

text \<open>Everything the migrated database demands of its six tables.\<close>

definition migrated_store :: "db \<Rightarrow> bool" where
  "migrated_store s = (
     distinct (map dr_definition_id (db_definitions s)) \<and> list_all migrated_definition_row (db_definitions s) \<and>
     distinct (map wx_id (db_workflows s)) \<and> list_all migrated_workflow_row (db_workflows s) \<and>
     list_all (\<lambda>w. wx_definition_id w \<in> set (map dr_definition_id (db_definitions s))) (db_workflows s) \<and>
     distinct (map tx_id (db_tasks s)) \<and> distinct (map task_key (db_tasks s)) \<and>
     list_all migrated_task_row (db_tasks s) \<and>
     list_all (\<lambda>t. tx_workflow_id t \<in> set (map wx_id (db_workflows s))) (db_tasks s) \<and>
     distinct (map ax_id (db_attempts s)) \<and> distinct (map attempt_key (db_attempts s)) \<and>
     distinct (active_attempt_tasks (db_attempts s)) \<and> list_all migrated_attempt_row (db_attempts s) \<and>
     list_all (\<lambda>a. ax_task_id a \<in> set (map tx_id (db_tasks s))) (db_attempts s) \<and>
     distinct (map hx_id (db_history s)) \<and> list_all (history_refs s) (db_history s) \<and>
     distinct (map idempotency_key_of (db_idempotency s)) \<and> list_all migrated_idempotency_row (db_idempotency s))"

section \<open>What the transactions keep beyond the checks of the model\<close>

text \<open>The revision of a row counts its moves, so the state and the ordinal determine or bound it.\<close>

fun workflow_moves :: "workflow_state \<Rightarrow> int" where
  "workflow_moves WF_INITIALIZING = 1"
| "workflow_moves WF_RUNNING = 2"
| "workflow_moves WF_FAILING = 3"
| "workflow_moves WF_CANCELLING = 3"
| "workflow_moves _ = 4"

fun attempt_moves :: "attempt_state \<Rightarrow> int" where
  "attempt_moves AS_CLAIMED = 1"
| "attempt_moves AS_RUNNING = 2"
| "attempt_moves _ = 3"

fun task_moves :: "task_state \<Rightarrow> int \<Rightarrow> int" where
  "task_moves TS_PENDING n = 1"
| "task_moves TS_RUNNABLE n = 3 * n - 1"
| "task_moves TS_RUNNING n = 3 * n - 3"
| "task_moves TS_CANCELLED n = 3 * n"
| "task_moves _ n = 3 * n - 2"

definition workflow_fits :: "workflow_row \<Rightarrow> bool" where
  "workflow_fits r \<longleftrightarrow> wx_revision r \<le> workflow_moves (wx_state r)"

definition attempt_fits :: "attempt_row \<Rightarrow> bool" where
  "attempt_fits r \<longleftrightarrow> ax_revision r \<le> attempt_moves (ax_state r)"

definition task_fits :: "task_row \<Rightarrow> bool" where
  "task_fits r \<longleftrightarrow> tx_next_attempt_ordinal r \<ge> 1 \<and>
     tx_revision r \<le> task_moves (tx_state r) (tx_next_attempt_ordinal r) \<and>
     (tx_state r \<notin> {TS_PENDING, TS_CANCELLED} \<longrightarrow> (\<exists>es. tx_stable_input r = Some (PyDict es))) \<and>
     (tx_state r = TS_RETRY_WAIT \<longrightarrow> tx_retry_ready_at_utc r \<noteq> None)"

definition schema_inv :: "db \<Rightarrow> bool" where
  "schema_inv s \<longleftrightarrow> (\<forall>w \<in> set (db_workflows s). workflow_fits w) \<and> (\<forall>t \<in> set (db_tasks s). task_fits t) \<and>
     (\<forall>a \<in> set (db_attempts s). attempt_fits a) \<and> (\<forall>h \<in> set (db_history s). history_refs s h)"

lemmas row_fits = workflow_fits_def task_fits_def attempt_fits_def

abbreviation keeps_schema :: "py_exn + db \<times> 'a \<Rightarrow> bool" where
  "keeps_schema m \<equiv> post m (\<lambda>r. schema_inv (fst r))"

section \<open>Statements\<close>

lemma history_refs_mono:
  "history_refs s h \<Longrightarrow> set (map wx_id (db_workflows s)) \<subseteq> set (map wx_id (db_workflows s')) \<Longrightarrow>
     set (map tx_id (db_tasks s)) \<subseteq> set (map tx_id (db_tasks s')) \<Longrightarrow>
     set (map ax_id (db_attempts s)) \<subseteq> set (map ax_id (db_attempts s')) \<Longrightarrow> history_refs s' h"
  unfolding history_refs_def by (auto split: option.splits)

lemma history_refs_frame [simp]:
  "history_refs (s\<lparr>db_history := hs\<rparr>) = history_refs s" "history_refs (s\<lparr>db_idempotency := is\<rparr>) = history_refs s"
  "history_refs (s\<lparr>db_definitions := ds\<rparr>) = history_refs s"
  by (rule ext, simp add: history_refs_def split: option.split)+

lemma schema_inv_statement:
  assumes "schema_inv s"
    and "\<And>w. w \<in> set (db_workflows s') \<Longrightarrow> workflow_fits w" and "\<And>t. t \<in> set (db_tasks s') \<Longrightarrow> task_fits t"
    and "\<And>a. a \<in> set (db_attempts s') \<Longrightarrow> attempt_fits a"
    and "set (map wx_id (db_workflows s)) \<subseteq> set (map wx_id (db_workflows s'))"
    and "set (map tx_id (db_tasks s)) \<subseteq> set (map tx_id (db_tasks s'))"
    and "set (map ax_id (db_attempts s)) \<subseteq> set (map ax_id (db_attempts s'))"
    and "\<And>h. h \<in> set (db_history s') \<Longrightarrow> h \<notin> set (db_history s) \<Longrightarrow> history_refs s' h"
  shows "schema_inv s'"
  unfolding schema_inv_def
  using assms(2-4,8) history_refs_mono [OF _ assms(5-7)] assms(1) unfolding schema_inv_def by blast

lemma schema_parts:
  assumes "schema_inv s"
  shows "\<And>w. w \<in> set (db_workflows s) \<Longrightarrow> workflow_fits w" and "\<And>t. t \<in> set (db_tasks s) \<Longrightarrow> task_fits t"
    and "\<And>a. a \<in> set (db_attempts s) \<Longrightarrow> attempt_fits a" and "\<And>h. h \<in> set (db_history s) \<Longrightarrow> history_refs s h"
  using assms unfolding schema_inv_def by blast+

lemma schema_ret: "schema_inv s \<Longrightarrow> keeps_schema (Inr (s, c))"
  by (simp add: post_Inr)

lemma schema_update_workflows:
  assumes "update_workflows P f s = Inr (s1, n)" and "schema_inv s" and "\<And>r. wx_id (f r) = wx_id r"
    and "\<And>r. r \<in> set (db_workflows s) \<Longrightarrow> workflow_fits r \<Longrightarrow> P r \<Longrightarrow> workflow_fits (f r)"
  shows "schema_inv s1"
proof -
  have s1: "s1 = s\<lparr>db_workflows := update_rows P f (db_workflows s)\<rparr>" using assms(1) by (simp add: db_stmt)
  show ?thesis
    by (rule schema_inv_statement [OF assms(2)])
      (use assms(3,4) schema_parts [OF assms(2)] in \<open>auto simp: s1 set_update_rows map_key_update_rows image_iff\<close>)
qed

lemma schema_update_tasks:
  assumes "update_tasks P f s = Inr (s1, n)" and "schema_inv s" and "\<And>r. tx_id (f r) = tx_id r"
    and "\<And>r. task_fits r \<Longrightarrow> P r \<Longrightarrow> task_fits (f r)"
  shows "schema_inv s1"
proof -
  have s1: "s1 = s\<lparr>db_tasks := update_rows P f (db_tasks s)\<rparr>" using assms(1) by (simp add: db_stmt)
  show ?thesis
    by (rule schema_inv_statement [OF assms(2)])
      (use assms(3,4) schema_parts [OF assms(2)] in \<open>auto simp: s1 set_update_rows map_key_update_rows image_iff\<close>)
qed

lemma schema_update_attempts:
  assumes "update_attempts P f s = Inr (s1, n)" and "schema_inv s" and "\<And>r. ax_id (f r) = ax_id r"
    and "\<And>r. attempt_fits r \<Longrightarrow> P r \<Longrightarrow> attempt_fits (f r)"
  shows "schema_inv s1"
proof -
  have s1: "s1 = s\<lparr>db_attempts := update_rows P f (db_attempts s)\<rparr>" using assms(1) by (simp add: db_stmt)
  show ?thesis
    by (rule schema_inv_statement [OF assms(2)])
      (use assms(3,4) schema_parts [OF assms(2)] in \<open>auto simp: s1 set_update_rows map_key_update_rows image_iff\<close>)
qed

lemma schema_workflows:
  "schema_inv s \<Longrightarrow> (\<And>r. wx_id (f r) = wx_id r) \<Longrightarrow> (\<And>r. workflow_fits r \<Longrightarrow> P r \<Longrightarrow> workflow_fits (f r)) \<Longrightarrow>
     (\<And>s1 n. schema_inv s1 \<Longrightarrow> post (g s1 n) Q) \<Longrightarrow> post (bindE (update_workflows P f s) (\<lambda>(s1, n). g s1 n)) Q"
  by (rule post_step2) (blast intro: schema_update_workflows)

lemma schema_tasks:
  "schema_inv s \<Longrightarrow> (\<And>r. tx_id (f r) = tx_id r) \<Longrightarrow> (\<And>r. task_fits r \<Longrightarrow> P r \<Longrightarrow> task_fits (f r)) \<Longrightarrow>
     (\<And>s1 n. schema_inv s1 \<Longrightarrow> post (g s1 n) Q) \<Longrightarrow> post (bindE (update_tasks P f s) (\<lambda>(s1, n). g s1 n)) Q"
  by (rule post_step2) (blast intro: schema_update_tasks)

lemma schema_attempts:
  "schema_inv s \<Longrightarrow> (\<And>r. ax_id (f r) = ax_id r) \<Longrightarrow> (\<And>r. attempt_fits r \<Longrightarrow> P r \<Longrightarrow> attempt_fits (f r)) \<Longrightarrow>
     (\<And>s1 n. schema_inv s1 \<Longrightarrow> post (g s1 n) Q) \<Longrightarrow> post (bindE (update_attempts P f s) (\<lambda>(s1, n). g s1 n)) Q"
  by (rule post_step2) (blast intro: schema_update_attempts)

lemma schema_history:
  "schema_inv s \<Longrightarrow> (\<And>s1. schema_inv s1 \<Longrightarrow> post (g s1) Q) \<Longrightarrow> post (bindE (insert_history h s) g) Q"
proof (rule post_step)
  fix s1 assume s: "schema_inv s" and g: "\<And>s1. schema_inv s1 \<Longrightarrow> post (g s1) Q" and "insert_history h s = Inr s1"
  then have s1: "s1 = s\<lparr>db_history := db_history s @ [h]\<rparr>" and "history_refs s h"
    by (auto simp: insert_history_Inr history_refs_def)
  then have "schema_inv s1"
    by (intro schema_inv_statement [OF s]) (use schema_parts [OF s] in auto)
  then show "post (g s1) Q" by (rule g)
qed

lemma schema_new_attempt:
  "schema_inv s \<Longrightarrow> attempt_fits r \<Longrightarrow> (\<And>s1. schema_inv s1 \<Longrightarrow> post (g s1) Q) \<Longrightarrow> post (bindE (insert_attempt r s) g) Q"
proof (rule post_step)
  fix s1 assume s: "schema_inv s" "attempt_fits r" and g: "\<And>s1. schema_inv s1 \<Longrightarrow> post (g s1) Q" and "insert_attempt r s = Inr s1"
  then have s1: "s1 = s\<lparr>db_attempts := db_attempts s @ [r]\<rparr>" by (auto simp: insert_attempt_Inr)
  have "schema_inv s1"
    by (rule schema_inv_statement [OF s(1)]) (use schema_parts [OF s(1)] s(2) in \<open>auto simp: s1\<close>)
  then show "post (g s1) Q" by (rule g)
qed

lemma schema_new_workflow:
  "schema_inv s \<Longrightarrow> workflow_fits r \<Longrightarrow> (\<And>s1. schema_inv s1 \<Longrightarrow> post (g s1) Q) \<Longrightarrow> post (bindE (insert_workflow r s) g) Q"
proof (rule post_step)
  fix s1 assume s: "schema_inv s" "workflow_fits r" and g: "\<And>s1. schema_inv s1 \<Longrightarrow> post (g s1) Q" and "insert_workflow r s = Inr s1"
  then have s1: "s1 = s\<lparr>db_workflows := db_workflows s @ [r]\<rparr>" by (auto simp: insert_workflow_Inr)
  have "schema_inv s1"
    by (rule schema_inv_statement [OF s(1)]) (use schema_parts [OF s(1)] s(2) in \<open>auto simp: s1\<close>)
  then show "post (g s1) Q" by (rule g)
qed

lemma schema_idempotency:
  "schema_inv s \<Longrightarrow> (\<And>s1 e. schema_inv s1 \<Longrightarrow> post (g s1 e) Q) \<Longrightarrow>
     post (bindE (claim_idempotency_key op key fp res now s) (\<lambda>(s1, e). g s1 e)) Q"
  by (rule post_step2)
    (auto simp: claim_idempotency_key_def insert_idempotency_or_ignore_def bindE_eq_Inr schema_inv_def
      split: option.splits if_splits)

lemmas schema_rules = post_ifI post_optionI schema_ret schema_workflows schema_attempts schema_tasks schema_history
  schema_new_attempt schema_new_workflow schema_idempotency

section \<open>Transactions\<close>

lemmas schema_opaque = post_step [of "failure_details_json _"] post_step [of "document_task_ids _"]

lemma schema_setup:
  "schema_inv s \<Longrightarrow> keeps_schema (commit_workflow_creation hid e key fp now s)"
  "schema_inv s \<Longrightarrow> keeps_schema (commit_initialization_complete hid w rv now s)"
  "schema_inv s \<Longrightarrow> keeps_schema (commit_attempt_ownership hid t rv w ws a dl now s)"
  "schema_inv s \<Longrightarrow> keeps_schema (commit_worker_execution_start hid u a ws arv now s)"
  unfolding commit_workflow_creation_def commit_initialization_complete_def commit_attempt_ownership_def
    commit_worker_execution_start_def Let_def
  by (auto simp: row_fits split del: if_split
      intro!: schema_rules schema_opaque post_step [of "thaw_json _"] split: prod.split)

lemma schema_settle:
  "schema_inv s \<Longrightarrow> keeps_schema (commit_worker_task_success hid a ws arv t trv v now s)"
  "schema_inv s \<Longrightarrow> keeps_schema (commit_worker_failure_with_retry hid a ws arv t trv w ready cause now s)"
  "schema_inv s \<Longrightarrow> keeps_schema (commit_worker_definitive_failure hid a ws arv t trv cause now s)"
  "schema_inv s \<Longrightarrow> keeps_schema (commit_workflow_failure_direction hid w cause now s)"
  "schema_inv s \<Longrightarrow> keeps_schema (commit_workflow_cancellation_direction hid w now s)"
  "schema_inv s \<Longrightarrow> keeps_schema (commit_workflow_success hid w rv v now s)"
  unfolding commit_worker_task_success_def commit_worker_failure_with_retry_def commit_worker_definitive_failure_def
    commit_workflow_failure_direction_def commit_workflow_cancellation_direction_def commit_workflow_success_def
    fail_owned_attempt_def fail_task_def bindE_assoc Let_def
  by (auto simp: row_fits split del: if_split intro!: schema_rules schema_opaque post_step [of "thaw_json _"])

text \<open>A mapping is stored as an object, so readiness establishes the input the schema asks for.\<close>

lemma thaw_json_object: "json_object v \<Longrightarrow> thaw_json v = Inr p \<Longrightarrow> \<exists>es. jsonb p = Some (PyDict es)"
  by (auto simp: json_object_def jsonb_def bindE_eq_Inr split: pyval.splits)

lemma schema_readiness:
  assumes "schema_inv s" and "json_object v"
  shows "keeps_schema (commit_task_readiness hid t rv w v now s)"
  unfolding commit_task_readiness_def Let_def
proof (rule post_ifI, rule schema_ret [OF assms(1)], rule post_step)
  fix p assume "thaw_json v = Inr p"
  from thaw_json_object [OF assms(2) this] obtain es where p: "jsonb p = Some (PyDict es)" ..
  show "keeps_schema (bindE (update_tasks
                 (\<lambda>r. tx_id r = t \<and> tx_workflow_id r = w \<and> tx_state r = TS_PENDING \<and> tx_revision r = rv)
                 (\<lambda>r. r\<lparr>tx_state := TS_RUNNABLE, tx_has_input := True, tx_stable_input := jsonb p,
                        tx_revision := tx_revision r + 1, tx_updated_at_utc := now\<rparr>) s) (\<lambda>(s1, n).
        if n = 0 then Inr (s1, occ_conflict ''OCC conflict on task readiness'')
        else
          bindE (insert_history (mk_history hid w (Some t) None ''TaskMarkedRunnable''
                   [(''task_id'', PyStr (uuid_str t))] now) s1) (\<lambda>s2.
          Inr (s2, committed))))"
    by (intro schema_rules assms(1)) (simp_all add: row_fits p)
qed

lemma schema_settle_task:
  "schema_inv s \<Longrightarrow> (rt \<Longrightarrow> ready \<noteq> None) \<Longrightarrow> keeps_schema (settle_task_retry_or_fail rt ready t w rv cause now s)"
  unfolding settle_task_retry_or_fail_def fail_task_def bindE_assoc
  by (cases rt; simp; auto simp: row_fits split del: if_split intro!: schema_rules schema_opaque)

lemma schema_settled:
  "schema_inv s \<Longrightarrow> (rt \<Longrightarrow> ready \<noteq> None) \<Longrightarrow> (\<And>s1 x. schema_inv s1 \<Longrightarrow> post (g s1 x) Q) \<Longrightarrow>
     post (bindE (settle_task_retry_or_fail rt ready t w rv cause now s) (\<lambda>(s1, x). g s1 x)) Q"
  by (rule post_step2) (use postD [OF schema_settle_task [of s rt ready]] in fastforce)

lemma schema_drain:
  "schema_inv s \<Longrightarrow> wf_terminal st' \<Longrightarrow> st \<in> {WF_FAILING, WF_CANCELLING} \<Longrightarrow> keeps_schema (settle_drained_workflow st st' c cat hid w rv now s)"
  "schema_inv s \<Longrightarrow> keeps_schema (commit_drain_task_cancellation hid t rv now s)"
  "schema_inv s \<Longrightarrow> keeps_schema (cancel_active_attempt extra m1 m2 cat payload hid a arv t trv now s)"
  "schema_inv s \<Longrightarrow> keeps_schema (commit_retry_ready hid t rv w now s)"
  "schema_inv s \<Longrightarrow> post (set_cancellation_deadline a dl s) schema_inv"
  unfolding settle_drained_workflow_def commit_drain_task_cancellation_def cancel_active_attempt_def
    commit_retry_ready_def Let_def
      apply (auto simp: row_fits split del: if_split intro!: schema_rules schema_opaque)[4]
  by (auto simp: set_cancellation_deadline_def bindE_eq_Inr row_fits intro!: postI elim!: schema_update_attempts)

lemma schema_internal_failure:
  "schema_inv s \<Longrightarrow> internal_cause cause \<Longrightarrow>
     keeps_schema (commit_internal_attempt_failure hid a arv t trv cause rt ready lost now s)"
  unfolding commit_internal_attempt_failure_def Let_def
  by (intro schema_rules schema_opaque schema_settled; (assumption | simp)?) (auto dest!: internal_filter_active simp: row_fits)

lemma schema_recover: "lifecycle_ok s \<Longrightarrow> schema_inv s \<Longrightarrow> keeps_schema (recover_initializing w now s)"
  unfolding recover_initializing_def
  by (intro post_ifI schema_ret post_step2; (assumption | erule schema_update_workflows)?)
    (auto simp: row_fits dest: workflow_state_unique)

lemma schema_new_tasks:
  assumes "schema_inv s" and "foldE (\<lambda>(tid, td). insert_task_or_ignore (new_task_row w now tid td)) tds s = Inr s1"
  shows "schema_inv s1"
proof -
  from populate_tasks_Inr [OF assms(2)] obtain new where s1: "s1 = s\<lparr>db_tasks := db_tasks s @ new\<rparr>"
    and new: "\<forall>t \<in> set new. \<exists>(tid, td) \<in> set tds. t = new_task_row w now tid td" by blast
  have "task_fits t" if "t \<in> set new" for t
    using new that by (auto simp: row_fits new_task_row_def)
  then show ?thesis
    by (intro schema_inv_statement [OF assms(1)]) (use schema_parts [OF assms(1)] in \<open>auto simp: s1\<close>)
qed

lemma schema_population: "schema_inv s \<Longrightarrow> keeps_schema (commit_task_population hid w tds now s)"
  unfolding commit_task_population_def Let_def
  by (intro post_ifI schema_ret) (assumption, rule post_step, drule (1) schema_new_tasks, intro schema_history schema_ret)

lemma schema_registration: "schema_inv s \<Longrightarrow> keeps_schema (commit_registered_definition d n spec yaml key fp now s)"
  unfolding commit_registered_definition_def Let_def
  by (intro schema_rules post_step post_step [of "serialize_validated_spec _"]; assumption?)
    (auto simp: db_stmt schema_inv_def wp)

lemma schema_run: "m = Inr (s', x) \<Longrightarrow> keeps_schema m \<Longrightarrow> schema_inv s'"
  by (simp add: post_def)

lemmas schema_transactions = schema_setup schema_settle schema_drain(1-4) schema_readiness schema_internal_failure
  schema_recover schema_population schema_registration

lemma schema_step:
  assumes "db_step s s'" and "lifecycle_ok s" and inv: "schema_inv s"
  shows "schema_inv s'"
  using assms(1)
proof cases
  case step_set_deadline
  with schema_drain(5) [OF inv] show ?thesis by (simp add: post_def)
qed (unfold commit_workflow_failure_def commit_workflow_cancellation_def commit_worker_cancellation_ack_def
    commit_internal_cancellation_deadline_def,
    (erule schema_run, rule schema_transactions; (rule inv | rule assms(2) | assumption | simp))+)

lemma schema_reachable: "reachable s \<Longrightarrow> schema_inv s"
proof (induction rule: reachable.induct)
  case reachable_empty
  show ?case by (simp add: schema_inv_def empty_db_def)
next
  case (reachable_step s s')
  then show ?case using schema_step reachable_lifecycle by blast
qed

section \<open>Every reachable store fits the deployed schema\<close>

text \<open>The revisions and ordinals of a store are small, measured by the budgets of its tasks.\<close>

lemma fitting_workflow: "workflow_fits r \<Longrightarrow> wx_revision r \<le> 4"
  by (cases "wx_state r") (simp_all add: workflow_fits_def)

lemma fitting_attempt: "attempt_fits r \<Longrightarrow> ax_revision r \<le> 3"
  by (cases "ax_state r") (simp_all add: attempt_fits_def)

lemma fitting_task: "task_fits r \<Longrightarrow> tx_revision r \<le> 3 * tx_next_attempt_ordinal r"
  by (cases "tx_state r") (simp_all add: task_fits_def)

lemma input_established:
  "task_fits r \<Longrightarrow> task_inv r \<Longrightarrow> chk_task_stable_input_established r"
  by (cases "tx_state r")
    (auto simp: chk_task_stable_input_established_def sql_check_def task_fits_def task_inv_def)

text \<open>
  C7. Every reachable store is one the deployed database can hold: with budgets within the
  admission limit (100 by default) it satisfies the migrated schema, the two checks that the
  tables of \<open>orm.py\<close> lack, every reference and the 32-bit width of the integer columns included.
\<close>

theorem reachable_stores_fit_deployed_schema:
  assumes "reachable s" and "\<forall>t \<in> set (db_tasks s). tx_max_attempts t \<le> 2 ^ 29"
  shows "migrated_store s"
proof -
  note life = reachable_lifecycle [OF assms(1)] and fits = schema_parts [OF schema_reachable [OF assms(1)]]
  note ok = lifecycle_db_ok [OF life, unfolded db_ok_def list_all_iff]
  have budget: "1 \<le> tx_next_attempt_ordinal t \<and> tx_next_attempt_ordinal t \<le> 2 ^ 29 + 1" if "t \<in> set (db_tasks s)" for t
    using lifecycle_task_inv [OF life that] assms(2) that by (force simp: task_inv_def)
  have "list_all migrated_workflow_row (db_workflows s)"
    using ok fits(1) [THEN fitting_workflow]
    by (force simp: list_all_iff migrated_workflow_row_def workflow_row_ok_def int4_def)
  moreover have "migrated_task_row t" if "t \<in> set (db_tasks s)" for t
  proof -
    have "task_row_ok t" using ok that by blast
    then show ?thesis
      using budget [OF that] fitting_task [OF fits(2) [OF that]] assms(2) that fits(2) [OF that]
        input_established [OF fits(2) [OF that] lifecycle_task_inv [OF life that]]
      by (force simp: migrated_task_row_def task_row_ok_def int4_def chk_task_retry_wait_deadline_def task_fits_def)
  qed
  moreover have "migrated_attempt_row a" if "a \<in> set (db_attempts s)" for a
  proof -
    have "attempts_inv s" using life by (simp add: lifecycle_ok_def)
    from bspec [OF this [unfolded attempts_inv_def] that] obtain t
      where "t \<in> set (db_tasks s)" "ax_ordinal a < tx_next_attempt_ordinal t" by (elim bexE conjE)
    moreover have "attempt_row_ok a" using ok that by blast
    ultimately show ?thesis
      using budget [of t] fitting_attempt [OF fits(3) [OF that]]
      by (simp add: migrated_attempt_row_def attempt_row_ok_def int4_def)
  qed
  moreover have "list_all migrated_definition_row (db_definitions s)" "list_all migrated_idempotency_row (db_idempotency s)"
    using ok by (auto simp: list_all_iff migrated_definition_row_def migrated_idempotency_row_def definition_row_ok_def
        idempotency_row_ok_def)
  ultimately show ?thesis
    using ok fits(4) unfolding migrated_store_def list_all_iff by (intro conjI) simp_all
qed

theorem reachable_stores_fit_deployed_schema_witness: "migrated_store db_succeeded"
proof (rule reachable_stores_fit_deployed_schema [OF reachable_succeeded])
  show "\<forall>t \<in> set (db_tasks db_succeeded). tx_max_attempts t \<le> 2 ^ 29" by code_simp
qed

end
