(* ===== verification/Spec2Isabelle.thy ===== *)
theory Spec2Isabelle
  imports Definition_Properties Store_Properties Workflow_Properties Domain_Properties Stranded Drain_Progress Execution_Rest Control_Plane Deployed_Schema
begin

text \<open>
  A verification library for NexusFlow, a durable workflow engine written in Python
  (\<open>src/src/nexusflow\<close>; file names below are relative to it).

  \<^bold>\<open>The program.\<close> A client registers a workflow definition: a YAML document that names tasks, their
  dependencies, their inputs (literals, the workflow's input, outputs of other tasks) and the
  workflow's outputs. It is parsed, normalised, validated and stored as a JSON document. A client
  then starts executions of it. An execution has one row per task; the scheduler makes a task
  \<open>RUNNABLE\<close> when its dependencies have succeeded, claims it for a registered worker as an attempt,
  and puts an assignment into the worker's queue. The worker polls, acknowledges the start, runs its
  activity and reports success, failure or a cancellation; a failure is retried within the budget or
  turns the workflow to \<open>FAILING\<close>, a request of the client turns it to \<open>CANCELLING\<close>, and a drain
  then cancels what is left. Six PostgreSQL tables are the only authority: every change is a
  transaction of \<open>persistence/transactions.py\<close> that updates rows only at an expected state and
  revision. The registry of workers and the queues live in memory and are lost on a restart, after
  which startup recovery repairs the store.

  \<^bold>\<open>Theories and code\<close>, from the bottom.
  \<^item> \<open>Nexus_Prelude\<close>: exceptions (\<open>py_exn\<close>, \<open>bindE\<close>, \<open>foldE\<close>, \<open>mapE\<close>), dictionaries as
    association lists in insertion order, the automation. \<open>Json_Compat\<close> (\<open>domain/json_compat.py\<close>),
    \<open>Identifiers\<close>, \<open>Domain_Enums\<close>, \<open>Workflow_Spec\<close> (\<open>domain/spec.py\<close>), \<open>Canonical_Graph\<close>
    (\<open>domain/graph.py\<close>), \<open>Failure_Policy\<close> (\<open>domain/failure.py\<close>), \<open>Execution_Entities\<close>
    (\<open>domain/execution.py\<close>, \<open>domain/security.py\<close>), \<open>Readiness\<close> (\<open>domain/readiness.py\<close>).
  \<^item> The definition pipeline: \<open>Yaml_Parser\<close>, \<open>Normalizer\<close>, \<open>Semantic_Validator\<close>, \<open>Spec_Codec\<close> (all of
    \<open>definition/\<close>), with what it guarantees in \<open>Definition_Properties\<close>.
  \<^item> The store: \<open>Store\<close> (\<open>persistence/orm.py\<close>: rows, keys, references, checks, statements),
    \<open>Tx_Setup\<close>, \<open>Tx_Settle\<close>, \<open>Tx_Drain\<close> (every operation of \<open>persistence/transactions.py\<close>), and
    \<open>Deployed_Schema\<close> (the migration under \<open>src/migrations\<close>).
  \<^item> What the transactions guarantee: \<open>Evolution\<close> and \<open>Tx_Evolution\<close> (rows move only along the state
    machines, one revision at a time), \<open>Lifecycle_Inv\<close>, \<open>Lifecycle\<close>, \<open>Lifecycle_Tasks\<close> (the invariant
    over workflows, tasks and attempts), \<open>Store_Steps\<close> (the step relation over all transactions and
    its reachable stores), \<open>Static_Tables\<close>, \<open>Sample_Run\<close> (a concrete execution),
    \<open>Store_Properties\<close>, \<open>Transaction_Properties\<close>, \<open>Workflow_Properties\<close>, \<open>Domain_Properties\<close>,
    \<open>Settlement\<close> and \<open>Stranded\<close> (settlements that apply in part).
  \<^item> Coroutines: \<open>Worker_Registry\<close> (\<open>orchestration/registry.py\<close>), \<open>Service_Process\<close> (the monad of a
    coroutine), \<open>Scheduler\<close> (\<open>orchestration/scheduler.py\<close>), \<open>Drain_Progress\<close>, \<open>Delivery_Guarantee\<close>
    (a rely-guarantee logic for coroutines), \<open>Execution_Rest\<close>.
  \<^item> The interface (\<open>interfaces/http\<close>): \<open>Http_Security\<close> (errors, guards, credentials, gate),
    \<open>Http_Dto\<close> (payloads), \<open>Route_Process\<close>, \<open>Definition_Routes\<close>, \<open>Execution_Routes\<close>,
    \<open>Worker_Routes\<close> (one definition per route), \<open>Worker_Protocol\<close>, \<open>Execution_Protocol\<close>,
    \<open>Execution_Promises\<close> (what the routes promise their callers), and \<open>Control_Plane\<close> (the
    application: each request through its guard to its route).
  \<^item> \<open>Session_Process\<close>, \<open>Recovery\<close>, \<open>Recovery_Properties\<close> (\<open>orchestration/recovery.py\<close> and the
    \<open>lifespan\<close> of \<open>interfaces/http/app.py\<close>) and \<open>Worker_Runtime\<close> (\<open>worker/runtime.py\<close>, the reference
    worker composed with the routes it calls).

  \<^bold>\<open>How the state corresponds.\<close> A table is the list of its rows in the record \<open>db\<close>, a row a record
  with a field per column; state columns are enumerations, a nullable column is an option, a \<open>UUID\<close> a
  natural number, a time the microseconds since 1970. A transaction is a function from the store to an
  exception, which rolls back (\<open>Inl\<close>), or to the new store with its outcome (\<open>Inr\<close>); an outcome that
  reports a conflict still commits what was changed before, as the code does. A coroutine maps an
  \<open>environment\<close> and a \<open>world\<close> (store, registry, number of events) to a result and a world. At every
  point where it awaits, \<open>env_db\<close> and \<open>env_registry\<close> say what the other coroutines did meanwhile; the
  clocks and \<open>uuid4()\<close> are read from the environment by event number. The relies on it are
  \<open>others_transact\<close> and \<open>others_deliver\<close>; the guarantees proved of every coroutine have the same form.
  A request's statements up to \<open>session.commit()\<close> are one transaction, undone when the route raises;
  recovery's long session is an overlay of pending transactions on the committed store.

  \<^bold>\<open>What the lemmas show.\<close> Invariants of every reachable store and its fit to the deployed schema;
  exclusive claims and what each settlement does on every branch; that an execution changes only
  finitely often and that a drain settles it; that an accepted start, callback or cancellation is in
  the store for good and a rejected callback changed nothing; that a poll hands out only recorded
  attempts of its session; that recovery and the whole application move by the transactions; that
  the durable transitions refine the entities of \<open>domain/execution.py\<close>; exactness of the validator,
  the cycle test, the topological order, readiness, routing and access; round trips of the codec.
  The theorems on partial settlements, recovery's output, null outputs and the durable fallback show
  defects of the code as it stands; they describe what it does, not what it means to do.

  \<^bold>\<open>Interfaces.\<close> Four contracts are locales, each interpreted on the model: \<open>reduction_graph\<close> (the
  nodes and adjacency Kahn's loop relies on: the task mapping and the canonical graph),
  \<open>versioned_rows\<close> (rows under revisions: workflows, tasks, attempts), its extension \<open>ranked_rows\<close> (a
  rank that bounds how often a row moves: the same three tables), and \<open>worker_directory\<close> (sessions and
  delivery queues: the registry).

  \<^bold>\<open>Bounds and fuel.\<close> No loop of the model runs on invented fuel. Loops over rows recurse on the list that
  was read; recovery's passes recurse on \<open>max_passes\<close>, the code's own bound; the batch sizes are its
  settings; \<open>poll_turns\<close> takes the number of turns of a loop that ends only when the worker stops;
  Kahn's loop and the YAML walk are total functions with termination proofs. Integers are unbounded as in Python;
  that the 32-bit columns of the database hold them is a theorem of \<open>Deployed_Schema\<close>.

  \<^bold>\<open>Arguments instead of definitions.\<close> Code outside the repository is an argument wherever it matters:
  the YAML composer and loader, \<open>json.loads\<close> and \<open>json.dumps\<close>, UTF-8 decoding, pydantic's validation
  of a definition, SHA-256, \<open>str\<close> of a mapping, the handlers of activities. What is asked of them is
  a named hypothesis and a witness shows an instance of it.

  \<^bold>\<open>Not modelled.\<close> Strings are lists of characters below 256. Texts rendered from exceptions are
  dropped from messages. Two rows that PostgreSQL may return in any order come in table order. Waiting for row
  locks, deadlocks, lost connections, network failures, crashes between two statements of one
  transaction (which the database undoes) and the thread pool of the worker are outside the model.
  \<open>domain/model.py\<close> (dataclasses without operations, superseded by \<open>domain/execution.py\<close>),
  \<open>domain/clock.py\<close> (wrappers of the system clock), \<open>persistence/engine.py\<close> and
  \<open>persistence/verification.py\<close> (configuration of the database library and a version query),
  \<open>observability/\<close> (logging, metrics, tracing), the module singletons and the settings without
  logic, the metrics exposition, Alembic's \<open>env.py\<close>, the demonstrations, benchmarks and tests carry no
  logic of the engine.
\<close>

end
